(* ===== verification/Arbiter_Prelude.thy ===== *)
theory Arbiter_Prelude
  imports Main "HOL-Library.Sublist" "HOL-Library.Char_ord" "HOL-Library.List_Lexorder"
begin

text \<open>
  Shared vocabulary of the development: the fact collections the component proofs draw on, the
  Go values every component uses (instants and durations in nanoseconds, \<open>int64\<close> and \<open>int32\<close>
  arithmetic with its wrap-around, strings and the string functions the sources call, nil-able
  maps), and the list-as-table operations (\<open>find\<close> by key, update of the matching rows) that model
  the SQL statements of \<^verbatim>\<open>src/internal/store\<close>.
\<close>

section \<open>Fact collections\<close>

named_theorems row_simps \<open>effect of the row updates on single columns\<close>
named_theorems tx_simps \<open>unfolding of transactions and of the statements they run\<close>
named_theorems frame_simps \<open>what an operation leaves unchanged\<close>

section \<open>Time\<close>

type_synonym time = int
type_synonym duration = int

definition Millisecond :: duration where "Millisecond = 1000000"
definition Second :: duration where "Second = 1000 * Millisecond"
definition Minute :: duration where "Minute = 60 * Second"

lemmas duration_units = Millisecond_def Second_def Minute_def

section \<open>Machine integers\<close>

definition i64 :: "int \<Rightarrow> int" where
  "i64 x = signed_take_bit 63 x"

definition i32 :: "int \<Rightarrow> int" where
  "i32 x = signed_take_bit 31 x"

definition in_i64 :: "int \<Rightarrow> bool" where
  "in_i64 x \<longleftrightarrow> - (2 ^ 63) \<le> x \<and> x < 2 ^ 63"

definition in_i32 :: "int \<Rightarrow> bool" where
  "in_i32 x \<longleftrightarrow> - (2 ^ 31) \<le> x \<and> x < 2 ^ 31"

lemma i64_id: "in_i64 x \<Longrightarrow> i64 x = x"
  unfolding i64_def in_i64_def by (rule signed_take_bit_int_eq_self) auto

lemma i32_id: "in_i32 x \<Longrightarrow> i32 x = x"
  unfolding i32_def in_i32_def by (rule signed_take_bit_int_eq_self) auto

lemma in_i64_i64: "in_i64 (i64 x)"
  unfolding i64_def in_i64_def
  using signed_take_bit_int_greater_eq_minus_exp [of 63 x] signed_take_bit_int_less_exp [of 63 x]
  by simp

lemma in_i64_between: "in_i64 a \<Longrightarrow> in_i64 b \<Longrightarrow> a \<le> x \<Longrightarrow> x \<le> b \<Longrightarrow> in_i64 x"
  by (simp add: in_i64_def)

lemma in_i64_0 [simp]: "in_i64 0"
  by (simp add: in_i64_def)

section \<open>Strings\<close>

definition is_space :: "char \<Rightarrow> bool" where
  "is_space c \<longleftrightarrow> c \<in> {CHR '' '', CHR 0x09, CHR 0x0A, CHR 0x0B, CHR 0x0C, CHR 0x0D}"

text \<open>\<^verbatim>\<open>strings.TrimSpace\<close> on ASCII text.\<close>

definition TrimSpace :: "string \<Rightarrow> string" where
  "TrimSpace s = rev (dropWhile is_space (rev (dropWhile is_space s)))"

definition HasPrefix :: "string \<Rightarrow> string \<Rightarrow> bool" where
  "HasPrefix s p \<longleftrightarrow> prefix p s"

definition TrimPrefix :: "string \<Rightarrow> string \<Rightarrow> string" where
  "TrimPrefix s p = (if prefix p s then drop (length p) s else s)"

definition Contains :: "string \<Rightarrow> string \<Rightarrow> bool" where
  "Contains s sub \<longleftrightarrow> list_ex (prefix sub) (suffixes s)"

text \<open>\<^verbatim>\<open>strings.Split\<close> with a one-character separator: never the empty list.\<close>

fun Split :: "char \<Rightarrow> string \<Rightarrow> string list" where
  "Split c [] = [[]]"
| "Split c (x # xs) =
     (if x = c then [] # Split c xs
      else (case Split c xs of [] \<Rightarrow> [[x]] | p # ps \<Rightarrow> (x # p) # ps))"

text \<open>\<^verbatim>\<open>strings.Cut\<close> with a one-character separator: before, after, found.\<close>

fun Cut :: "char \<Rightarrow> string \<Rightarrow> string \<times> string \<times> bool" where
  "Cut c [] = ([], [], False)"
| "Cut c (x # xs) =
     (if x = c then ([], xs, True)
      else (case Cut c xs of (before, after, found) \<Rightarrow> (x # before, after, found)))"

text \<open>Decimal printing, \<^verbatim>\<open>%d\<close> and \<^verbatim>\<open>strconv.FormatInt(_, 10)\<close>.\<close>

fun nat_digits :: "nat \<Rightarrow> string" where
  "nat_digits n = (if n < 10 then [char_of (48 + n)]
                   else nat_digits (n div 10) @ [char_of (48 + n mod 10)])"

declare nat_digits.simps [simp del]

definition itoa :: "int \<Rightarrow> string" where
  "itoa i = (if i < 0 then CHR ''-'' # nat_digits (nat (- i)) else nat_digits (nat i))"

text \<open>\<^verbatim>\<open>%q\<close> on text without characters to escape.\<close>

definition quoted :: "string \<Rightarrow> string" where
  "quoted s = CHR 0x22 # s @ [CHR 0x22]"

lemma TrimSpace_Nil [simp]: "TrimSpace [] = []"
  by (simp add: TrimSpace_def)

lemma TrimSpace_id:
  assumes "s \<noteq> []" and "\<not> is_space (hd s)" and "\<not> is_space (last s)"
  shows "TrimSpace s = s"
proof -
  from assms have "dropWhile is_space s = s" by (cases s) auto
  moreover from assms have "dropWhile is_space (rev s) = rev s"
    by (cases "rev s") (auto simp: last_rev hd_rev rev_eq_Cons_iff)
  ultimately show ?thesis by (simp add: TrimSpace_def)
qed

lemma Split_nonempty [simp]: "Split c s \<noteq> []"
  by (induction s) (auto split: list.splits)

text \<open>\<^verbatim>\<open>strings.Join\<close> with a one-character separator undoes \<open>Split\<close>.\<close>

fun Join :: "char \<Rightarrow> string list \<Rightarrow> string" where
  "Join c [] = []"
| "Join c [p] = p"
| "Join c (p # q # ps) = p @ c # Join c (q # ps)"

lemma Split_plain: "c \<notin> set p \<Longrightarrow> Split c p = [p]"
  by (induction p) auto

lemma Split_append: "c \<notin> set p \<Longrightarrow> Split c (p @ c # s) = p # Split c s"
  by (induction p) auto

lemma Split_Join: "ps \<noteq> [] \<Longrightarrow> list_all (\<lambda>p. c \<notin> set p) ps \<Longrightarrow> Split c (Join c ps) = ps"
  by (induction c ps rule: Join.induct) (auto simp: Split_plain Split_append)

lemma Cut_append: "c \<notin> set k \<Longrightarrow> Cut c (k @ c # v) = (k, v, True)"
  by (induction k) auto

section \<open>Nil-able string maps\<close>

type_synonym strmap = "(string \<times> string) list"

text \<open>A Go map read at a missing key (or a nil map) gives the zero value.\<close>

definition mget :: "strmap \<Rightarrow> string \<Rightarrow> string" where
  "mget m k = (case map_of m k of None \<Rightarrow> [] | Some v \<Rightarrow> v)"

definition mput :: "'k \<Rightarrow> 'v \<Rightarrow> ('k \<times> 'v) list \<Rightarrow> ('k \<times> 'v) list" where
  "mput k v m = (k, v) # filter (\<lambda>p. fst p \<noteq> k) m"

definition mdelete :: "'k \<Rightarrow> ('k \<times> 'v) list \<Rightarrow> ('k \<times> 'v) list" where
  "mdelete k m = filter (\<lambda>p. fst p \<noteq> k) m"

lemma map_of_mdelete [simp]: "map_of (mdelete k m) = (map_of m)(k := None)"
  by (induction m) (auto simp: mdelete_def)

lemma map_of_mput [simp]: "map_of (mput k v m) = (map_of m)(k \<mapsto> v)"
  using map_of_mdelete [of k m] by (simp add: mput_def mdelete_def)

lemma keys_mput [simp]: "fst ` set (mput k v m) = insert k (fst ` set m)"
  by (auto simp: mput_def)

section \<open>Tables as lists of rows\<close>

text \<open>\<^verbatim>\<open>UPDATE ... SET f WHERE P\<close> on a table.\<close>

definition update_where :: "('a \<Rightarrow> bool) \<Rightarrow> ('a \<Rightarrow> 'a) \<Rightarrow> 'a list \<Rightarrow> 'a list" where
  "update_where P f xs = map (\<lambda>x. if P x then f x else x) xs"

lemma update_where_Nil [simp]: "update_where P f [] = []"
  by (simp add: update_where_def)

lemma update_where_Cons [simp]:
  "update_where P f (x # xs) = (if P x then f x else x) # update_where P f xs"
  by (simp add: update_where_def)

lemma length_update_where [simp]: "length (update_where P f xs) = length xs"
  by (simp add: update_where_def)

lemma set_update_where: "set (update_where P f xs) = (\<lambda>x. if P x then f x else x) ` set xs"
  by (simp add: update_where_def)

lemma map_update_where_key:
  "(\<And>x. P x \<Longrightarrow> key (f x) = key x) \<Longrightarrow> map key (update_where P f xs) = map key xs"
  by (induction xs) auto

lemma update_where_cong_set:
  "(\<And>x. x \<in> set xs \<Longrightarrow> P x \<Longrightarrow> f x = x) \<Longrightarrow> update_where P f xs = xs"
  by (induction xs) auto

lemma nth_update: "j < length xs \<Longrightarrow> xs[i := v] ! j = (if i = j then v else xs ! j)"
  by (cases "i = j") simp_all

lemma find_in_set: "find P xs = Some x \<Longrightarrow> x \<in> set xs \<and> P x"
  by (induction xs) (auto split: if_splits)

lemma find_key_iff:
  assumes "distinct (map key xs)"
  shows "find (\<lambda>x. key x = k) xs = Some x \<longleftrightarrow> x \<in> set xs \<and> key x = k"
  using assms by (induction xs) (auto simp: rev_image_eqI)

lemma find_key_SomeI:
  "distinct (map key xs) \<Longrightarrow> x \<in> set xs \<Longrightarrow> find (\<lambda>y. key y = key x) xs = Some x"
  by (simp add: find_key_iff)

lemma find_update_where_same:
  assumes "\<And>x. key (f x) = key x"
  shows "find (\<lambda>x. key x = k) (update_where (\<lambda>x. key x = k) f xs)
       = map_option f (find (\<lambda>x. key x = k) xs)"
  using assms by (induction xs) auto

lemma find_update_where_other:
  assumes "\<And>x. P x \<Longrightarrow> key (f x) = key x" and "\<And>x. key x = k \<Longrightarrow> \<not> P x"
  shows "find (\<lambda>x. key x = k) (update_where P f xs) = find (\<lambda>x. key x = k) xs"
  using assms by (induction xs) auto

lemma find_update_where:
  assumes "\<And>x. P x \<Longrightarrow> key (f x) = key x"
  shows "find (\<lambda>x. key x = k) (update_where P f xs)
       = map_option (\<lambda>x. if P x then f x else x) (find (\<lambda>x. key x = k) xs)"
  using assms by (induction xs) auto

lemma find_None_key: "find (\<lambda>x. key x = k) xs = None \<longleftrightarrow> k \<notin> key ` set xs"
  by (auto simp: find_None_iff)

lemma sum_list_filter_le_mono:
  fixes f :: "'a \<Rightarrow> int"
  assumes "\<And>x. x \<in> set xs \<Longrightarrow> 0 \<le> f x" and "\<And>x. x \<in> set xs \<Longrightarrow> P x \<Longrightarrow> Q x"
  shows "sum_list (map f (filter P xs)) \<le> sum_list (map f (filter Q xs))"
  using assms by (induction xs) (auto simp: add_increasing)

lemma sum_list_map_filter_if:
  "sum_list (map f (filter P xs)) = sum_list (map (\<lambda>x. if P x then f x else (0::int)) xs)"
  by (induction xs) auto

text \<open>Sums over a table in which one row changes, and over the rows of a join.\<close>

lemma sum_list_update_one:
  fixes g :: "'a \<Rightarrow> int"
  assumes "filter P xs = [x]"
  shows "sum_list (map g (update_where P f xs)) = sum_list (map g xs) + (g (f x) - g x)"
  using assms
proof (induction xs)
  case (Cons y ys)
  show ?case
  proof (cases "P y")
    case True
    with Cons.prems have "y = x" "filter P ys = []" by auto
    moreover from this have "update_where P f ys = ys"
      by (intro update_where_cong_set) (auto simp: filter_empty_conv)
    ultimately show ?thesis using True by simp
  next
    case False
    with Cons show ?thesis by simp
  qed
qed simp

lemma sum_list_map_filter_option:
  fixes f :: "'b \<Rightarrow> int"
  shows "sum_list (map f (List.map_filter g xs))
       = sum_list (map (\<lambda>x. case g x of None \<Rightarrow> 0 | Some y \<Rightarrow> f y) xs)"
  by (induction xs) (auto simp: List.map_filter_def split: option.splits)

lemma map_sort_key: "map g (sort_key (\<lambda>x. f (g x)) xs) = sort_key f (map g xs)"
proof -
  have ins: "map g (insort_key (\<lambda>x. f (g x)) y ys) = insort_key f (g y) (map g ys)" for y ys
    by (induction ys) auto
  show ?thesis by (induction xs) (auto simp: ins)
qed

lemma distinct_map_take_filter:
  "distinct (map key xs) \<Longrightarrow> distinct (map key (take n (filter P xs)))"
  by (simp add: take_map [symmetric] distinct_map_filter)

lemma find_key_exists: "x \<in> set xs \<Longrightarrow> \<exists>y. find (\<lambda>y. key y = key x) xs = Some y"
  by (induction xs) auto

lemma filter_one_key:
  "distinct (map key xs) \<Longrightarrow> x \<in> set xs \<Longrightarrow> filter (\<lambda>y. key y = key x) xs = [x]"
proof (induction xs)
  case (Cons y ys)
  then show ?case
    by (cases "y = x") (auto simp: filter_empty_conv image_iff)
qed simp

end
