(* ===== verification/Store_Base.thy ===== *)
theory Store_Base
  imports Arbiter_Prelude
begin

text \<open>
  The database of \<^verbatim>\<open>src/internal/store\<close>: the rows of its five tables (the Go structs \<open>Node\<close>,
  \<open>Job\<close>, \<open>Task\<close>, \<open>Event\<close>, \<open>LeaderLease\<close>, which mirror \<^verbatim>\<open>src/migrations\<close>), the database state,
  and the two ways the repository methods reach it: a single statement on the pool (\<open>pool_query\<close>)
  and a transaction that is rolled back when its body or its commit fails (\<open>in_tx\<close>). What
  PostgreSQL decides is in \<open>dbenv\<close>: the transaction's \<open>now()\<close>, the UUIDs it generates and, for
  each statement, named by the error text the caller wraps it in, whether it fails.
\<close>

section \<open>Enumerations\<close>

datatype NodeStatus =
    NodeStatusUnknown | NodeStatusReady | NodeStatusNotReady | NodeStatusDead | NodeStatusCordoned

datatype TaskStatus =
    TaskStatusPending | TaskStatusScheduled | TaskStatusRunning | TaskStatusSucceeded
  | TaskStatusFailed | TaskStatusOrphaned | TaskStatusCancelled

datatype EntityType = EntityTypeNode | EntityTypeJob | EntityTypeTask | EntityTypeLeader

datatype EventType =
    EventTypeNodeRegistered | EventTypeNodeNotReady | EventTypeNodeRecovered | EventTypeNodeDead
  | EventTypeNodeCordoned | EventTypeNodeScaledUp | EventTypeNodeScaledDown
  | EventTypeJobSubmitted | EventTypeTaskScheduled | EventTypeTaskRunning
  | EventTypeTaskSucceeded | EventTypeTaskFailed | EventTypeTaskOrphaned
  | EventTypeTaskRequeued | EventTypeTaskRetryScheduled | EventTypeLeaderElected

fun TaskStatus_text :: "TaskStatus \<Rightarrow> string" where
  "TaskStatus_text TaskStatusPending = ''pending''"
| "TaskStatus_text TaskStatusScheduled = ''scheduled''"
| "TaskStatus_text TaskStatusRunning = ''running''"
| "TaskStatus_text TaskStatusSucceeded = ''succeeded''"
| "TaskStatus_text TaskStatusFailed = ''failed''"
| "TaskStatus_text TaskStatusOrphaned = ''orphaned''"
| "TaskStatus_text TaskStatusCancelled = ''cancelled''"

fun NodeStatus_text :: "NodeStatus \<Rightarrow> string" where
  "NodeStatus_text NodeStatusUnknown = ''unknown''"
| "NodeStatus_text NodeStatusReady = ''ready''"
| "NodeStatus_text NodeStatusNotReady = ''not_ready''"
| "NodeStatus_text NodeStatusDead = ''dead''"
| "NodeStatus_text NodeStatusCordoned = ''cordoned''"

definition SchedulingPolicyBinPack :: string where "SchedulingPolicyBinPack = ''bin_pack''"
definition SchedulingPolicySpread :: string where "SchedulingPolicySpread = ''spread''"

section \<open>Rows\<close>

record Node =
  nID :: string
  nHostname :: string
  nAddress :: string
  nCPUCapacityMillicores :: int
  nMemCapacityMB :: int
  nLabels :: "strmap option"
  nStatus :: NodeStatus
  nEpoch :: int
  nLastHeartbeatAt :: "time option"
  nCreatedAt :: time

record Job =
  jID :: string
  jName :: string
  jImage :: string
  jCommand :: "string list"
  jCPURequestMillicores :: int
  jMemRequestMB :: int
  jReplicas :: int
  jRetryLimit :: int
  jSchedulingPolicy :: string
  jConstraints :: strmap
  jCreatedAt :: time

record Task =
  tID :: string
  tJobID :: string
  tStatus :: TaskStatus
  tAssignedNodeID :: "string option"
  tAssignedEpoch :: "int option"
  tRetriesUsed :: int
  tExitCode :: "int option"
  tLastError :: "string option"
  tCreatedAt :: time
  tScheduledAt :: "time option"
  tStartedAt :: "time option"
  tFinishedAt :: "time option"
  tNextRetryAt :: "time option"

record TaskWithJob =
  wTask :: Task
  wImage :: string
  wCommand :: "string list"
  wCPURequestMillicores :: int
  wMemRequestMB :: int
  wRetryLimit :: int
  wSchedulingPolicy :: string
  wConstraints :: strmap

record NodeAllocation =
  aCPUMillicores :: int
  aMemoryMB :: int

record Event =
  eID :: int
  eEntityType :: EntityType
  eEntityID :: string
  eEventType :: EventType
  eMessage :: string
  eCreatedAt :: time

record LeaderLease =
  lLeaderID :: string
  lLeaderAddr :: string
  lEpoch :: int
  lAcquiredAt :: time
  lExpiresAt :: time

section \<open>The database\<close>

text \<open>
  \<open>db_event_seq\<close> is the next value of the \<^verbatim>\<open>BIGSERIAL\<close> of \<^verbatim>\<open>events.id\<close>; \<open>db_lease\<close> is the
  single row of \<^verbatim>\<open>leader_lease\<close>, \<open>None\<close> before the migrations ran.
\<close>

record db =
  db_nodes :: "Node list"
  db_jobs :: "Job list"
  db_tasks :: "Task list"
  db_events :: "Event list"
  db_event_seq :: int
  db_lease :: "LeaderLease option"

text \<open>The schema right after \<^verbatim>\<open>store.Migrate\<close> at instant \<open>t\<close>.\<close>

definition migrated_db :: "time \<Rightarrow> db" where
  "migrated_db t = \<lparr>db_nodes = [], db_jobs = [], db_tasks = [], db_events = [],
     db_event_seq = 1,
     db_lease = Some \<lparr>lLeaderID = [], lLeaderAddr = [], lEpoch = 0, lAcquiredAt = t,
                      lExpiresAt = 0\<rparr>\<rparr>"

record dbenv =
  db_now :: time
  db_uuid :: "nat \<Rightarrow> string"
  db_fault :: "string \<Rightarrow> bool"

datatype store_error =
    ErrNodeNotFound | ErrJobNotFound | ErrTaskNotFound | ErrStaleTaskReport
  | StoreError string

definition pool_query :: "dbenv \<Rightarrow> string \<Rightarrow> (db \<Rightarrow> 'a) \<Rightarrow> db \<Rightarrow> store_error + 'a" where
  "pool_query env w q d = (if db_fault env w then Inl (StoreError w) else Inr (q d))"

definition in_tx ::
  "dbenv \<Rightarrow> string \<Rightarrow> (db \<Rightarrow> store_error + ('a \<times> db)) \<Rightarrow> db \<Rightarrow> (store_error + 'a) \<times> db" where
  "in_tx env w body d =
     (if db_fault env (w @ '': begin tx'') then (Inl (StoreError (w @ '': begin tx'')), d)
      else case body d of
             Inl e \<Rightarrow> (Inl e, d)
           | Inr (r, d') \<Rightarrow>
               if db_fault env (w @ '': commit'') then (Inl (StoreError (w @ '': commit'')), d)
               else (Inr r, d'))"

section \<open>The audit trail\<close>

text \<open>\<open>w\<close> is the text the caller wraps a failed \<^verbatim>\<open>INSERT INTO events\<close> in.\<close>

definition insertEvent ::
  "dbenv \<Rightarrow> string \<Rightarrow> EntityType \<Rightarrow> string \<Rightarrow> EventType \<Rightarrow> string \<Rightarrow> db \<Rightarrow> store_error + db" where
  "insertEvent env w entityType entityID eventType message d =
     (if db_fault env w then Inl (StoreError w)
      else Inr (d\<lparr>db_events := db_events d @
                    [\<lparr>eID = db_event_seq d, eEntityType = entityType, eEntityID = entityID,
                      eEventType = eventType, eMessage = message, eCreatedAt = db_now env\<rparr>],
                  db_event_seq := db_event_seq d + 1\<rparr>))"

definition InsertEvent ::
  "dbenv \<Rightarrow> EntityType \<Rightarrow> string \<Rightarrow> EventType \<Rightarrow> string \<Rightarrow> db \<Rightarrow> (store_error + unit) \<times> db" where
  "InsertEvent env entityType entityID eventType message d =
     (case insertEvent env ''store: insert event'' entityType entityID eventType message d of
        Inl e \<Rightarrow> (Inl e, d)
      | Inr d' \<Rightarrow> (Inr (), d'))"

definition ListEventsForEntity ::
  "dbenv \<Rightarrow> EntityType \<Rightarrow> string \<Rightarrow> db \<Rightarrow> store_error + Event list" where
  "ListEventsForEntity env entityType entityID d =
     pool_query env ''store: list events''
       (\<lambda>d. sort_key eCreatedAt
              (filter (\<lambda>e. eEntityType e = entityType \<and> eEntityID e = entityID) (db_events d))) d"

text \<open>The newest \<open>limit\<close> events, oldest of them first.\<close>

definition ListRecentEvents :: "dbenv \<Rightarrow> int \<Rightarrow> db \<Rightarrow> store_error + Event list" where
  "ListRecentEvents env limit d =
     (let limit = (if limit \<le> 0 then 50 else limit) in
      pool_query env ''store: list recent events''
        (\<lambda>d. rev (take (nat limit) (rev (sort_key eID (db_events d))))) d)"

definition ListEventsAfter :: "dbenv \<Rightarrow> int \<Rightarrow> int \<Rightarrow> db \<Rightarrow> store_error + Event list" where
  "ListEventsAfter env afterID limit d =
     (let limit = (if limit \<le> 0 then 100 else limit) in
      pool_query env ''store: list events after''
        (\<lambda>d. take (nat limit) (sort_key eID (filter (\<lambda>e. afterID < eID e) (db_events d)))) d)"

section \<open>Lemmas\<close>

lemma in_tx_Inr:
  "in_tx env w body d = (Inr r, d') \<longleftrightarrow>
     \<not> db_fault env (w @ '': begin tx'') \<and> \<not> db_fault env (w @ '': commit'')
     \<and> body d = Inr (r, d')"
  by (auto simp: in_tx_def split: sum.splits if_splits)

lemma in_tx_Inl: "in_tx env w body d = (Inl e, d') \<Longrightarrow> d' = d"
  by (auto simp: in_tx_def split: sum.splits if_splits)

text \<open>The committed state of a transaction is the old state or the one its body computed.\<close>

lemma in_tx_cases:
  assumes "in_tx env w body d = (res, d')"
  obtains (failed) e where "res = Inl e" "d' = d"
  | (committed) r where "res = Inr r" "body d = Inr (r, d')"
  using assms by (auto simp: in_tx_def split: sum.splits if_splits)

lemma insertEvent_Inr:
  "insertEvent env w ety eid evt msg d = Inr d' \<longleftrightarrow>
     \<not> db_fault env w \<and>
     d' = d\<lparr>db_events := db_events d @
              [\<lparr>eID = db_event_seq d, eEntityType = ety, eEntityID = eid, eEventType = evt,
                eMessage = msg, eCreatedAt = db_now env\<rparr>],
            db_event_seq := db_event_seq d + 1\<rparr>"
  by (auto simp: insertEvent_def)

lemma insertEvent_frame [frame_simps]:
  assumes "insertEvent env w ety eid evt msg d = Inr d'"
  shows "db_nodes d' = db_nodes d" "db_jobs d' = db_jobs d" "db_tasks d' = db_tasks d"
    "db_lease d' = db_lease d" "db_event_seq d' = db_event_seq d + 1"
  using assms by (auto simp: insertEvent_Inr)

lemma InsertEvent_frame:
  "InsertEvent env ety eid evt msg d = (r, d') \<Longrightarrow>
     db_nodes d' = db_nodes d \<and> db_jobs d' = db_jobs d \<and> db_tasks d' = db_tasks d
     \<and> db_lease d' = db_lease d"
  by (auto simp: InsertEvent_def insertEvent_def split: sum.splits if_splits)

lemma pool_query_Inr:
  "pool_query env w q d = Inr r \<longleftrightarrow> \<not> db_fault env w \<and> r = q d"
  by (auto simp: pool_query_def)

end
