(* ===== verification/Store_Nodes.thy ===== *)
theory Store_Nodes
  imports Store_Base
begin

text \<open>
  \<^verbatim>\<open>src/internal/store/nodes.go\<close>: registration of workers (an upsert that bumps the fencing
  epoch), status changes, the death of a node with the requeueing of its tasks in the same
  transaction, and the node queries. The lemmas give the effect of each operation on the tables
  when it succeeds; \<open>in_tx\<close> gives that nothing changes when it fails.
\<close>

record RegisterNodeParams =
  rHostname :: string
  rAddress :: string
  rCPUCapacityMillicores :: int
  rMemCapacityMB :: int
  rLabels :: "strmap option"

section \<open>Registration\<close>

text \<open>
  The row an \<^verbatim>\<open>INSERT\<close> creates, and the \<^verbatim>\<open>ON CONFLICT DO UPDATE\<close> of an existing one. The
  statement fails on a value outside its \<^verbatim>\<open>BIGINT\<close> column and on a primary key already in use.
\<close>

definition new_node :: "dbenv \<Rightarrow> RegisterNodeParams \<Rightarrow> strmap \<Rightarrow> Node" where
  "new_node env p labels =
     \<lparr>nID = db_uuid env 0, nHostname = rHostname p, nAddress = rAddress p,
      nCPUCapacityMillicores = rCPUCapacityMillicores p, nMemCapacityMB = rMemCapacityMB p,
      nLabels = Some labels, nStatus = NodeStatusReady, nEpoch = 0,
      nLastHeartbeatAt = Some (db_now env), nCreatedAt = db_now env\<rparr>"

definition reregister_node :: "dbenv \<Rightarrow> RegisterNodeParams \<Rightarrow> strmap \<Rightarrow> Node \<Rightarrow> Node" where
  "reregister_node env p labels n =
     n\<lparr>nCPUCapacityMillicores := rCPUCapacityMillicores p, nMemCapacityMB := rMemCapacityMB p,
       nLabels := Some labels, nStatus := NodeStatusReady, nEpoch := nEpoch n + 1,
       nLastHeartbeatAt := Some (db_now env)\<rparr>"

definition same_host :: "RegisterNodeParams \<Rightarrow> Node \<Rightarrow> bool" where
  "same_host p n \<longleftrightarrow> nHostname n = rHostname p \<and> nAddress n = rAddress p"

definition upsert_node :: "dbenv \<Rightarrow> RegisterNodeParams \<Rightarrow> strmap \<Rightarrow> db \<Rightarrow> store_error + (Node \<times> db)" where
  "upsert_node env p labels d =
     (if db_fault env ''store: register node'' \<or> \<not> in_i64 (rCPUCapacityMillicores p)
         \<or> \<not> in_i64 (rMemCapacityMB p)
      then Inl (StoreError ''store: register node'')
      else case find (same_host p) (db_nodes d) of
        None \<Rightarrow>
          if db_uuid env 0 \<in> nID ` set (db_nodes d) then Inl (StoreError ''store: register node'')
          else Inr (new_node env p labels,
                    d\<lparr>db_nodes := db_nodes d @ [new_node env p labels]\<rparr>)
      | Some n \<Rightarrow>
          Inr (reregister_node env p labels n,
               d\<lparr>db_nodes := update_where (same_host p) (reregister_node env p labels)
                               (db_nodes d)\<rparr>))"

definition RegisterNode ::
  "dbenv \<Rightarrow> RegisterNodeParams \<Rightarrow> db \<Rightarrow> (store_error + Node) \<times> db" where
  "RegisterNode env params d =
     (let labels = (case rLabels params of None \<Rightarrow> [] | Some m \<Rightarrow> m) in
      in_tx env ''store: register node''
        (\<lambda>d. case upsert_node env params labels d of
               Inl e \<Rightarrow> Inl e
             | Inr (node, d1) \<Rightarrow>
                 (case insertEvent env ''store: register node: insert event'' EntityTypeNode
                         (nID node) EventTypeNodeRegistered
                         (''node registered: hostname='' @ nHostname node @ '' address=''
                            @ nAddress node @ '' epoch='' @ itoa (nEpoch node)) d1 of
                    Inl e \<Rightarrow> Inl e
                  | Inr d2 \<Rightarrow> Inr (node, d2))) d)"

section \<open>Status changes\<close>

definition UpdateNodeStatus ::
  "dbenv \<Rightarrow> string \<Rightarrow> NodeStatus \<Rightarrow> EventType \<Rightarrow> string \<Rightarrow> db \<Rightarrow> (store_error + Node) \<times> db" where
  "UpdateNodeStatus env nodeID newStatus eventType message d =
     in_tx env ''store: update node status''
       (\<lambda>d. if db_fault env ''store: update node status''
            then Inl (StoreError ''store: update node status'')
            else case find (\<lambda>n. nID n = nodeID) (db_nodes d) of
              None \<Rightarrow> Inl ErrNodeNotFound
            | Some n \<Rightarrow>
                (let node = n\<lparr>nStatus := newStatus\<rparr>;
                     d1 = d\<lparr>db_nodes := update_where (\<lambda>n. nID n = nodeID)
                                          (\<lambda>n. n\<lparr>nStatus := newStatus\<rparr>) (db_nodes d)\<rparr>
                 in case insertEvent env ''store: update node status: insert event''
                           EntityTypeNode (nID node) eventType message d1 of
                      Inl e \<Rightarrow> Inl e
                    | Inr d2 \<Rightarrow> Inr (node, d2))) d"

section \<open>Death of a node\<close>

record MarkNodeDeadResult =
  mNode :: Node
  mOrphanedTaskIDs :: "string list"

definition occupies :: "string \<Rightarrow> Task \<Rightarrow> bool" where
  "occupies nodeID t \<longleftrightarrow>
     tAssignedNodeID t = Some nodeID \<and> tStatus t \<in> {TaskStatusScheduled, TaskStatusRunning}"

definition requeue_orphan :: "Task \<Rightarrow> Task" where
  "requeue_orphan t =
     t\<lparr>tStatus := TaskStatusPending, tAssignedNodeID := None, tAssignedEpoch := None,
       tScheduledAt := None, tStartedAt := None, tFinishedAt := None, tNextRetryAt := None,
       tLastError := Some ''requeued after node failure''\<rparr>"

fun requeue_loop :: "dbenv \<Rightarrow> string \<Rightarrow> string list \<Rightarrow> db \<Rightarrow> store_error + db" where
  "requeue_loop env nodeID [] d = Inr d"
| "requeue_loop env nodeID (tid # ids) d =
     (case insertEvent env ''task orphaned event'' EntityTypeTask tid EventTypeTaskOrphaned
             (''orphaned: assigned node '' @ nodeID @ '' marked dead'') d of
        Inl e \<Rightarrow> Inl e
      | Inr d1 \<Rightarrow>
          if db_fault env ''store: requeue orphaned task''
          then Inl (StoreError ''store: requeue orphaned task'')
          else
            (let d2 = d1\<lparr>db_tasks := update_where (\<lambda>t. tID t = tid) requeue_orphan (db_tasks d1)\<rparr>
             in case insertEvent env ''task requeued event'' EntityTypeTask tid
                       EventTypeTaskRequeued ''requeued as pending for reassignment'' d2 of
                  Inl e \<Rightarrow> Inl e
                | Inr d3 \<Rightarrow> requeue_loop env nodeID ids d3))"

definition orphanAndRequeueTasksTx ::
  "dbenv \<Rightarrow> string \<Rightarrow> db \<Rightarrow> store_error + (string list \<times> db)" where
  "orphanAndRequeueTasksTx env nodeID d =
     (if db_fault env ''store: list tasks to orphan''
      then Inl (StoreError ''store: list tasks to orphan'')
      else
        (let ids = map tID (filter (occupies nodeID) (db_tasks d))
         in if ids = [] then Inr ([], d)
            else case requeue_loop env nodeID ids d of
                   Inl e \<Rightarrow> Inl e
                 | Inr d' \<Rightarrow> Inr (ids, d')))"

definition bump_dead :: "Node \<Rightarrow> Node" where
  "bump_dead n = n\<lparr>nStatus := NodeStatusDead, nEpoch := nEpoch n + 1\<rparr>"

definition MarkNodeDead ::
  "dbenv \<Rightarrow> string \<Rightarrow> db \<Rightarrow> (store_error + MarkNodeDeadResult) \<times> db" where
  "MarkNodeDead env nodeID d =
     in_tx env ''store: mark node dead''
       (\<lambda>d. if db_fault env ''store: mark node dead''
            then Inl (StoreError ''store: mark node dead'')
            else case find (\<lambda>n. nID n = nodeID) (db_nodes d) of
              None \<Rightarrow> Inl ErrNodeNotFound
            | Some n \<Rightarrow>
                (let node = bump_dead n;
                     d1 = d\<lparr>db_nodes := update_where (\<lambda>n. nID n = nodeID) bump_dead
                                          (db_nodes d)\<rparr>
                 in case insertEvent env ''store: mark node dead: insert event'' EntityTypeNode
                           (nID node) EventTypeNodeDead
                           (''node marked dead after missed heartbeats, epoch bumped to ''
                              @ itoa (nEpoch node)) d1 of
                      Inl e \<Rightarrow> Inl e
                    | Inr d2 \<Rightarrow>
                        (case orphanAndRequeueTasksTx env nodeID d2 of
                           Inl e \<Rightarrow> Inl e
                         | Inr (ids, d3) \<Rightarrow>
                             Inr (\<lparr>mNode = node, mOrphanedTaskIDs = ids\<rparr>, d3)))) d"

section \<open>Queries\<close>

definition GetNode :: "dbenv \<Rightarrow> string \<Rightarrow> db \<Rightarrow> store_error + Node" where
  "GetNode env nid d =
     (case pool_query env ''store: get node'' (\<lambda>d. find (\<lambda>n. nID n = nid) (db_nodes d)) d of
        Inl e \<Rightarrow> Inl e
      | Inr None \<Rightarrow> Inl ErrNodeNotFound
      | Inr (Some n) \<Rightarrow> Inr n)"

definition count_rows :: "('a \<Rightarrow> 'k) \<Rightarrow> 'a list \<Rightarrow> 'k \<Rightarrow> int option" where
  "count_rows key rows k =
     (let n = length (filter (\<lambda>r. key r = k) rows) in if n = 0 then None else Some (int n))"

definition CountNodesByStatus :: "dbenv \<Rightarrow> db \<Rightarrow> store_error + (NodeStatus \<Rightarrow> int option)" where
  "CountNodesByStatus env d =
     pool_query env ''store: count nodes by status'' (\<lambda>d. count_rows nStatus (db_nodes d)) d"

definition ListNodes :: "dbenv \<Rightarrow> db \<Rightarrow> store_error + Node list" where
  "ListNodes env d =
     pool_query env ''store: list nodes'' (\<lambda>d. sort_key nCreatedAt (db_nodes d)) d"

definition ListActiveNodes :: "dbenv \<Rightarrow> db \<Rightarrow> store_error + Node list" where
  "ListActiveNodes env d =
     pool_query env ''store: list active nodes''
       (\<lambda>d. sort_key nCreatedAt
              (filter (\<lambda>n. nStatus n \<notin> {NodeStatusDead, NodeStatusCordoned}) (db_nodes d))) d"

end
