(* ===== verification/Store_Tasks.thy ===== *)
theory Store_Tasks
  imports Store_Nodes "HOL-Library.Option_ord"
begin

text \<open>
  \<^verbatim>\<open>src/internal/store/jobs_tasks.go\<close>: creation of a job with its task rows, the queries of the
  control plane, the claim and the assignment of pending tasks, the allocation sums, and the
  fenced status reports of the workers with the bounded, backed-off retry of failed tasks.
\<close>

section \<open>Jobs\<close>

record CreateJobParams =
  cName :: string
  cImage :: string
  cCommand :: "string list"
  cCPURequestMillicores :: int
  cMemRequestMB :: int
  cReplicas :: int
  cRetryLimit :: int
  cSchedulingPolicy :: string
  cConstraints :: strmap

text \<open>
  The \<^verbatim>\<open>CHECK\<close> constraints of \<^verbatim>\<open>jobs\<close> (\<^verbatim>\<open>000003_create_jobs_and_tasks.up.sql\<close>) and the ranges
  of its integer columns.
\<close>

definition job_row_ok :: "Job \<Rightarrow> bool" where
  "job_row_ok j \<longleftrightarrow>
     1 \<le> jReplicas j \<and> 0 < jCPURequestMillicores j \<and> 0 < jMemRequestMB j
     \<and> jSchedulingPolicy j \<in> {SchedulingPolicyBinPack, SchedulingPolicySpread}
     \<and> in_i64 (jCPURequestMillicores j) \<and> in_i64 (jMemRequestMB j)
     \<and> in_i32 (jReplicas j) \<and> in_i32 (jRetryLimit j)"

definition new_job :: "dbenv \<Rightarrow> CreateJobParams \<Rightarrow> Job" where
  "new_job env p =
     \<lparr>jID = db_uuid env 0, jName = cName p, jImage = cImage p, jCommand = cCommand p,
      jCPURequestMillicores = cCPURequestMillicores p, jMemRequestMB = cMemRequestMB p,
      jReplicas = cReplicas p, jRetryLimit = cRetryLimit p,
      jSchedulingPolicy = cSchedulingPolicy p, jConstraints = cConstraints p,
      jCreatedAt = db_now env\<rparr>"

definition new_task :: "dbenv \<Rightarrow> string \<Rightarrow> nat \<Rightarrow> Task" where
  "new_task env jobID i =
     \<lparr>tID = db_uuid env (Suc i), tJobID = jobID, tStatus = TaskStatusPending,
      tAssignedNodeID = None, tAssignedEpoch = None, tRetriesUsed = 0, tExitCode = None,
      tLastError = None, tCreatedAt = db_now env, tScheduledAt = None, tStartedAt = None,
      tFinishedAt = None, tNextRetryAt = None\<rparr>"

text \<open>The insertion loop; \<open>n\<close> counts the rows still to insert, \<open>i\<close> is the loop variable.\<close>

fun insert_tasks :: "dbenv \<Rightarrow> string \<Rightarrow> nat \<Rightarrow> nat \<Rightarrow> db \<Rightarrow> store_error + db" where
  "insert_tasks env jobID i 0 d = Inr d"
| "insert_tasks env jobID i (Suc n) d =
     (if db_fault env ''store: create job: insert task'' \<or> db_uuid env (Suc i) \<in> tID ` set (db_tasks d)
      then Inl (StoreError ''store: create job: insert task'')
      else insert_tasks env jobID (Suc i) n
             (d\<lparr>db_tasks := db_tasks d @ [new_task env jobID i]\<rparr>))"

definition CreateJob :: "dbenv \<Rightarrow> CreateJobParams \<Rightarrow> db \<Rightarrow> (store_error + Job) \<times> db" where
  "CreateJob env params d =
     (if cReplicas params < 1 then (Inl (StoreError ''store: replicas must be >= 1''), d)
      else
        (let params = (if cSchedulingPolicy params = []
                       then params\<lparr>cSchedulingPolicy := SchedulingPolicyBinPack\<rparr> else params)
         in in_tx env ''store: create job''
              (\<lambda>d. let job = new_job env params in
                   if db_fault env ''store: create job'' \<or> \<not> job_row_ok job
                      \<or> jID job \<in> jID ` set (db_jobs d)
                   then Inl (StoreError ''store: create job'')
                   else
                     (case insert_tasks env (jID job) 0 (nat (cReplicas params))
                             (d\<lparr>db_jobs := db_jobs d @ [job]\<rparr>) of
                        Inl e \<Rightarrow> Inl e
                      | Inr d1 \<Rightarrow>
                          (case insertEvent env ''store: create job: insert event'' EntityTypeJob
                                  (jID job) EventTypeJobSubmitted
                                  (''job submitted: name='' @ jName job @ '' replicas=''
                                     @ itoa (jReplicas job) @ '' image='' @ jImage job) d1 of
                             Inl e \<Rightarrow> Inl e
                           | Inr d2 \<Rightarrow> Inr (job, d2)))) d))"

definition GetJob :: "dbenv \<Rightarrow> string \<Rightarrow> db \<Rightarrow> store_error + Job" where
  "GetJob env jid d =
     (case pool_query env ''store: get job'' (\<lambda>d. find (\<lambda>j. jID j = jid) (db_jobs d)) d of
        Inl e \<Rightarrow> Inl e
      | Inr None \<Rightarrow> Inl ErrJobNotFound
      | Inr (Some j) \<Rightarrow> Inr j)"

definition ListJobs :: "dbenv \<Rightarrow> db \<Rightarrow> store_error + Job list" where
  "ListJobs env d = pool_query env ''store: list jobs'' (\<lambda>d. sort_key jCreatedAt (db_jobs d)) d"

section \<open>Task queries\<close>

definition GetTask :: "dbenv \<Rightarrow> string \<Rightarrow> db \<Rightarrow> store_error + Task" where
  "GetTask env tid d =
     (case pool_query env ''store: get task'' (\<lambda>d. find (\<lambda>t. tID t = tid) (db_tasks d)) d of
        Inl e \<Rightarrow> Inl e
      | Inr None \<Rightarrow> Inl ErrTaskNotFound
      | Inr (Some t) \<Rightarrow> Inr t)"

definition CountTasksByStatus :: "dbenv \<Rightarrow> db \<Rightarrow> store_error + (TaskStatus \<Rightarrow> int option)" where
  "CountTasksByStatus env d =
     pool_query env ''store: count tasks by status'' (\<lambda>d. count_rows tStatus (db_tasks d)) d"

definition ListTasks :: "dbenv \<Rightarrow> string \<Rightarrow> db \<Rightarrow> store_error + Task list" where
  "ListTasks env jobID d =
     pool_query env ''store: list tasks''
       (\<lambda>d. sort_key tCreatedAt
              (if jobID = [] then db_tasks d
               else filter (\<lambda>t. tJobID t = jobID) (db_tasks d))) d"

section \<open>Claiming and assigning\<close>

text \<open>\<^verbatim>\<open>tasks t JOIN jobs j ON j.id = t.job_id\<close>.\<close>

definition task_with_job :: "db \<Rightarrow> Task \<Rightarrow> TaskWithJob option" where
  "task_with_job d t =
     map_option
       (\<lambda>j. \<lparr>wTask = t, wImage = jImage j, wCommand = jCommand j,
             wCPURequestMillicores = jCPURequestMillicores j, wMemRequestMB = jMemRequestMB j,
             wRetryLimit = jRetryLimit j, wSchedulingPolicy = jSchedulingPolicy j,
             wConstraints = jConstraints j\<rparr>)
       (find (\<lambda>j. jID j = tJobID t) (db_jobs d))"

definition claimable :: "time \<Rightarrow> Task \<Rightarrow> bool" where
  "claimable t0 t \<longleftrightarrow> tStatus t = TaskStatusPending
     \<and> (case tNextRetryAt t of None \<Rightarrow> True | Some r \<Rightarrow> r \<le> t0)"

text \<open>\<open>locked\<close>: the task rows other transactions hold, which \<^verbatim>\<open>SKIP LOCKED\<close> passes over.\<close>

definition claim_rows :: "time \<Rightarrow> string set \<Rightarrow> nat \<Rightarrow> db \<Rightarrow> TaskWithJob list" where
  "claim_rows t0 locked limit d =
     take limit
       (filter (\<lambda>w. tID (wTask w) \<notin> locked)
          (sort_key (\<lambda>w. tCreatedAt (wTask w))
             (List.map_filter (task_with_job d) (filter (claimable t0) (db_tasks d)))))"

definition ClaimPendingTasksForScheduling ::
  "dbenv \<Rightarrow> string set \<Rightarrow> nat \<Rightarrow> db \<Rightarrow> store_error + TaskWithJob list" where
  "ClaimPendingTasksForScheduling env locked limit d =
     (if db_fault env ''store: claim pending tasks: begin tx''
      then Inl (StoreError ''store: claim pending tasks: begin tx'')
      else pool_query env ''store: claim pending tasks''
             (claim_rows (db_now env) locked limit) d)"

definition assign_task :: "dbenv \<Rightarrow> string \<Rightarrow> int \<Rightarrow> Task \<Rightarrow> Task" where
  "assign_task env nodeID epoch t =
     t\<lparr>tStatus := TaskStatusScheduled, tAssignedNodeID := Some nodeID,
       tAssignedEpoch := Some epoch, tScheduledAt := Some (db_now env)\<rparr>"

definition ScheduleTask ::
  "dbenv \<Rightarrow> string \<Rightarrow> string \<Rightarrow> int \<Rightarrow> db \<Rightarrow> store_error + db" where
  "ScheduleTask env taskID nodeID epoch d =
     (let hit = (\<lambda>t. tID t = taskID \<and> tStatus t = TaskStatusPending);
          affected = length (filter hit (db_tasks d)) in
      if db_fault env ''store: schedule task''
         \<or> (0 < affected \<and> nodeID \<notin> nID ` set (db_nodes d))
      then Inl (StoreError ''store: schedule task'')
      else if affected \<noteq> 1
      then Inl (StoreError (''store: schedule task: expected 1 row updated, got ''
                              @ itoa (int affected)))
      else insertEvent env ''store: schedule task: insert event'' EntityTypeTask taskID
             EventTypeTaskScheduled
             (''task scheduled onto node '' @ nodeID @ '' (epoch '' @ itoa epoch @ '')'')
             (d\<lparr>db_tasks := update_where hit (assign_task env nodeID epoch) (db_tasks d)\<rparr>))"

section \<open>Allocations\<close>

definition zero_alloc :: NodeAllocation where
  "zero_alloc = \<lparr>aCPUMillicores = 0, aMemoryMB = 0\<rparr>"

definition joined_on :: "string \<Rightarrow> db \<Rightarrow> TaskWithJob list" where
  "joined_on nodeID d = List.map_filter (task_with_job d) (filter (occupies nodeID) (db_tasks d))"

definition sum_alloc :: "TaskWithJob list \<Rightarrow> NodeAllocation" where
  "sum_alloc ws = \<lparr>aCPUMillicores = sum_list (map wCPURequestMillicores ws),
                   aMemoryMB = sum_list (map wMemRequestMB ws)\<rparr>"

text \<open>
  \<^verbatim>\<open>SUM\<close> over a \<^verbatim>\<open>BIGINT\<close> column is \<^verbatim>\<open>NUMERIC\<close>: scanning it into an \<open>int64\<close> fails out of range.
\<close>

definition alloc_scans :: "NodeAllocation \<Rightarrow> bool" where
  "alloc_scans a \<longleftrightarrow> in_i64 (aCPUMillicores a) \<and> in_i64 (aMemoryMB a)"

definition GetNodeAllocation :: "dbenv \<Rightarrow> string \<Rightarrow> db \<Rightarrow> store_error + NodeAllocation" where
  "GetNodeAllocation env nodeID d =
     (if \<not> alloc_scans (sum_alloc (joined_on nodeID d))
      then Inl (StoreError ''store: get node allocation'')
      else pool_query env ''store: get node allocation'' (\<lambda>d. sum_alloc (joined_on nodeID d)) d)"

type_synonym alloc_map = "string \<Rightarrow> NodeAllocation option"

definition GetNodeAllocations :: "dbenv \<Rightarrow> db \<Rightarrow> store_error + alloc_map" where
  "GetNodeAllocations env d =
     (if \<not> list_all (\<lambda>n. alloc_scans (sum_alloc (joined_on (nID n) d))) (db_nodes d)
      then Inl (StoreError ''store: scan node allocation'')
      else pool_query env ''store: get node allocations''
             (\<lambda>d nid. let ws = joined_on nid d in if ws = [] then None else Some (sum_alloc ws)) d)"

text \<open>Reading the map at a missing key gives the zero allocation.\<close>

definition alloc_at :: "alloc_map \<Rightarrow> string \<Rightarrow> NodeAllocation" where
  "alloc_at m nid = (case m nid of None \<Rightarrow> zero_alloc | Some a \<Rightarrow> a)"

definition ListScheduledTasksForNode ::
  "dbenv \<Rightarrow> string \<Rightarrow> db \<Rightarrow> store_error + TaskWithJob list" where
  "ListScheduledTasksForNode env nodeID d =
     pool_query env ''store: list scheduled tasks''
       (\<lambda>d. sort_key (\<lambda>w. tScheduledAt (wTask w))
              (sort_key (\<lambda>w. tCreatedAt (wTask w))
                 (List.map_filter (task_with_job d)
                    (filter (\<lambda>t. tAssignedNodeID t = Some nodeID
                               \<and> tStatus t = TaskStatusScheduled) (db_tasks d))))) d"

end
