(* ===== verification/Store_Reports.thy ===== *)
theory Store_Reports
  imports Store_Tasks
begin

text \<open>
  The worker-driven half of \<^verbatim>\<open>src/internal/store/jobs_tasks.go\<close>: \<open>UpdateTaskStatus\<close> with its
  fence, its idempotent terminal reports, its legal transitions, and the requeueing of a failed
  task with exponential backoff. The lemmas give the bounds of the backoff and the row every
  branch writes.
\<close>

record UpdateTaskStatusParams =
  uTaskID :: string
  uStatus :: TaskStatus
  uExitCode :: "int option"
  uError :: string
  uNodeID :: string
  uEpoch :: int

definition checkTaskReportFence :: "Task \<Rightarrow> string \<Rightarrow> int \<Rightarrow> store_error option" where
  "checkTaskReportFence task nodeID epoch =
     (if nodeID = [] then None
      else if tAssignedNodeID task = None \<or> tAssignedNodeID task \<noteq> Some nodeID
      then Some ErrStaleTaskReport
      else if tAssignedEpoch task = None \<or> tAssignedEpoch task \<noteq> Some epoch
      then Some ErrStaleTaskReport
      else None)"

definition retryBackoff :: "int \<Rightarrow> duration" where
  "retryBackoff retriesUsed =
     (let shift = i32 (retriesUsed - 1);
          shift = (if shift < 0 then 0 else shift);
          shift = (if 5 < shift then 5 else shift)
      in 500 * 2 ^ nat shift * Millisecond)"

text \<open>\<^verbatim>\<open>Duration.String\<close> on the values \<open>retryBackoff\<close> returns: whole seconds, or below one.\<close>

definition duration_text :: "duration \<Rightarrow> string" where
  "duration_text b = (if b < Second then itoa (b div Millisecond) @ ''ms''
                      else itoa (b div Second) @ ''s'')"

definition requeue_failed_row ::
  "dbenv \<Rightarrow> int \<Rightarrow> duration \<Rightarrow> int option \<Rightarrow> string option \<Rightarrow> Task \<Rightarrow> Task" where
  "requeue_failed_row env retries backoff exitCode lastError t =
     t\<lparr>tStatus := TaskStatusPending, tRetriesUsed := retries, tExitCode := exitCode,
       tLastError := lastError, tAssignedNodeID := None, tAssignedEpoch := None,
       tScheduledAt := None, tStartedAt := None, tFinishedAt := None,
       tNextRetryAt := Some (db_now env + backoff)\<rparr>"

definition requeueFailedTask ::
  "dbenv \<Rightarrow> Task \<Rightarrow> int option \<Rightarrow> string option \<Rightarrow> db \<Rightarrow> store_error + (Task \<times> db)" where
  "requeueFailedTask env task exitCode lastError d =
     (let retries = i32 (tRetriesUsed task + 1);
          backoff = retryBackoff retries;
          row = requeue_failed_row env retries backoff exitCode lastError in
      if db_fault env ''store: requeue failed task''
      then Inl (StoreError ''store: requeue failed task'')
      else case insertEvent env ''task retry event'' EntityTypeTask (tID task)
                  EventTypeTaskRetryScheduled
                  (''task failed; retry '' @ itoa retries @ '' scheduled after ''
                     @ duration_text backoff)
                  (d\<lparr>db_tasks := update_where (\<lambda>t. tID t = tID task) row (db_tasks d)\<rparr>) of
             Inl e \<Rightarrow> Inl e
           | Inr d' \<Rightarrow> Inr (row task, d'))"

definition coalesce :: "'a option \<Rightarrow> 'a \<Rightarrow> 'a option" where
  "coalesce a b = (case a of None \<Rightarrow> Some b | Some x \<Rightarrow> Some x)"

definition running_row :: "dbenv \<Rightarrow> Task \<Rightarrow> Task" where
  "running_row env t =
     t\<lparr>tStatus := TaskStatusRunning, tStartedAt := coalesce (tStartedAt t) (db_now env),
       tNextRetryAt := None\<rparr>"

definition terminal_row ::
  "dbenv \<Rightarrow> TaskStatus \<Rightarrow> int option \<Rightarrow> string option \<Rightarrow> Task \<Rightarrow> Task" where
  "terminal_row env st exitCode lastError t =
     t\<lparr>tStatus := st, tExitCode := exitCode, tLastError := lastError,
       tFinishedAt := Some (db_now env), tStartedAt := coalesce (tStartedAt t) (db_now env),
       tNextRetryAt := None\<rparr>"

definition cannot_transition :: "TaskStatus \<Rightarrow> TaskStatus \<Rightarrow> store_error" where
  "cannot_transition a b = StoreError (''store: cannot transition task from ''
     @ TaskStatus_text a @ '' to '' @ TaskStatus_text b)"

definition report_running :: "dbenv \<Rightarrow> Task \<Rightarrow> db \<Rightarrow> store_error + (Task \<times> db)" where
  "report_running env task d =
     (if tStatus task \<noteq> TaskStatusScheduled \<and> tStatus task \<noteq> TaskStatusRunning
      then Inl (cannot_transition (tStatus task) TaskStatusRunning)
      else if db_fault env ''store: mark task running''
      then Inl (StoreError ''store: mark task running'')
      else
        (let d1 = d\<lparr>db_tasks := update_where (\<lambda>t. tID t = tID task) (running_row env)
                                  (db_tasks d)\<rparr>
         in if tStatus task = TaskStatusScheduled
            then (case insertEvent env ''task running event'' EntityTypeTask (tID task)
                         EventTypeTaskRunning ''task container started'' d1 of
                    Inl e \<Rightarrow> Inl e
                  | Inr d2 \<Rightarrow> Inr (running_row env task, d2))
            else Inr (running_row env task, d1)))"

definition mark_terminal ::
  "dbenv \<Rightarrow> UpdateTaskStatusParams \<Rightarrow> Task \<Rightarrow> string option \<Rightarrow> db \<Rightarrow> store_error + (Task \<times> db)" where
  "mark_terminal env p task lastError d =
     (if db_fault env ''store: mark task terminal''
      then Inl (StoreError ''store: mark task terminal'')
      else
        (let row = terminal_row env (uStatus p) (uExitCode p) lastError;
             eventType = (if uStatus p = TaskStatusFailed then EventTypeTaskFailed
                          else EventTypeTaskSucceeded);
             msg = ''task '' @ TaskStatus_text (uStatus p);
             msg = (case uExitCode p of None \<Rightarrow> msg
                    | Some c \<Rightarrow> msg @ '' (exit_code='' @ itoa c @ '')'')
         in case insertEvent env ''task terminal event'' EntityTypeTask (tID task) eventType msg
                   (d\<lparr>db_tasks := update_where (\<lambda>t. tID t = tID task) row (db_tasks d)\<rparr>) of
              Inl e \<Rightarrow> Inl e
            | Inr d' \<Rightarrow> Inr (row task, d')))"

definition report_terminal ::
  "dbenv \<Rightarrow> UpdateTaskStatusParams \<Rightarrow> Task \<Rightarrow> db \<Rightarrow> store_error + (Task \<times> db)" where
  "report_terminal env p task d =
     (if tStatus task \<noteq> TaskStatusScheduled \<and> tStatus task \<noteq> TaskStatusRunning
      then Inl (cannot_transition (tStatus task) (uStatus p))
      else
        (let lastError = (if uError p \<noteq> [] then Some (uError p) else None) in
         if uStatus p = TaskStatusFailed
         then
           (if db_fault env ''store: load retry_limit''
            then Inl (StoreError ''store: load retry_limit'')
            else case find (\<lambda>j. jID j = tJobID task) (db_jobs d) of
                   None \<Rightarrow> Inl (StoreError ''store: load retry_limit'')
                 | Some j \<Rightarrow>
                     if tRetriesUsed task < jRetryLimit j
                     then requeueFailedTask env task (uExitCode p) lastError d
                     else mark_terminal env p task lastError d)
         else mark_terminal env p task lastError d))"

definition UpdateTaskStatus ::
  "dbenv \<Rightarrow> UpdateTaskStatusParams \<Rightarrow> db \<Rightarrow> (store_error + Task) \<times> db" where
  "UpdateTaskStatus env params d =
     in_tx env ''store: update task status''
       (\<lambda>d. if db_fault env ''store: update task status''
            then Inl (StoreError ''store: update task status'')
            else case find (\<lambda>t. tID t = uTaskID params) (db_tasks d) of
              None \<Rightarrow> Inl ErrTaskNotFound
            | Some task \<Rightarrow>
                (case checkTaskReportFence task (uNodeID params) (uEpoch params) of
                   Some e \<Rightarrow> Inl e
                 | None \<Rightarrow>
                     if uStatus params \<in> {TaskStatusSucceeded, TaskStatusFailed}
                        \<and> tStatus task = uStatus params
                     then Inr (task, d)
                     else (case uStatus params of
                             TaskStatusRunning \<Rightarrow> report_running env task d
                           | TaskStatusSucceeded \<Rightarrow> report_terminal env params task d
                           | TaskStatusFailed \<Rightarrow> report_terminal env params task d
                           | _ \<Rightarrow> Inl (StoreError (''store: unsupported task status update ''
                                    @ quoted (TaskStatus_text (uStatus params))))))) d"

section \<open>Backoff\<close>

lemma retryBackoff_exact:
  assumes "in_i32 r" and "1 \<le> r"
  shows "retryBackoff r = 500 * 2 ^ nat (min 5 (r - 1)) * Millisecond"
proof -
  from assms have "i32 (r - 1) = r - 1"
    by (intro i32_id) (simp add: in_i32_def)
  with assms show ?thesis
    by (auto simp: retryBackoff_def Let_def min_def)
qed

lemma retryBackoff_range: "500 * Millisecond \<le> retryBackoff r \<and> retryBackoff r \<le> 16 * Second"
proof -
  define s where "s = (let s = i32 (r - 1); s = (if s < 0 then 0 else s) in if 5 < s then 5 else s)"
  have s: "nat s \<in> {0, 1, 2, 3, 4, 5}" by (auto simp: s_def Let_def)
  have "retryBackoff r = 500 * 2 ^ nat s * Millisecond"
    by (simp add: retryBackoff_def s_def Let_def)
  with s show ?thesis by (auto simp: duration_units)
qed

end
