(* ===== verification/Store_Inv.thy ===== *)
theory Store_Inv
  imports Store_Reports
begin

text \<open>
  The well-formedness of the database and its preservation. \<open>rows_ok\<close> is the invariant the
  columns of \<^verbatim>\<open>nodes\<close>, \<^verbatim>\<open>jobs\<close> and \<^verbatim>\<open>tasks\<close> keep between transactions; \<open>events_ok\<close> says that the
  audit trail is append-only with increasing ids. One lemma per kind of row change shows that
  \<open>rows_ok\<close> survives it; the repository methods are then compositions of those changes. The
  locale \<open>store_method\<close> states what every mutating method promises its callers (atomicity,
  the invariant, epochs that never go back) and derives what a sequence of calls keeps.
\<close>

section \<open>The invariant\<close>

text \<open>The columns a task has in each status; \<open>ns\<close> are the node rows.\<close>

definition assigned_ok :: "Node list \<Rightarrow> Task \<Rightarrow> bool" where
  "assigned_ok ns t \<longleftrightarrow>
     (\<exists>n \<in> set ns. \<exists>e. tAssignedNodeID t = Some (nID n) \<and> tAssignedEpoch t = Some e
        \<and> e \<le> nEpoch n) \<and> tScheduledAt t \<noteq> None"

fun status_columns_ok :: "Node list \<Rightarrow> Task \<Rightarrow> TaskStatus \<Rightarrow> bool" where
  "status_columns_ok ns t TaskStatusPending =
     (tAssignedNodeID t = None \<and> tAssignedEpoch t = None \<and> tScheduledAt t = None
      \<and> tStartedAt t = None \<and> tFinishedAt t = None)"
| "status_columns_ok ns t TaskStatusScheduled =
     (assigned_ok ns t \<and> tStartedAt t = None \<and> tFinishedAt t = None)"
| "status_columns_ok ns t TaskStatusRunning =
     (assigned_ok ns t \<and> tStartedAt t \<noteq> None \<and> tFinishedAt t = None)"
| "status_columns_ok ns t TaskStatusSucceeded =
     (assigned_ok ns t \<and> tStartedAt t \<noteq> None \<and> tFinishedAt t \<noteq> None)"
| "status_columns_ok ns t TaskStatusFailed =
     (assigned_ok ns t \<and> tStartedAt t \<noteq> None \<and> tFinishedAt t \<noteq> None)"
| "status_columns_ok ns t TaskStatusOrphaned = False"
| "status_columns_ok ns t TaskStatusCancelled = False"

definition retries_ok :: "Job list \<Rightarrow> Task \<Rightarrow> bool" where
  "retries_ok js t \<longleftrightarrow>
     (\<exists>j \<in> set js. jID j = tJobID t \<and> 0 \<le> tRetriesUsed t \<and> tRetriesUsed t \<le> max 0 (jRetryLimit j))"

definition task_ok :: "Node list \<Rightarrow> Job list \<Rightarrow> Task \<Rightarrow> bool" where
  "task_ok ns js t \<longleftrightarrow> status_columns_ok ns t (tStatus t) \<and> retries_ok js t"

definition node_ok :: "Node \<Rightarrow> bool" where
  "node_ok n \<longleftrightarrow> 0 \<le> nEpoch n \<and> in_i64 (nCPUCapacityMillicores n) \<and> in_i64 (nMemCapacityMB n)"

definition host_key :: "Node \<Rightarrow> string \<times> string" where
  "host_key n = (nHostname n, nAddress n)"

definition rows_ok :: "Node list \<Rightarrow> Job list \<Rightarrow> Task list \<Rightarrow> bool" where
  "rows_ok ns js ts \<longleftrightarrow>
     distinct (map nID ns) \<and> distinct (map host_key ns) \<and> distinct (map jID js)
     \<and> distinct (map tID ts)
     \<and> (\<forall>n \<in> set ns. node_ok n) \<and> (\<forall>j \<in> set js. job_row_ok j) \<and> (\<forall>t \<in> set ts. task_ok ns js t)"

definition events_ok :: "db \<Rightarrow> bool" where
  "events_ok d \<longleftrightarrow> sorted_wrt (<) (map eID (db_events d))
     \<and> (\<forall>e \<in> set (db_events d). eID e < db_event_seq d)"

definition db_inv :: "db \<Rightarrow> bool" where
  "db_inv d \<longleftrightarrow> rows_ok (db_nodes d) (db_jobs d) (db_tasks d) \<and> events_ok d"

text \<open>What no operation undoes: nodes stay, and their epochs never decrease.\<close>

definition epochs_le :: "Node list \<Rightarrow> Node list \<Rightarrow> bool" where
  "epochs_le ns ns' \<longleftrightarrow>
     (\<forall>n \<in> set ns. \<exists>n' \<in> set ns'. nID n' = nID n \<and> host_key n' = host_key n
        \<and> nEpoch n \<le> nEpoch n')"

section \<open>The audit trail only grows\<close>

definition events_grow :: "db \<Rightarrow> db \<Rightarrow> bool" where
  "events_grow d d' \<longleftrightarrow>
     (\<exists>evs. db_events d' = db_events d @ evs
        \<and> map eID evs = map (\<lambda>i. db_event_seq d + int i) [0..<length evs]
        \<and> db_event_seq d' = db_event_seq d + int (length evs))"

lemma events_grow_refl [simp]: "events_grow d d"
  by (simp add: events_grow_def)

lemma events_grow_same:
  "db_events d' = db_events d \<Longrightarrow> db_event_seq d' = db_event_seq d \<Longrightarrow> events_grow d d'"
  by (simp add: events_grow_def)

lemma events_grow_trans:
  assumes "events_grow a b" and "events_grow b c"
  shows "events_grow a c"
proof -
  from assms(1) obtain xs where xs: "db_events b = db_events a @ xs"
    "map eID xs = map (\<lambda>i. db_event_seq a + int i) [0..<length xs]"
    "db_event_seq b = db_event_seq a + int (length xs)" by (auto simp: events_grow_def)
  from assms(2) obtain ys where ys: "db_events c = db_events b @ ys"
    "map eID ys = map (\<lambda>i. db_event_seq b + int i) [0..<length ys]"
    "db_event_seq c = db_event_seq b + int (length ys)" by (auto simp: events_grow_def)
  have "map (\<lambda>i. db_event_seq a + int i) [0..<length xs + length ys]
      = map eID xs @ map (\<lambda>i. db_event_seq a + int i) [length xs..<length xs + length ys]"
    using xs(2) by (simp add: upt_add_eq_append [of 0, simplified])
  also have "map (\<lambda>i. db_event_seq a + int i) [length xs..<length xs + length ys] = map eID ys"
    unfolding ys(2) xs(3) by (rule nth_equalityI) auto
  finally have "map eID (xs @ ys) = map (\<lambda>i. db_event_seq a + int i) [0..<length (xs @ ys)]"
    by simp
  with xs ys show ?thesis unfolding events_grow_def by (intro exI [of _ "xs @ ys"]) simp
qed

lemma events_grow_ok:
  assumes "events_grow d d'" and "events_ok d"
  shows "events_ok d'"
proof -
  from assms(1) obtain evs where evs: "db_events d' = db_events d @ evs"
    "map eID evs = map (\<lambda>i. db_event_seq d + int i) [0..<length evs]"
    "db_event_seq d' = db_event_seq d + int (length evs)" by (auto simp: events_grow_def)
  have "set (map eID evs) = (\<lambda>i. db_event_seq d + int i) ` {0..<length evs}"
    unfolding evs(2) by simp
  then have "eID e \<in> (\<lambda>i. db_event_seq d + int i) ` {0..<length evs}" if "e \<in> set evs" for e
    using that by (metis image_eqI list.set_map)
  then have new: "\<forall>e \<in> set evs. db_event_seq d \<le> eID e \<and> eID e < db_event_seq d'"
    using evs(3) by fastforce
  have "sorted_wrt (<) (map eID evs)"
    unfolding evs(2) by (simp add: sorted_wrt_map sorted_wrt_upt)
  with assms(2) evs new show ?thesis
    by (fastforce simp: events_ok_def sorted_wrt_append)
qed

lemma insertEvent_grow: "insertEvent env w ety eid evt msg d = Inr d' \<Longrightarrow> events_grow d d'"
  by (auto simp: insertEvent_Inr events_grow_def)

section \<open>Row changes that keep the invariant\<close>

lemma epochs_le_refl [simp]: "epochs_le ns ns"
  by (auto simp: epochs_le_def)

lemma epochs_le_trans: "epochs_le a b \<Longrightarrow> epochs_le b c \<Longrightarrow> epochs_le a c"
  unfolding epochs_le_def by (metis order_trans)

lemma epochs_le_append: "epochs_le ns (ns @ ms)"
  by (auto simp: epochs_le_def)

text \<open>A change of node rows that keeps their keys and never lowers an epoch.\<close>

definition node_change :: "(Node \<Rightarrow> Node) \<Rightarrow> bool" where
  "node_change f \<longleftrightarrow>
     (\<forall>n. nID (f n) = nID n \<and> host_key (f n) = host_key n \<and> nEpoch n \<le> nEpoch (f n))"

lemma epochs_le_update: "node_change f \<Longrightarrow> epochs_le ns (update_where P f ns)"
  by (auto simp: epochs_le_def node_change_def set_update_where)

lemma assigned_ok_mono: "epochs_le ns ns' \<Longrightarrow> assigned_ok ns t \<Longrightarrow> assigned_ok ns' t"
  unfolding epochs_le_def assigned_ok_def by (metis order_trans)

lemma status_columns_mono:
  "epochs_le ns ns' \<Longrightarrow> status_columns_ok ns t st \<Longrightarrow> status_columns_ok ns' t st"
  by (cases st) (auto intro: assigned_ok_mono)

lemma task_ok_mono:
  "epochs_le ns ns' \<Longrightarrow> set js \<subseteq> set js' \<Longrightarrow> task_ok ns js t \<Longrightarrow> task_ok ns' js' t"
  unfolding task_ok_def retries_ok_def by (blast intro: status_columns_mono)

lemma rows_ok_update_nodes:
  assumes "rows_ok ns js ts" and "node_change f" and "\<And>n. node_ok n \<Longrightarrow> node_ok (f n)"
  shows "rows_ok (update_where P f ns) js ts"
proof -
  have "map nID (update_where P f ns) = map nID ns"
    and "map host_key (update_where P f ns) = map host_key ns"
    using assms(2) by (auto simp: node_change_def intro: map_update_where_key)
  with assms show ?thesis
    using task_ok_mono [OF epochs_le_update [OF assms(2)], of js js]
    by (auto simp: rows_ok_def set_update_where)
qed

lemma rows_ok_add_node:
  assumes "rows_ok ns js ts" and "node_ok n" and "nID n \<notin> nID ` set ns"
    and "host_key n \<notin> host_key ` set ns"
  shows "rows_ok (ns @ [n]) js ts"
  using assms task_ok_mono [OF epochs_le_append [of ns "[n]"], of js js]
  by (auto simp: rows_ok_def)

lemma rows_ok_add_job:
  assumes "rows_ok ns js ts" and "job_row_ok j" and "jID j \<notin> jID ` set js"
  shows "rows_ok ns (js @ [j]) ts"
proof -
  have "task_ok ns (js @ [j]) t" if "task_ok ns js t" for t
    using that by (rule task_ok_mono [OF epochs_le_refl, rotated]) auto
  with assms show ?thesis by (auto simp: rows_ok_def)
qed

lemma rows_ok_add_task:
  assumes "rows_ok ns js ts" and "task_ok ns js t" and "tID t \<notin> tID ` set ts"
  shows "rows_ok ns js (ts @ [t])"
  using assms by (auto simp: rows_ok_def)

lemma rows_ok_update_tasks:
  assumes "rows_ok ns js ts" and "\<And>t. P t \<Longrightarrow> tID (f t) = tID t"
    and "\<And>t. t \<in> set ts \<Longrightarrow> P t \<Longrightarrow> task_ok ns js t \<Longrightarrow> task_ok ns js (f t)"
  shows "rows_ok ns js (update_where P f ts)"
proof -
  have "map tID (update_where P f ts) = map tID ts"
    using assms(2) by (rule map_update_where_key)
  with assms show ?thesis by (auto simp: rows_ok_def set_update_where)
qed

lemma rows_ok_find_task:
  "rows_ok ns js ts \<Longrightarrow> find (\<lambda>t. tID t = k) ts = Some t \<longleftrightarrow> t \<in> set ts \<and> tID t = k"
  by (rule find_key_iff) (simp add: rows_ok_def)

lemma rows_ok_find_node:
  "rows_ok ns js ts \<Longrightarrow> find (\<lambda>n. nID n = k) ns = Some n \<longleftrightarrow> n \<in> set ns \<and> nID n = k"
  by (rule find_key_iff) (simp add: rows_ok_def)

lemma rows_ok_find_job:
  "rows_ok ns js ts \<Longrightarrow> find (\<lambda>j. jID j = k) js = Some j \<longleftrightarrow> j \<in> set js \<and> jID j = k"
  by (rule find_key_iff) (simp add: rows_ok_def)

lemma rows_ok_taskD: "rows_ok ns js ts \<Longrightarrow> t \<in> set ts \<Longrightarrow> task_ok ns js t"
  by (simp add: rows_ok_def)

lemma rows_ok_task_unique:
  "rows_ok ns js ts \<Longrightarrow> t \<in> set ts \<Longrightarrow> u \<in> set ts \<Longrightarrow> tID t = tID u \<Longrightarrow> t = u"
  by (auto simp: rows_ok_def distinct_map dest: inj_onD)

lemma rows_ok_node_unique:
  "rows_ok ns js ts \<Longrightarrow> m \<in> set ns \<Longrightarrow> n \<in> set ns \<Longrightarrow> nID m = nID n \<Longrightarrow> m = n"
  by (auto simp: rows_ok_def distinct_map dest: inj_onD)

lemma rows_ok_job_unique:
  "rows_ok ns js ts \<Longrightarrow> i \<in> set js \<Longrightarrow> j \<in> set js \<Longrightarrow> jID i = jID j \<Longrightarrow> i = j"
  by (auto simp: rows_ok_def distinct_map dest: inj_onD)

end
