(* ===== verification/Store_Contract.thy ===== *)
theory Store_Contract
  imports Store_Inv
begin

text \<open>
  The contract of the mutating methods of \<^verbatim>\<open>src/internal/store\<close>, as a locale: a call that returns
  an error changed nothing; a call that succeeds keeps \<open>db_inv\<close>, never lowers a node's epoch and
  only appends to the audit trail. The methods of \<^verbatim>\<open>nodes.go\<close> and \<^verbatim>\<open>jobs_tasks.go\<close> interpret it; for
  each of them an effect lemma gives the rows a successful call leaves behind.
\<close>

section \<open>The contract\<close>

locale store_method =
  fixes meth :: "dbenv \<Rightarrow> 'p \<Rightarrow> db \<Rightarrow> (store_error + 'r) \<times> db"
  assumes atomic: "meth env p d = (Inl e, d') \<Longrightarrow> d' = d"
    and keeps_inv: "meth env p d = (Inr r, d') \<Longrightarrow> db_inv d \<Longrightarrow> db_inv d'"
    and keeps_epochs: "meth env p d = (Inr r, d') \<Longrightarrow> db_inv d
      \<Longrightarrow> epochs_le (db_nodes d) (db_nodes d')"
    and keeps_audit: "meth env p d = (Inr r, d') \<Longrightarrow> events_grow d d'"
begin

lemma call_inv: "db_inv d \<Longrightarrow> db_inv (snd (meth env p d))"
  by (cases "meth env p d"; cases "fst (meth env p d)") (auto dest: atomic intro: keeps_inv)

lemma call_epochs: "db_inv d \<Longrightarrow> epochs_le (db_nodes d) (db_nodes (snd (meth env p d)))"
  by (cases "meth env p d"; cases "fst (meth env p d)") (auto dest: atomic intro: keeps_epochs)

lemma call_audit: "events_grow d (snd (meth env p d))"
  by (cases "meth env p d"; cases "fst (meth env p d)") (auto dest: atomic intro: keeps_audit)

text \<open>Any sequence of calls, failing or not, keeps all three.\<close>

lemma calls_keep:
  assumes "db_inv d"
  shows "db_inv (fold (\<lambda>(env, p) d. snd (meth env p d)) calls d)
    \<and> epochs_le (db_nodes d) (db_nodes (fold (\<lambda>(env, p) d. snd (meth env p d)) calls d))
    \<and> events_grow d (fold (\<lambda>(env, p) d. snd (meth env p d)) calls d)"
  using assms
proof (induction calls arbitrary: d)
  case Nil
  then show ?case by simp
next
  case (Cons c calls)
  obtain env p where c: "c = (env, p)" by (cases c)
  from Cons.prems have "db_inv (snd (meth env p d))" by (rule call_inv)
  note IH = Cons.IH [OF this]
  show ?case
    using IH epochs_le_trans [OF call_epochs [OF Cons.prems, of env p]]
      events_grow_trans [OF call_audit [of d env p]]
    by (simp add: c)
qed

end

lemma db_inv_rows: "db_inv d \<Longrightarrow> rows_ok (db_nodes d) (db_jobs d) (db_tasks d)"
  by (simp add: db_inv_def)

lemma db_invI:
  "db_inv d \<Longrightarrow> events_grow d d' \<Longrightarrow> rows_ok (db_nodes d') (db_jobs d') (db_tasks d') \<Longrightarrow> db_inv d'"
  by (auto simp: db_inv_def intro: events_grow_ok)

lemma events_grow_cong:
  "db_events a = db_events b \<Longrightarrow> db_event_seq a = db_event_seq b \<Longrightarrow>
     events_grow a d = events_grow b d"
  by (simp add: events_grow_def)

text \<open>A statement that changes rows, followed by its audit event.\<close>

lemma insertEvent_after:
  assumes "insertEvent env w ety eid evt msg d1 = Inr d'"
    and "db_events d1 = db_events d" and "db_event_seq d1 = db_event_seq d"
  shows "events_grow d d'" "db_nodes d' = db_nodes d1" "db_jobs d' = db_jobs d1"
    "db_tasks d' = db_tasks d1" "db_lease d' = db_lease d1"
  using insertEvent_grow [OF assms(1)] insertEvent_frame [OF assms(1)] assms(2,3)
  by (simp_all cong: events_grow_cong)

section \<open>Registration\<close>

lemma RegisterNode_effect:
  assumes "RegisterNode env p d = (Inr n, d')"
  shows "events_grow d d'" "db_jobs d' = db_jobs d" "db_tasks d' = db_tasks d"
    "db_lease d' = db_lease d"
    "in_i64 (rCPUCapacityMillicores p)" "in_i64 (rMemCapacityMB p)"
    "(find (same_host p) (db_nodes d) = None \<and> nID n \<notin> nID ` set (db_nodes d)
        \<and> n = new_node env p (case rLabels p of None \<Rightarrow> [] | Some m \<Rightarrow> m)
        \<and> db_nodes d' = db_nodes d @ [n])
     \<or> (\<exists>n0. find (same_host p) (db_nodes d) = Some n0
        \<and> n = reregister_node env p (case rLabels p of None \<Rightarrow> [] | Some m \<Rightarrow> m) n0
        \<and> db_nodes d' = update_where (same_host p)
              (reregister_node env p (case rLabels p of None \<Rightarrow> [] | Some m \<Rightarrow> m)) (db_nodes d))"
proof -
  define labels where "labels = (case rLabels p of None \<Rightarrow> [] | Some m \<Rightarrow> m)"
  from assms obtain d1 where u: "upsert_node env p labels d = Inr (n, d1)"
    and ev: "\<exists>msg. insertEvent env ''store: register node: insert event'' EntityTypeNode (nID n)
               EventTypeNodeRegistered msg d1 = Inr d'"
    unfolding RegisterNode_def Let_def labels_def [symmetric]
    by (auto simp: in_tx_Inr split: sum.splits prod.splits)
  from u have d1: "db_events d1 = db_events d" "db_event_seq d1 = db_event_seq d"
    "db_jobs d1 = db_jobs d" "db_tasks d1 = db_tasks d" "db_lease d1 = db_lease d"
    by (auto simp: upsert_node_def split: if_splits option.splits)
  from ev d1 show "events_grow d d'" "db_jobs d' = db_jobs d" "db_tasks d' = db_tasks d"
    "db_lease d' = db_lease d"
    using insertEvent_after by fastforce+
  from ev d1 have nodes: "db_nodes d' = db_nodes d1" using insertEvent_after(2) by blast
  from u show "in_i64 (rCPUCapacityMillicores p)" "in_i64 (rMemCapacityMB p)"
    by (auto simp: upsert_node_def split: if_splits option.splits)
  from u nodes show "(find (same_host p) (db_nodes d) = None \<and> nID n \<notin> nID ` set (db_nodes d)
        \<and> n = new_node env p (case rLabels p of None \<Rightarrow> [] | Some m \<Rightarrow> m)
        \<and> db_nodes d' = db_nodes d @ [n])
     \<or> (\<exists>n0. find (same_host p) (db_nodes d) = Some n0
        \<and> n = reregister_node env p (case rLabels p of None \<Rightarrow> [] | Some m \<Rightarrow> m) n0
        \<and> db_nodes d' = update_where (same_host p)
              (reregister_node env p (case rLabels p of None \<Rightarrow> [] | Some m \<Rightarrow> m)) (db_nodes d))"
    unfolding labels_def [symmetric]
    by (auto simp: upsert_node_def new_node_def split: if_splits option.splits)
qed

lemma node_change_reregister [simp, intro]: "node_change (reregister_node env p labels)"
  by (simp add: node_change_def reregister_node_def host_key_def)

lemma host_key_same_host: "same_host p n \<longleftrightarrow> host_key n = (rHostname p, rAddress p)"
  by (auto simp: same_host_def host_key_def)

interpretation register: store_method RegisterNode
proof
  fix env p d e d'
  assume "RegisterNode env p d = (Inl e, d')"
  then show "d' = d" unfolding RegisterNode_def Let_def by (rule in_tx_Inl)
next
  fix env p d r d'
  assume reg: "RegisterNode env p d = (Inr r, d')" and inv: "db_inv d"
  note eff = RegisterNode_effect [OF reg]
  show "epochs_le (db_nodes d) (db_nodes d')"
    using eff(7) by (elim disjE conjE exE) (simp_all add: epochs_le_append epochs_le_update)
  have "rows_ok (db_nodes d') (db_jobs d) (db_tasks d)"
    using eff(7)
  proof (elim disjE conjE exE)
    assume n: "find (same_host p) (db_nodes d) = None" "nID r \<notin> nID ` set (db_nodes d)"
      "r = new_node env p (case rLabels p of None \<Rightarrow> [] | Some m \<Rightarrow> m)"
      "db_nodes d' = db_nodes d @ [r]"
    have "host_key r \<notin> host_key ` set (db_nodes d)"
      using n(1,3) by (auto simp: find_None_iff host_key_same_host new_node_def host_key_def)
    with n eff(5,6) show ?thesis
      by (auto intro!: rows_ok_add_node db_inv_rows inv simp: node_ok_def new_node_def)
  next
    fix n0
    assume "db_nodes d' = update_where (same_host p)
              (reregister_node env p (case rLabels p of None \<Rightarrow> [] | Some m \<Rightarrow> m)) (db_nodes d)"
    with eff(5,6) show ?thesis
      by (auto intro!: rows_ok_update_nodes db_inv_rows inv
               simp: node_ok_def reregister_node_def)
  qed
  with eff inv show "db_inv d'" by (auto intro: db_invI)
next
  fix env p d r d'
  assume "RegisterNode env p d = (Inr r, d')"
  then show "events_grow d d'" by (rule RegisterNode_effect)
qed

section \<open>Status changes and death of a node\<close>

lemma UpdateNodeStatus_effect:
  assumes "UpdateNodeStatus env nid st evt msg d = (Inr r, d')"
  shows "events_grow d d'" "db_jobs d' = db_jobs d" "db_tasks d' = db_tasks d"
    "db_lease d' = db_lease d"
    "db_nodes d' = update_where (\<lambda>n. nID n = nid) (\<lambda>n. n\<lparr>nStatus := st\<rparr>) (db_nodes d)"
    "\<exists>n. find (\<lambda>n. nID n = nid) (db_nodes d) = Some n \<and> r = n\<lparr>nStatus := st\<rparr>"
proof -
  from assms obtain n d1 where n: "find (\<lambda>n. nID n = nid) (db_nodes d) = Some n"
    "r = n\<lparr>nStatus := st\<rparr>"
    and d1: "d1 = d\<lparr>db_nodes := update_where (\<lambda>n. nID n = nid) (\<lambda>n. n\<lparr>nStatus := st\<rparr>)
                                (db_nodes d)\<rparr>"
    and ev: "insertEvent env ''store: update node status: insert event'' EntityTypeNode
               (nID r) evt msg d1 = Inr d'"
    unfolding UpdateNodeStatus_def
    by (auto simp: in_tx_Inr Let_def split: sum.splits option.splits if_splits)
  from d1 have "db_events d1 = db_events d" "db_event_seq d1 = db_event_seq d" by simp_all
  note ins = insertEvent_after [OF ev this]
  from ins d1 n show "events_grow d d'" "db_jobs d' = db_jobs d" "db_tasks d' = db_tasks d"
    "db_lease d' = db_lease d"
    "db_nodes d' = update_where (\<lambda>n. nID n = nid) (\<lambda>n. n\<lparr>nStatus := st\<rparr>) (db_nodes d)"
    "\<exists>n. find (\<lambda>n. nID n = nid) (db_nodes d) = Some n \<and> r = n\<lparr>nStatus := st\<rparr>"
    by simp_all
qed

lemma node_change_status [simp, intro]: "node_change (\<lambda>n. n\<lparr>nStatus := st\<rparr>)"
  by (simp add: node_change_def host_key_def)

lemma node_change_bump [simp, intro]: "node_change bump_dead"
  by (simp add: node_change_def host_key_def bump_dead_def)

lemma UpdateNodeStatus_error: "UpdateNodeStatus env nid st evt msg d = (Inl e, d') \<Longrightarrow> d' = d"
  unfolding UpdateNodeStatus_def by (rule in_tx_Inl)

interpretation nodestatus: store_method
  "\<lambda>env (nid, st, evt, msg). UpdateNodeStatus env nid st evt msg"
proof (unfold_locales, goal_cases)
  case (1 env p d e d')
  then show ?case by (auto dest: UpdateNodeStatus_error split: prod.splits)
next
  case (2 env p d r d')
  obtain nid st evt msg where p: "p = (nid, st, evt, msg)" by (metis prod_cases4)
  with 2 have up: "UpdateNodeStatus env nid st evt msg d = (Inr r, d')" by simp
  have "rows_ok (update_where (\<lambda>n. nID n = nid) (\<lambda>n. n\<lparr>nStatus := st\<rparr>) (db_nodes d))
          (db_jobs d) (db_tasks d)"
    by (rule rows_ok_update_nodes [OF db_inv_rows [OF 2(2)]]) (auto simp: node_ok_def)
  with UpdateNodeStatus_effect [OF up] 2(2) show ?case by (auto intro: db_invI)
next
  case (3 env p d r d')
  then show ?case
    by (auto dest!: UpdateNodeStatus_effect(5) split: prod.splits simp: epochs_le_update)
next
  case (4 env p d r d')
  then show ?case by (auto dest: UpdateNodeStatus_effect(1) split: prod.splits)
qed

lemma requeue_orphan_id [simp]: "tID (requeue_orphan t) = tID t"
  by (simp add: requeue_orphan_def)

lemma requeue_orphan_idem [simp]: "requeue_orphan (requeue_orphan t) = requeue_orphan t"
  by (simp add: requeue_orphan_def)

lemma requeue_loop_effect:
  "requeue_loop env nid ids d = Inr d' \<Longrightarrow>
     db_tasks d' = update_where (\<lambda>t. tID t \<in> set ids) requeue_orphan (db_tasks d)
     \<and> db_nodes d' = db_nodes d \<and> db_jobs d' = db_jobs d \<and> db_lease d' = db_lease d
     \<and> db_event_seq d' = db_event_seq d + 2 * int (length ids) \<and> events_grow d d'"
proof (induction ids arbitrary: d)
  case Nil
  then show ?case by (simp add: update_where_cong_set)
next
  case (Cons tid ids)
  let ?f = "\<lambda>d. d\<lparr>db_tasks := update_where (\<lambda>t. tID t = tid) requeue_orphan (db_tasks d)\<rparr>"
  from Cons.prems obtain d1 d3 where
    a: "insertEvent env ''task orphaned event'' EntityTypeTask tid EventTypeTaskOrphaned
          (''orphaned: assigned node '' @ nid @ '' marked dead'') d = Inr d1"
    and b: "insertEvent env ''task requeued event'' EntityTypeTask tid EventTypeTaskRequeued
          ''requeued as pending for reassignment'' (?f d1) = Inr d3"
    and c: "requeue_loop env nid ids d3 = Inr d'"
    by (auto simp: Let_def split: sum.splits if_splits)
  note IH = Cons.IH [OF c] and A = insertEvent_after [OF a refl refl]
    and B = insertEvent_after [OF b, of d1, simplified]
  have "update_where (\<lambda>t. tID t \<in> set ids) requeue_orphan
          (update_where (\<lambda>t. tID t = tid) requeue_orphan ts)
      = update_where (\<lambda>t. tID t \<in> set (tid # ids)) requeue_orphan ts" for ts
    by (induction ts) auto
  moreover have "db_event_seq d3 = db_event_seq d + 2"
    using insertEvent_frame(5) [OF a] insertEvent_frame(5) [OF b] by simp
  ultimately show ?case using IH A B by (auto intro: events_grow_trans)
qed

lemma orphanAndRequeueTasksTx_effect:
  assumes "orphanAndRequeueTasksTx env nid d = Inr (ids, d')"
  shows "ids = map tID (filter (occupies nid) (db_tasks d))"
    "db_tasks d' = update_where (\<lambda>t. tID t \<in> set ids) requeue_orphan (db_tasks d)"
    "db_nodes d' = db_nodes d" "db_jobs d' = db_jobs d" "db_lease d' = db_lease d"
    "db_event_seq d' = db_event_seq d + 2 * int (length ids)" "events_grow d d'"
  using assms
  by (auto simp: orphanAndRequeueTasksTx_def Let_def update_where_cong_set
           split: if_splits sum.splits dest!: requeue_loop_effect)

lemma MarkNodeDead_effect:
  assumes "MarkNodeDead env nid d = (Inr r, d')"
  shows "mOrphanedTaskIDs r = map tID (filter (occupies nid) (db_tasks d))"
    "db_tasks d' = update_where (\<lambda>t. tID t \<in> set (mOrphanedTaskIDs r)) requeue_orphan (db_tasks d)"
    "db_nodes d' = update_where (\<lambda>n. nID n = nid) bump_dead (db_nodes d)"
    "db_jobs d' = db_jobs d" "db_lease d' = db_lease d"
    "db_event_seq d' = db_event_seq d + 1 + 2 * int (length (mOrphanedTaskIDs r))"
    "events_grow d d'"
    "\<exists>n. find (\<lambda>n. nID n = nid) (db_nodes d) = Some n \<and> mNode r = bump_dead n"
proof -
  define d1 where
    "d1 = d\<lparr>db_nodes := update_where (\<lambda>n. nID n = nid) bump_dead (db_nodes d)\<rparr>"
  from assms obtain n ids d2 msg where n: "find (\<lambda>n. nID n = nid) (db_nodes d) = Some n"
    and r: "r = \<lparr>mNode = bump_dead n, mOrphanedTaskIDs = ids\<rparr>"
    and ev: "insertEvent env ''store: mark node dead: insert event'' EntityTypeNode
               (nID (bump_dead n)) EventTypeNodeDead msg d1 = Inr d2"
    and o: "orphanAndRequeueTasksTx env nid d2 = Inr (ids, d')"
    unfolding MarkNodeDead_def d1_def
    by (auto simp: in_tx_Inr Let_def split: sum.splits option.splits if_splits)
  have "db_events d1 = db_events d" "db_event_seq d1 = db_event_seq d"
    "db_tasks d1 = db_tasks d" "db_jobs d1 = db_jobs d" "db_lease d1 = db_lease d"
    by (simp_all add: d1_def)
  note ins = insertEvent_after [OF ev this(1,2)] insertEvent_frame(5) [OF ev] this
  note orph = orphanAndRequeueTasksTx_effect [OF o]
  from ins orph r n show "mOrphanedTaskIDs r = map tID (filter (occupies nid) (db_tasks d))"
    "db_tasks d' = update_where (\<lambda>t. tID t \<in> set (mOrphanedTaskIDs r)) requeue_orphan (db_tasks d)"
    "db_nodes d' = update_where (\<lambda>n. nID n = nid) bump_dead (db_nodes d)"
    "db_jobs d' = db_jobs d" "db_lease d' = db_lease d"
    "db_event_seq d' = db_event_seq d + 1 + 2 * int (length (mOrphanedTaskIDs r))"
    "\<exists>n. find (\<lambda>n. nID n = nid) (db_nodes d) = Some n \<and> mNode r = bump_dead n"
    by (simp_all add: d1_def)
  from ins(1) orph(7) show "events_grow d d'" by (rule events_grow_trans)
qed

text \<open>On a well-formed database the requeued rows are exactly those that occupied the node.\<close>

lemma MarkNodeDead_tasks:
  assumes "MarkNodeDead env nid d = (Inr r, d')" and "db_inv d"
  shows "db_tasks d' = update_where (occupies nid) requeue_orphan (db_tasks d)"
proof -
  have "tID t \<in> tID ` set (filter (occupies nid) (db_tasks d)) \<longleftrightarrow> occupies nid t"
    if "t \<in> set (db_tasks d)" for t
    using that rows_ok_task_unique [OF db_inv_rows [OF assms(2)]] by auto
  then show ?thesis
    unfolding MarkNodeDead_effect(2) [OF assms(1)] MarkNodeDead_effect(1) [OF assms(1)]
    by (auto simp: update_where_def)
qed

lemma task_ok_requeue_orphan: "task_ok ns js t \<Longrightarrow> task_ok ns js (requeue_orphan t)"
  by (auto simp: task_ok_def retries_ok_def requeue_orphan_def)

lemma MarkNodeDead_error: "MarkNodeDead env nid d = (Inl e, d') \<Longrightarrow> d' = d"
  unfolding MarkNodeDead_def by (rule in_tx_Inl)

interpretation markdead: store_method MarkNodeDead
proof (unfold_locales, goal_cases)
  case (1 env p d e d')
  then show ?case by (rule MarkNodeDead_error)
next
  case (2 env nid d r d')
  have "rows_ok (update_where (\<lambda>n. nID n = nid) bump_dead (db_nodes d)) (db_jobs d) (db_tasks d)"
    by (rule rows_ok_update_nodes [OF db_inv_rows [OF 2(2)]]) (auto simp: node_ok_def bump_dead_def)
  then have "rows_ok (db_nodes d') (db_jobs d') (db_tasks d')"
    unfolding MarkNodeDead_effect(2-4) [OF 2(1)]
    by (rule rows_ok_update_tasks) (auto intro: task_ok_requeue_orphan)
  with 2 show ?case by (auto intro: db_invI MarkNodeDead_effect(7))
next
  case (3 env nid d r d')
  then show ?case by (simp add: MarkNodeDead_effect(3) epochs_le_update)
next
  case (4 env nid d r d')
  then show ?case by (rule MarkNodeDead_effect)
qed

section \<open>Creation of a job\<close>

lemma insert_tasks_effect:
  "insert_tasks env jid i n d = Inr d' \<Longrightarrow>
     db_tasks d' = db_tasks d @ map (new_task env jid) [i..<i + n]
     \<and> distinct (map (\<lambda>k. db_uuid env (Suc k)) [i..<i + n])
     \<and> (\<forall>k \<in> {i..<i + n}. db_uuid env (Suc k) \<notin> tID ` set (db_tasks d))
     \<and> db_nodes d' = db_nodes d \<and> db_jobs d' = db_jobs d \<and> db_lease d' = db_lease d
     \<and> db_events d' = db_events d \<and> db_event_seq d' = db_event_seq d"
proof (induction n arbitrary: i d)
  case 0
  then show ?case by simp
next
  case (Suc n)
  let ?d = "d\<lparr>db_tasks := db_tasks d @ [new_task env jid i]\<rparr>"
  from Suc.prems have fresh: "db_uuid env (Suc i) \<notin> tID ` set (db_tasks d)"
    and rec: "insert_tasks env jid (Suc i) n ?d = Inr d'"
    by (auto split: if_splits)
  have tid: "tID (new_task env jid i) = db_uuid env (Suc i)" by (simp add: new_task_def)
  note IH = Suc.IH [OF rec]
  have "\<forall>k \<in> {Suc i..<Suc i + n}. db_uuid env (Suc k) \<noteq> db_uuid env (Suc i)
          \<and> db_uuid env (Suc k) \<notin> tID ` set (db_tasks d)"
    using IH tid by auto
  moreover have upt: "[i..<i + Suc n] = i # [Suc i..<Suc i + n]"
    by (simp add: upt_conv_Cons del: upt_Suc)
  moreover have "{i..<i + Suc n} = insert i {Suc i..<Suc i + n}" by auto
  ultimately show ?case using IH fresh
    by (simp del: upt_Suc add_Suc add_Suc_right) force
qed

definition effective_params :: "CreateJobParams \<Rightarrow> CreateJobParams" where
  "effective_params p = (if cSchedulingPolicy p = []
     then p\<lparr>cSchedulingPolicy := SchedulingPolicyBinPack\<rparr> else p)"

lemma CreateJob_effect:
  assumes "CreateJob env p d = (Inr j, d')"
  shows "j = new_job env (effective_params p)" "job_row_ok j" "jID j \<notin> jID ` set (db_jobs d)"
    "db_jobs d' = db_jobs d @ [j]"
    "db_tasks d' = db_tasks d @ map (new_task env (jID j)) [0..<nat (cReplicas p)]"
    "distinct (map tID (map (new_task env (jID j)) [0..<nat (cReplicas p)]))"
    "\<forall>t \<in> set (map (new_task env (jID j)) [0..<nat (cReplicas p)]). tID t \<notin> tID ` set (db_tasks d)"
    "db_nodes d' = db_nodes d" "db_lease d' = db_lease d" "events_grow d d'"
    "1 \<le> cReplicas p"
proof -
  define q where "q = effective_params p"
  have reps: "cReplicas q = cReplicas p" by (simp add: q_def effective_params_def)
  from assms obtain d1 msg where pos: "1 \<le> cReplicas p"
    and j: "j = new_job env q" "job_row_ok j" "jID j \<notin> jID ` set (db_jobs d)"
    and ins: "insert_tasks env (jID j) 0 (nat (cReplicas q)) (d\<lparr>db_jobs := db_jobs d @ [j]\<rparr>) = Inr d1"
    and ev: "insertEvent env ''store: create job: insert event'' EntityTypeJob (jID j)
               EventTypeJobSubmitted msg d1 = Inr d'"
    unfolding CreateJob_def Let_def effective_params_def [symmetric] q_def [symmetric]
    by (auto simp: in_tx_Inr split: sum.splits if_splits)
  note I = insert_tasks_effect [OF ins, simplified]
  then have "db_events d1 = db_events d" "db_event_seq d1 = db_event_seq d" by simp_all
  note E = insertEvent_after [OF ev this]
  have tid: "tID (new_task env jid k) = db_uuid env (Suc k)" for jid k by (simp add: new_task_def)
  from I E j pos show "j = new_job env (effective_params p)" "job_row_ok j"
    "jID j \<notin> jID ` set (db_jobs d)" "db_jobs d' = db_jobs d @ [j]"
    "db_tasks d' = db_tasks d @ map (new_task env (jID j)) [0..<nat (cReplicas p)]"
    "distinct (map tID (map (new_task env (jID j)) [0..<nat (cReplicas p)]))"
    "\<forall>t \<in> set (map (new_task env (jID j)) [0..<nat (cReplicas p)]). tID t \<notin> tID ` set (db_tasks d)"
    "db_nodes d' = db_nodes d" "db_lease d' = db_lease d" "events_grow d d'" "1 \<le> cReplicas p"
    by (simp_all add: q_def [symmetric] reps tid comp_def)
qed

lemma task_ok_new:
  "j \<in> set js \<Longrightarrow> task_ok ns js (new_task env (jID j) k)"
  by (auto simp: task_ok_def new_task_def retries_ok_def)

lemma rows_ok_add_tasks:
  assumes "rows_ok ns js ts" and "\<And>t. t \<in> set us \<Longrightarrow> task_ok ns js t" and "distinct (map tID us)"
    and "\<forall>t \<in> set us. tID t \<notin> tID ` set ts"
  shows "rows_ok ns js (ts @ us)"
proof -
  from assms(4) have "x \<notin> tID ` set ts" if "x \<in> tID ` set us" for x
    using that by (elim imageE) simp
  then have "tID ` set ts \<inter> tID ` set us = {}" by blast
  with assms(1,3) have "distinct (map tID (ts @ us))" by (simp add: rows_ok_def)
  with assms(1,2) show ?thesis unfolding rows_ok_def by (simp add: ball_Un)
qed

lemma CreateJob_error: "CreateJob env p d = (Inl e, d') \<Longrightarrow> d' = d"
  unfolding CreateJob_def Let_def by (auto split: if_splits dest: in_tx_Inl)

interpretation createjob: store_method CreateJob
proof (unfold_locales, goal_cases)
  case (1 env p d e d')
  then show ?case by (rule CreateJob_error)
next
  case (2 env p d j d')
  note eff = CreateJob_effect [OF 2(1)]
  have "rows_ok (db_nodes d) (db_jobs d @ [j]) (db_tasks d)"
    by (rule rows_ok_add_job [OF db_inv_rows [OF 2(2)] eff(2,3)])
  then have "rows_ok (db_nodes d') (db_jobs d') (db_tasks d')"
    unfolding eff(4,5,8)
    by (rule rows_ok_add_tasks) (use eff(6,7) in \<open>auto intro: task_ok_new\<close>)
  with 2(2) eff(10) show ?case by (rule db_invI)
next
  case (3 env p d j d')
  then show ?case by (simp add: CreateJob_effect(8))
next
  case (4 env p d j d')
  then show ?case by (rule CreateJob_effect)
qed

section \<open>Status reports\<close>

text \<open>
  The transition table of \<open>UpdateTaskStatus\<close>, as a function of the row alone: the row a report
  leaves behind, \<open>None\<close> when the report is refused. \<open>limit\<close> is the job's retry limit.
\<close>

definition report_table :: "dbenv \<Rightarrow> int \<Rightarrow> UpdateTaskStatusParams \<Rightarrow> Task \<Rightarrow> Task option" where
  "report_table env limit p t =
     (let lastError = (if uError p = [] then None else Some (uError p)) in
      if uStatus p \<in> {TaskStatusSucceeded, TaskStatusFailed} \<and> tStatus t = uStatus p then Some t
      else if tStatus t \<notin> {TaskStatusScheduled, TaskStatusRunning} then None
      else case uStatus p of
             TaskStatusRunning \<Rightarrow> Some (running_row env t)
           | TaskStatusSucceeded \<Rightarrow> Some (terminal_row env TaskStatusSucceeded (uExitCode p) lastError t)
           | TaskStatusFailed \<Rightarrow>
               if tRetriesUsed t < limit
               then Some (requeue_failed_row env (i32 (tRetriesUsed t + 1))
                            (retryBackoff (i32 (tRetriesUsed t + 1))) (uExitCode p) lastError t)
               else Some (terminal_row env TaskStatusFailed (uExitCode p) lastError t)
           | _ \<Rightarrow> None)"

definition job_limit :: "db \<Rightarrow> Task \<Rightarrow> int option" where
  "job_limit d t = map_option jRetryLimit (find (\<lambda>j. jID j = tJobID t) (db_jobs d))"

lemma row_ids [row_simps]:
  "tID (running_row env t) = tID t" "tID (terminal_row env st c e t) = tID t"
  "tID (requeue_failed_row env k b c e t) = tID t" "tID (assign_task env nid ep t) = tID t"
  by (simp_all add: running_row_def terminal_row_def requeue_failed_row_def assign_task_def)

text \<open>What the body of the transaction computes once the row is found and the fence passed.\<close>

definition report_body ::
  "dbenv \<Rightarrow> UpdateTaskStatusParams \<Rightarrow> Task \<Rightarrow> db \<Rightarrow> store_error + (Task \<times> db)" where
  "report_body env p task d =
     (case uStatus p of
        TaskStatusRunning \<Rightarrow> report_running env task d
      | TaskStatusSucceeded \<Rightarrow> report_terminal env p task d
      | TaskStatusFailed \<Rightarrow> report_terminal env p task d
      | _ \<Rightarrow> Inl (StoreError (''store: unsupported task status update ''
                                @ quoted (TaskStatus_text (uStatus p)))))"

text \<open>\<open>row_write f\<close>: the outcome is the update of the task's row by \<open>f\<close> and audit events.\<close>

definition row_write :: "(Task \<Rightarrow> Task) \<Rightarrow> Task \<Rightarrow> db \<Rightarrow> Task \<Rightarrow> db \<Rightarrow> bool" where
  "row_write f task d r d' \<longleftrightarrow>
     (\<forall>t. tID (f t) = tID t) \<and> r = f task
     \<and> db_tasks d' = update_where (\<lambda>t. tID t = tID task) f (db_tasks d)
     \<and> db_nodes d' = db_nodes d \<and> db_jobs d' = db_jobs d \<and> db_lease d' = db_lease d
     \<and> events_grow d d'"

lemma row_write_logged:
  assumes "insertEvent env w ety eid evt msg
             (d\<lparr>db_tasks := update_where (\<lambda>t. tID t = tID task) f (db_tasks d)\<rparr>) = Inr d'"
    and "\<And>t. tID (f t) = tID t"
  shows "row_write f task d (f task) d'"
  using insertEvent_after [OF assms(1), of d] assms(2) by (simp add: row_write_def)

lemma report_running_effect:
  assumes "report_running env task d = Inr (r, d')"
  shows "row_write (running_row env) task d r d'
    \<and> tStatus task \<in> {TaskStatusScheduled, TaskStatusRunning}"
  using assms
  by (auto simp: report_running_def Let_def row_simps row_write_def events_grow_same
           split: if_splits sum.splits dest!: row_write_logged)

lemma mark_terminal_effect:
  assumes "mark_terminal env p task le d = Inr (r, d')"
  shows "row_write (terminal_row env (uStatus p) (uExitCode p) le) task d r d'"
  using assms
  by (auto simp: mark_terminal_def Let_def row_simps split: if_splits sum.splits
           intro: row_write_logged)

lemma requeueFailedTask_effect:
  assumes "requeueFailedTask env task c le d = Inr (r, d')"
  shows "row_write (requeue_failed_row env (i32 (tRetriesUsed task + 1))
           (retryBackoff (i32 (tRetriesUsed task + 1))) c le) task d r d'"
  using assms
  by (auto simp: requeueFailedTask_def Let_def row_simps split: if_splits sum.splits
           intro: row_write_logged)

lemma report_body_effect:
  assumes "report_body env p task d = Inr (r, d')"
    and "\<not> (uStatus p \<in> {TaskStatusSucceeded, TaskStatusFailed} \<and> tStatus task = uStatus p)"
  shows "\<exists>f limit. row_write f task d r d' \<and> report_table env limit p task = Some (f task)
    \<and> (uStatus p = TaskStatusFailed \<longrightarrow> job_limit d task = Some limit)"
proof (cases "uStatus p")
  case TaskStatusRunning
  with assms report_running_effect show ?thesis
    by (intro exI [of _ "running_row env"]) (auto simp: report_body_def report_table_def)
next
  case TaskStatusSucceeded
  with assms have "mark_terminal env p task (if uError p = [] then None else Some (uError p)) d
      = Inr (r, d')" and "tStatus task \<in> {TaskStatusScheduled, TaskStatusRunning}"
    by (auto simp: report_body_def report_terminal_def Let_def split: if_splits)
  with TaskStatusSucceeded show ?thesis
    by (intro exI [of _ "terminal_row env TaskStatusSucceeded (uExitCode p)
          (if uError p = [] then None else Some (uError p))"])
       (auto simp: report_table_def Let_def dest: mark_terminal_effect)
next
  case TaskStatusFailed
  let ?le = "if uError p = [] then None else Some (uError p)"
  from TaskStatusFailed assms obtain j where
    j: "find (\<lambda>j. jID j = tJobID task) (db_jobs d) = Some j"
    and st: "tStatus task \<in> {TaskStatusScheduled, TaskStatusRunning}"
    and res: "(if tRetriesUsed task < jRetryLimit j
               then requeueFailedTask env task (uExitCode p) ?le d
               else mark_terminal env p task ?le d) = Inr (r, d')"
    by (auto simp: report_body_def report_terminal_def Let_def split: if_splits option.splits)
  show ?thesis
  proof (cases "tRetriesUsed task < jRetryLimit j")
    case True
    with res have "requeueFailedTask env task (uExitCode p) ?le d = Inr (r, d')" by simp
    from requeueFailedTask_effect [OF this] show ?thesis
      using TaskStatusFailed st j True
      by (intro exI [of _ "requeue_failed_row env (i32 (tRetriesUsed task + 1))
              (retryBackoff (i32 (tRetriesUsed task + 1))) (uExitCode p) ?le"]
            exI [of _ "jRetryLimit j"])
         (auto simp: report_table_def Let_def job_limit_def)
  next
    case False
    with res have "mark_terminal env p task ?le d = Inr (r, d')" by simp
    from mark_terminal_effect [OF this] show ?thesis
      using TaskStatusFailed st j False
      by (intro exI [of _ "terminal_row env TaskStatusFailed (uExitCode p) ?le"]
            exI [of _ "jRetryLimit j"])
         (auto simp: report_table_def Let_def job_limit_def)
  qed
qed (use assms(1) in \<open>simp_all add: report_body_def\<close>)

text \<open>
  A successful report: the row was found, the fence let it pass, and the new row is the one of
  the transition table.
\<close>

lemma UpdateTaskStatus_effect:
  assumes "UpdateTaskStatus env p d = (Inr r, d')"
  obtains task f limit where
    "find (\<lambda>t. tID t = uTaskID p) (db_tasks d) = Some task"
    "checkTaskReportFence task (uNodeID p) (uEpoch p) = None"
    "row_write f task d r d'" "report_table env limit p task = Some r"
    "uStatus p = TaskStatusFailed \<longrightarrow> tStatus task = TaskStatusFailed \<or> job_limit d task = Some limit"
proof -
  from assms obtain task where t: "find (\<lambda>t. tID t = uTaskID p) (db_tasks d) = Some task"
    and fence: "checkTaskReportFence task (uNodeID p) (uEpoch p) = None"
    and body: "(if uStatus p \<in> {TaskStatusSucceeded, TaskStatusFailed} \<and> tStatus task = uStatus p
                then Inr (task, d) else report_body env p task d) = Inr (r, d')"
    unfolding UpdateTaskStatus_def report_body_def
    by (auto simp: in_tx_Inr split: if_splits option.splits)
  show thesis
  proof (cases "uStatus p \<in> {TaskStatusSucceeded, TaskStatusFailed} \<and> tStatus task = uStatus p")
    case True
    with body have "r = task" "d' = d" by auto
    with True t fence show thesis
      by (intro that [of task id 0])
         (auto simp: row_write_def report_table_def Let_def update_where_cong_set)
  next
    case False
    with body have "report_body env p task d = Inr (r, d')" by auto
    from report_body_effect [OF this False] obtain f limit where
      "row_write f task d r d'" "report_table env limit p task = Some (f task)"
      "uStatus p = TaskStatusFailed \<longrightarrow> job_limit d task = Some limit" by blast
    with t fence show thesis
      by (intro that [of task f limit]) (auto simp: row_write_def)
  qed
qed

text \<open>The rows of the transition table are well-formed.\<close>

lemma coalesce_Some [simp]: "coalesce a b \<noteq> None"
  by (simp add: coalesce_def split: option.splits)

lemma running_row_ok:
  "task_ok ns js t \<Longrightarrow> tStatus t \<in> {TaskStatusScheduled, TaskStatusRunning} \<Longrightarrow>
     task_ok ns js (running_row env t)"
  by (auto simp: task_ok_def retries_ok_def assigned_ok_def running_row_def)

lemma terminal_row_ok:
  "task_ok ns js t \<Longrightarrow> tStatus t \<in> {TaskStatusScheduled, TaskStatusRunning} \<Longrightarrow>
     st \<in> {TaskStatusSucceeded, TaskStatusFailed} \<Longrightarrow> task_ok ns js (terminal_row env st c e t)"
  by (auto simp: task_ok_def retries_ok_def assigned_ok_def terminal_row_def)

lemma requeue_failed_row_ok:
  assumes "j \<in> set js" "jID j = tJobID t" "0 \<le> k" "k \<le> max 0 (jRetryLimit j)"
  shows "task_ok ns js (requeue_failed_row env k b c e t)"
  unfolding task_ok_def retries_ok_def using assms
  by (auto simp: requeue_failed_row_def intro!: bexI [of _ j])

lemma report_table_cases:
  assumes "report_table env limit p t = Some r"
  obtains (same) "r = t" "tStatus t = uStatus p" "uStatus p \<in> {TaskStatusSucceeded, TaskStatusFailed}"
  | (running) "r = running_row env t" "uStatus p = TaskStatusRunning"
      "tStatus t \<in> {TaskStatusScheduled, TaskStatusRunning}"
  | (terminal) e where "r = terminal_row env (uStatus p) (uExitCode p) e t"
      "uStatus p \<in> {TaskStatusSucceeded, TaskStatusFailed}"
      "tStatus t \<in> {TaskStatusScheduled, TaskStatusRunning}"
      "uStatus p = TaskStatusFailed \<longrightarrow> limit \<le> tRetriesUsed t"
  | (requeue) e where "r = requeue_failed_row env (i32 (tRetriesUsed t + 1))
          (retryBackoff (i32 (tRetriesUsed t + 1))) (uExitCode p) e t"
      "uStatus p = TaskStatusFailed" "tRetriesUsed t < limit"
      "tStatus t \<in> {TaskStatusScheduled, TaskStatusRunning}"
  using assms unfolding report_table_def Let_def
  by (cases "uStatus p") (auto split: if_splits)

lemma task_ok_report:
  assumes ok: "task_ok ns js t" and tab: "report_table env limit p t = Some r"
    and lim: "uStatus p = TaskStatusFailed \<and> tStatus t \<noteq> TaskStatusFailed
      \<Longrightarrow> \<exists>j \<in> set js. jID j = tJobID t \<and> jRetryLimit j = limit \<and> job_row_ok j"
  shows "task_ok ns js r"
  using tab
proof (cases rule: report_table_cases)
  case same
  with ok show ?thesis by simp
next
  case running
  with ok show ?thesis by (simp add: running_row_ok)
next
  case (terminal e)
  with ok show ?thesis by (simp add: terminal_row_ok)
next
  case (requeue e)
  with lim obtain j where j: "j \<in> set js" "jID j = tJobID t" "jRetryLimit j = limit" "job_row_ok j"
    by auto
  from ok have "0 \<le> tRetriesUsed t" by (auto simp: task_ok_def retries_ok_def)
  moreover from this requeue j have "i32 (tRetriesUsed t + 1) = tRetriesUsed t + 1"
    by (intro i32_id) (auto simp: job_row_ok_def in_i32_def)
  ultimately show ?thesis
    unfolding requeue(1) using requeue(3) j by (intro requeue_failed_row_ok [of j]) auto
qed

lemma UpdateTaskStatus_error: "UpdateTaskStatus env p d = (Inl e, d') \<Longrightarrow> d' = d"
  unfolding UpdateTaskStatus_def by (rule in_tx_Inl)

interpretation report: store_method UpdateTaskStatus
proof (unfold_locales, goal_cases)
  case (1 env p d e d')
  then show ?case by (rule UpdateTaskStatus_error)
next
  case (2 env p d r d')
  note rows = db_inv_rows [OF 2(2)]
  from 2(1) obtain task f limit where
    task: "find (\<lambda>t. tID t = uTaskID p) (db_tasks d) = Some task"
    and w: "row_write f task d r d'" and tab: "report_table env limit p task = Some r"
    and lim: "uStatus p = TaskStatusFailed
      \<longrightarrow> tStatus task = TaskStatusFailed \<or> job_limit d task = Some limit"
    by (rule UpdateTaskStatus_effect)
  from task rows have t: "task \<in> set (db_tasks d)" by (simp add: rows_ok_find_task)
  have "task_ok (db_nodes d) (db_jobs d) r"
    by (rule task_ok_report [OF rows_ok_taskD [OF rows t] tab])
       (use lim rows in \<open>auto simp: job_limit_def rows_ok_find_job rows_ok_def\<close>)
  then have "rows_ok (db_nodes d') (db_jobs d') (db_tasks d')"
    using w t rows by (auto simp: row_write_def intro!: rows_ok_update_tasks
                            dest: rows_ok_task_unique [OF rows])
  with 2(2) w show ?case by (auto simp: row_write_def intro: db_invI)
next
  case (3 env p d r d')
  then show ?case by (auto simp: row_write_def elim!: UpdateTaskStatus_effect)
next
  case (4 env p d r d')
  then show ?case by (auto simp: row_write_def elim!: UpdateTaskStatus_effect)
qed

end
