(* ===== verification/Sample_Cluster.thy ===== *)
theory Sample_Cluster
  imports Store_Contract
begin

text \<open>
  A small concrete cluster on which the theorems of the development are instantiated: two ready
  nodes, one job with three tasks (one running, one scheduled, one pending), a database that fails
  no statement, and the proof that this state is well-formed.
\<close>

definition sample_env :: dbenv where
  "sample_env = \<lparr>db_now = 10 * Second, db_uuid = (\<lambda>i. ''u'' @ itoa (int i)), db_fault = (\<lambda>_. False)\<rparr>"

definition node_a :: Node where
  "node_a = \<lparr>nID = ''n1'', nHostname = ''alpha'', nAddress = ''10.0.0.1:7000'',
     nCPUCapacityMillicores = 4000, nMemCapacityMB = 8192, nLabels = Some [(''zone'', ''a'')],
     nStatus = NodeStatusReady, nEpoch = 3, nLastHeartbeatAt = Some 0, nCreatedAt = 1\<rparr>"

definition node_b :: Node where
  "node_b = \<lparr>nID = ''n2'', nHostname = ''beta'', nAddress = ''10.0.0.2:7000'',
     nCPUCapacityMillicores = 4000, nMemCapacityMB = 8192, nLabels = Some [],
     nStatus = NodeStatusReady, nEpoch = 1, nLastHeartbeatAt = Some 0, nCreatedAt = 2\<rparr>"

definition job_a :: Job where
  "job_a = \<lparr>jID = ''j1'', jName = ''web'', jImage = ''nginx'', jCommand = [],
     jCPURequestMillicores = 500, jMemRequestMB = 256, jReplicas = 3, jRetryLimit = 2,
     jSchedulingPolicy = SchedulingPolicySpread, jConstraints = [], jCreatedAt = 3\<rparr>"

definition task_row :: "string \<Rightarrow> Task" where
  "task_row tid = \<lparr>tID = tid, tJobID = ''j1'', tStatus = TaskStatusPending, tAssignedNodeID = None,
     tAssignedEpoch = None, tRetriesUsed = 0, tExitCode = None, tLastError = None, tCreatedAt = 3,
     tScheduledAt = None, tStartedAt = None, tFinishedAt = None, tNextRetryAt = None\<rparr>"

definition task_running :: Task where
  "task_running = (task_row ''t1'')\<lparr>tStatus := TaskStatusRunning, tAssignedNodeID := Some ''n1'',
     tAssignedEpoch := Some 3, tScheduledAt := Some 4, tStartedAt := Some 5\<rparr>"

definition task_scheduled :: Task where
  "task_scheduled = (task_row ''t2'')\<lparr>tStatus := TaskStatusScheduled,
     tAssignedNodeID := Some ''n2'', tAssignedEpoch := Some 1, tScheduledAt := Some 4\<rparr>"

definition sample_db :: db where
  "sample_db = \<lparr>db_nodes = [node_a, node_b], db_jobs = [job_a],
     db_tasks = [task_running, task_scheduled, task_row ''t3''], db_events = [], db_event_seq = 1,
     db_lease = Some \<lparr>lLeaderID = ''s1'', lLeaderAddr = ''s1:50051'', lEpoch = 4, lAcquiredAt = 0,
                      lExpiresAt = 12 * Second\<rparr>\<rparr>"

definition work_a :: TaskWithJob where
  "work_a = \<lparr>wTask = task_row ''t3'', wImage = ''nginx'', wCommand = [], wCPURequestMillicores = 500,
     wMemRequestMB = 256, wRetryLimit = 2, wSchedulingPolicy = SchedulingPolicySpread,
     wConstraints = []\<rparr>"

lemmas sample_rows = node_a_def node_b_def job_a_def task_row_def task_running_def
  task_scheduled_def

lemma sample_db_sel [simp]:
  "db_nodes sample_db = [node_a, node_b]" "db_jobs sample_db = [job_a]"
  "db_tasks sample_db = [task_running, task_scheduled, task_row ''t3'']"
  "db_events sample_db = []" "db_event_seq sample_db = 1"
  by (simp_all add: sample_db_def)

lemma sample_inv [simp]: "db_inv sample_db"
  by (simp add: db_inv_def rows_ok_def events_ok_def node_ok_def host_key_def job_row_ok_def
      task_ok_def retries_ok_def assigned_ok_def in_i64_def in_i32_def SchedulingPolicySpread_def
      SchedulingPolicyBinPack_def sample_rows)

lemma sample_no_fault [simp]: "db_fault sample_env s = False"
  by (simp add: sample_env_def)

end
