(* ===== verification/Leader_Gate.thy ===== *)
theory Leader_Gate
  imports Arbiter_Prelude
begin

text \<open>
  The \<open>LeaderGate\<close> interface that \<^verbatim>\<open>src/internal/scheduler\<close>, \<^verbatim>\<open>failuredetector\<close>, \<^verbatim>\<open>eventfanout\<close>,
  \<^verbatim>\<open>autoscaler\<close>, \<^verbatim>\<open>metrics\<close>, \<^verbatim>\<open>grpcapi\<close> and \<^verbatim>\<open>httpapi\<close> declare: what a component can ask of the
  election. A nil gate means always-leader. The locale \<open>gated_loop\<close> is the contract of the
  background loops: a tick behind a closed gate changes nothing, so the ticks of followers can be
  removed from any interleaving.
\<close>

record LeaderGate =
  gIsLeader :: bool
  gLeaderAddr :: string

definition gate_open :: "LeaderGate option \<Rightarrow> bool" where
  "gate_open g = (case g of None \<Rightarrow> True | Some l \<Rightarrow> gIsLeader l)"

lemma gate_open_simps [simp]:
  "gate_open None" "gate_open (Some l) = gIsLeader l"
  by (simp_all add: gate_open_def)

locale gated_loop =
  fixes loop_tick :: "'e \<Rightarrow> LeaderGate option \<Rightarrow> 's \<Rightarrow> 's"
  assumes follower_idle: "\<not> gate_open g \<Longrightarrow> loop_tick e g s = s"
begin

lemma followers_idle:
  "list_all (\<lambda>(e, g). \<not> gate_open g) ticks \<Longrightarrow> fold (\<lambda>(e, g). loop_tick e g) ticks s = s"
  by (induction ticks arbitrary: s) (auto simp: follower_idle)

text \<open>In an interleaving of the ticks of all replicas only those behind an open gate count.\<close>

lemma only_leaders_count:
  "fold (\<lambda>(e, g). loop_tick e g) ticks s
   = fold (\<lambda>(e, g). loop_tick e g) (filter (\<lambda>(e, g). gate_open g) ticks) s"
  by (induction ticks arbitrary: s) (auto simp: follower_idle)

end

end
