(* ===== verification/Scheduler.thy ===== *)
theory Scheduler
  imports Complex_Main Sample_Cluster Leader_Gate
begin

text \<open>
  The placement engine, \<^verbatim>\<open>src/internal/scheduler\<close>: the filters and scorers of \<^verbatim>\<open>filters.go\<close>,
  \<^verbatim>\<open>scorers.go\<close> and \<^verbatim>\<open>plugins.go\<close>, the choice of a node (\<open>Place\<close>) and the batch a scheduling tick
  places in one transaction (\<^verbatim>\<open>engine.go\<close>). Scores are \<open>float64\<close>: they are rationals to which the
  rounding function \<open>rnd\<close> of the floating-point unit is applied after every operation, so the
  statements hold for any rounding; where the order of scores is compared with the order of the
  exact utilisations, \<open>rnd\<close> is required to be monotone, as IEEE rounding is.
\<close>

type_synonym rounding = "rat \<Rightarrow> rat"

section \<open>Node views\<close>

record NodeView =
  vNode :: Node
  vAlloc :: NodeAllocation

definition FreeCPUMillicores :: "NodeView \<Rightarrow> int" where
  "FreeCPUMillicores v = i64 (nCPUCapacityMillicores (vNode v) - aCPUMillicores (vAlloc v))"

definition FreeMemMB :: "NodeView \<Rightarrow> int" where
  "FreeMemMB v = i64 (nMemCapacityMB (vNode v) - aMemoryMB (vAlloc v))"

definition CPUUtilization :: "rounding \<Rightarrow> NodeView \<Rightarrow> rat" where
  "CPUUtilization rnd v =
     (if nCPUCapacityMillicores (vNode v) \<le> 0 then 1
      else rnd (rnd (of_int (aCPUMillicores (vAlloc v)))
                / rnd (of_int (nCPUCapacityMillicores (vNode v)))))"

definition MemUtilization :: "rounding \<Rightarrow> NodeView \<Rightarrow> rat" where
  "MemUtilization rnd v =
     (if nMemCapacityMB (vNode v) \<le> 0 then 1
      else rnd (rnd (of_int (aMemoryMB (vAlloc v))) / rnd (of_int (nMemCapacityMB (vNode v)))))"

definition Utilization :: "rounding \<Rightarrow> NodeView \<Rightarrow> rat" where
  "Utilization rnd v = rnd (rnd (CPUUtilization rnd v + MemUtilization rnd v) / 2)"

section \<open>Filters\<close>

datatype Filter = ReadyFilter | ResourceFilter | LabelSelectorFilter

fun Passes :: "Filter \<Rightarrow> NodeView \<Rightarrow> TaskWithJob \<Rightarrow> bool" where
  "Passes ReadyFilter v w \<longleftrightarrow> nStatus (vNode v) = NodeStatusReady"
| "Passes ResourceFilter v w \<longleftrightarrow>
     wCPURequestMillicores w \<le> FreeCPUMillicores v \<and> wMemRequestMB w \<le> FreeMemMB v"
| "Passes LabelSelectorFilter v w \<longleftrightarrow>
     (if wConstraints w = [] then True
      else case nLabels (vNode v) of
             None \<Rightarrow> False
           | Some labels \<Rightarrow> list_all (\<lambda>(k, x). mget labels k = x) (wConstraints w))"

definition DefaultFilters :: "Filter list" where
  "DefaultFilters = [ReadyFilter, ResourceFilter, LabelSelectorFilter]"

section \<open>Scorers\<close>

datatype Scorer = BinPackScorer | SpreadScorer

definition after_placement :: "NodeView \<Rightarrow> TaskWithJob \<Rightarrow> NodeView" where
  "after_placement v w =
     \<lparr>vNode = vNode v,
      vAlloc = \<lparr>aCPUMillicores = i64 (aCPUMillicores (vAlloc v) + wCPURequestMillicores w),
                aMemoryMB = i64 (aMemoryMB (vAlloc v) + wMemRequestMB w)\<rparr>\<rparr>"

fun Score :: "rounding \<Rightarrow> Scorer \<Rightarrow> NodeView \<Rightarrow> TaskWithJob \<Rightarrow> rat" where
  "Score rnd BinPackScorer v w = Utilization rnd (after_placement v w)"
| "Score rnd SpreadScorer v w = rnd (1 - Utilization rnd v)"

definition ScorerForPolicy :: "string \<Rightarrow> Scorer" where
  "ScorerForPolicy policy = (if policy = SchedulingPolicySpread then SpreadScorer else BinPackScorer)"

section \<open>Choosing a node\<close>

definition view_of :: "alloc_map \<Rightarrow> Node \<Rightarrow> NodeView" where
  "view_of allocs n = \<lparr>vNode = n, vAlloc = alloc_at allocs (nID n)\<rparr>"

definition eligible :: "Filter list \<Rightarrow> alloc_map \<Rightarrow> TaskWithJob \<Rightarrow> Node \<Rightarrow> bool" where
  "eligible filters allocs w n \<longleftrightarrow> list_all (\<lambda>f. Passes f (view_of allocs n) w) filters"

fun place_loop ::
  "rounding \<Rightarrow> alloc_map \<Rightarrow> TaskWithJob \<Rightarrow> Filter list \<Rightarrow> Scorer \<Rightarrow> (Node \<times> rat) option
   \<Rightarrow> Node list \<Rightarrow> (Node \<times> rat) option" where
  "place_loop rnd allocs w filters scorer best [] = best"
| "place_loop rnd allocs w filters scorer best (n # ns) =
     (if \<not> eligible filters allocs w n then place_loop rnd allocs w filters scorer best ns
      else
        (let score = Score rnd scorer (view_of allocs n) w in
         place_loop rnd allocs w filters scorer
           (case best of
              None \<Rightarrow> Some (n, score)
            | Some (b, bestScore) \<Rightarrow>
                if bestScore < score \<or> (score = bestScore \<and> nHostname n < nHostname b)
                then Some (n, score) else best) ns))"

definition Place ::
  "rounding \<Rightarrow> Node list \<Rightarrow> alloc_map \<Rightarrow> TaskWithJob \<Rightarrow> Filter list option \<Rightarrow> Scorer option
   \<Rightarrow> Node option" where
  "Place rnd nodes allocs w filters scorer =
     (let scorer = (case scorer of None \<Rightarrow> BinPackScorer | Some s \<Rightarrow> s);
          filters = (case filters of None \<Rightarrow> DefaultFilters | Some fs \<Rightarrow> fs)
      in map_option fst (place_loop rnd allocs w filters scorer None nodes))"

section \<open>The scheduling tick\<close>

definition defaultPollInterval :: duration where "defaultPollInterval = 200 * Millisecond"
definition defaultClaimLimit :: nat where "defaultClaimLimit = 50"

definition add_alloc :: "NodeAllocation \<Rightarrow> TaskWithJob \<Rightarrow> NodeAllocation" where
  "add_alloc a w = \<lparr>aCPUMillicores = i64 (aCPUMillicores a + wCPURequestMillicores w),
                    aMemoryMB = i64 (aMemoryMB a + wMemRequestMB w)\<rparr>"

text \<open>The loop over the claimed tasks; the result counts the placed ones.\<close>

fun place_tasks ::
  "rounding \<Rightarrow> dbenv \<Rightarrow> Node list \<Rightarrow> alloc_map \<Rightarrow> TaskWithJob list \<Rightarrow> db \<Rightarrow> store_error + (nat \<times> db)" where
  "place_tasks rnd env nodes pendingAlloc [] d = Inr (0, d)"
| "place_tasks rnd env nodes pendingAlloc (w # ws) d =
     (case Place rnd nodes pendingAlloc w (Some DefaultFilters)
             (Some (ScorerForPolicy (wSchedulingPolicy w))) of
        None \<Rightarrow> place_tasks rnd env nodes pendingAlloc ws d
      | Some node \<Rightarrow>
          (case ScheduleTask env (tID (wTask w)) (nID node) (nEpoch node) d of
             Inl e \<Rightarrow> Inl e
           | Inr d1 \<Rightarrow>
               (case place_tasks rnd env nodes
                       (pendingAlloc(nID node \<mapsto> add_alloc (alloc_at pendingAlloc (nID node)) w))
                       ws d1 of
                  Inl e \<Rightarrow> Inl e
                | Inr (placed, d2) \<Rightarrow> Inr (Suc placed, d2))))"

text \<open>
  \<open>place_batch\<close> is what the tick does after its reads: \<open>nodes\<close> and \<open>allocs\<close> come from other
  connections, so they may be older than the state \<open>d\<close> the transaction commits on.
\<close>

definition place_batch ::
  "rounding \<Rightarrow> dbenv \<Rightarrow> Node list \<Rightarrow> alloc_map \<Rightarrow> TaskWithJob list \<Rightarrow> db
   \<Rightarrow> (store_error + nat) \<times> db" where
  "place_batch rnd env nodes allocs tasks d =
     (case place_tasks rnd env nodes allocs tasks d of
        Inl e \<Rightarrow> (Inl e, d)
      | Inr (placed, d') \<Rightarrow>
          if db_fault env ''scheduler: commit'' then (Inl (StoreError ''scheduler: commit''), d)
          else (Inr placed, d'))"

definition engine_tick ::
  "rounding \<Rightarrow> LeaderGate option \<Rightarrow> dbenv \<Rightarrow> string set \<Rightarrow> db \<Rightarrow> (store_error + nat) \<times> db" where
  "engine_tick rnd leader env locked d =
     (if \<not> gate_open leader then (Inr 0, d)
      else case ClaimPendingTasksForScheduling env locked defaultClaimLimit d of
        Inl e \<Rightarrow> (Inl e, d)
      | Inr tasks \<Rightarrow>
          if tasks = [] then (Inr 0, d)
          else case ListActiveNodes env d of
            Inl e \<Rightarrow> (Inl e, d)
          | Inr nodes \<Rightarrow>
              (case GetNodeAllocations env d of
                 Inl e \<Rightarrow> (Inl e, d)
               | Inr allocs \<Rightarrow> place_batch rnd env nodes allocs tasks d))"

interpretation engine: gated_loop "\<lambda>(rnd, env, locked) g d. snd (engine_tick rnd g env locked d)"
  by unfold_locales (auto simp: engine_tick_def)

section \<open>Correctness of the choice\<close>

text \<open>\<open>no_better c b\<close>: candidate \<open>c\<close> does not beat \<open>b\<close> (score first, then the smaller hostname).\<close>

definition no_better :: "Node \<times> rat \<Rightarrow> Node \<times> rat \<Rightarrow> bool" where
  "no_better c b \<longleftrightarrow> snd c < snd b \<or> (snd c = snd b \<and> nHostname (fst b) \<le> nHostname (fst c))"

lemma no_better_refl [simp]: "no_better c c"
  by (simp add: no_better_def)

lemma no_better_trans: "no_better a b \<Longrightarrow> no_better b c \<Longrightarrow> no_better a c"
  by (auto simp: no_better_def)

lemma place_loop_spec:
  "place_loop rnd allocs w fs sc best ns = r \<Longrightarrow>
     (r = None \<longleftrightarrow> best = None \<and> (\<forall>n \<in> set ns. \<not> eligible fs allocs w n))
     \<and> (\<forall>m. r = Some m \<longrightarrow>
          (\<forall>c. best = Some c \<longrightarrow> no_better c m)
          \<and> (\<forall>n \<in> set ns. eligible fs allocs w n \<longrightarrow>
                no_better (n, Score rnd sc (view_of allocs n) w) m)
          \<and> (best = Some m \<or> (fst m \<in> set ns \<and> eligible fs allocs w (fst m)
                \<and> snd m = Score rnd sc (view_of allocs (fst m)) w)))"
proof (induction ns arbitrary: best)
  case Nil
  then show ?case by auto
next
  case (Cons n ns)
  let ?s = "Score rnd sc (view_of allocs n) w"
  show ?case
  proof (cases "eligible fs allocs w n")
    case False
    with Cons.prems have "place_loop rnd allocs w fs sc best ns = r" by simp
    from Cons.IH [OF this] False show ?thesis by auto
  next
    case True
    define best' where "best' = (case best of None \<Rightarrow> Some (n, ?s)
        | Some (b, bs) \<Rightarrow> if bs < ?s \<or> (?s = bs \<and> nHostname n < nHostname b)
                          then Some (n, ?s) else best)"
    from True Cons.prems have rec: "place_loop rnd allocs w fs sc best' ns = r"
      by (simp add: best'_def Let_def)
    have some: "best' \<noteq> None" by (auto simp: best'_def split: option.splits)
    have step: "no_better (n, ?s) b'" "\<forall>c. best = Some c \<longrightarrow> no_better c b'"
      "best = Some b' \<or> b' = (n, ?s)" if "best' = Some b'" for b'
      using that by (auto simp: best'_def no_better_def split: option.splits if_splits)
    from some obtain b' where b': "best' = Some b'" by blast
    note IH = Cons.IH [OF rec] and st = step [OF b']
    from IH b' obtain m where m: "r = Some m" by (cases r) auto
    have b'm: "no_better b' m" using IH m b' by blast
    have "no_better (n, ?s) m" using st(1) b'm by (rule no_better_trans)
    moreover have "no_better c m" if "best = Some c" for c
      using st(2) that b'm no_better_trans by blast
    moreover have "no_better (k, Score rnd sc (view_of allocs k) w) m"
      if "k \<in> set ns" "eligible fs allocs w k" for k
      using IH m that by blast
    moreover have "best = Some m \<or> (fst m \<in> set (n # ns) \<and> eligible fs allocs w (fst m)
                \<and> snd m = Score rnd sc (view_of allocs (fst m)) w)"
    proof (cases "b' = m")
      case True
      with st(3) \<open>eligible fs allocs w n\<close> show ?thesis by auto
    next
      case False
      with IH m b' show ?thesis by auto
    qed
    ultimately show ?thesis using m \<open>eligible fs allocs w n\<close> by auto
  qed
qed

lemma Place_spec:
  "(Place rnd nodes allocs w (Some fs) (Some sc) = None
      \<longleftrightarrow> (\<forall>n \<in> set nodes. \<not> eligible fs allocs w n))
   \<and> (\<forall>m. Place rnd nodes allocs w (Some fs) (Some sc) = Some m \<longrightarrow>
        m \<in> set nodes \<and> eligible fs allocs w m
        \<and> (\<forall>n \<in> set nodes. eligible fs allocs w n \<longrightarrow>
             no_better (n, Score rnd sc (view_of allocs n) w) (m, Score rnd sc (view_of allocs m) w)))"
  using place_loop_spec [OF refl, of rnd allocs w fs sc None nodes]
  by (cases "place_loop rnd allocs w fs sc None nodes") (auto simp: Place_def Let_def)

section \<open>Properties\<close>

text \<open>
  C8: \<open>Place\<close> returns no node exactly when no node passes every filter; otherwise it returns a node
  of the list that passes them all, and no other such node has a higher score, nor the same score
  and a smaller hostname. This holds for every filter chain, scorer, and rounding.
\<close>

theorem place_best:
  "case Place rnd nodes allocs w (Some fs) (Some sc) of
     None \<Rightarrow> filter (eligible fs allocs w) nodes = []
   | Some m \<Rightarrow> m \<in> set (filter (eligible fs allocs w) nodes)
       \<and> list_all (\<lambda>n. Score rnd sc (view_of allocs n) w < Score rnd sc (view_of allocs m) w
            \<or> (Score rnd sc (view_of allocs n) w = Score rnd sc (view_of allocs m) w
               \<and> nHostname m \<le> nHostname n)) (filter (eligible fs allocs w) nodes)"
  using Place_spec [of rnd nodes allocs w fs sc]
  by (cases "Place rnd nodes allocs w (Some fs) (Some sc)")
     (auto simp: no_better_def list_all_iff filter_empty_conv)

lemma mono_div:
  assumes "mono rnd" "rnd 0 = 0" "a \<le> b" "0 \<le> (c::rat)"
  shows "rnd (rnd a / rnd c) \<le> rnd (rnd b / rnd c)"
proof -
  from assms have "0 \<le> rnd c" by (metis monoD)
  with assms show ?thesis by (intro monoD [OF assms(1)] divide_right_mono) (auto dest: monoD)
qed

lemma Utilization_mono:
  assumes "mono rnd" "rnd 0 = 0"
    and "nCPUCapacityMillicores (vNode u) = nCPUCapacityMillicores (vNode v)"
    and "nMemCapacityMB (vNode u) = nMemCapacityMB (vNode v)"
    and "aCPUMillicores (vAlloc u) \<le> aCPUMillicores (vAlloc v)"
    and "aMemoryMB (vAlloc u) \<le> aMemoryMB (vAlloc v)"
  shows "Utilization rnd u \<le> Utilization rnd v"
proof -
  have "CPUUtilization rnd u \<le> CPUUtilization rnd v"
    using assms(3,5) by (auto simp: CPUUtilization_def intro!: mono_div [OF assms(1,2)])
  moreover have "MemUtilization rnd u \<le> MemUtilization rnd v"
    using assms(4,6) by (auto simp: MemUtilization_def intro!: mono_div [OF assms(1,2)])
  ultimately show ?thesis
    unfolding Utilization_def
    by (intro monoD [OF assms(1)] divide_right_mono add_mono) auto
qed

text \<open>
  The direction of the two policies. Of two nodes of equal capacity the one that already holds
  at least as much CPU and memory scores at least as high under bin-pack and at most as high under
  spread, for every monotone rounding that is exact at zero.
\<close>

theorem policy_direction:
  assumes "mono rnd" and "rnd 0 = 0"
    and "nCPUCapacityMillicores (vNode u) = nCPUCapacityMillicores (vNode v)"
    and "nMemCapacityMB (vNode u) = nMemCapacityMB (vNode v)"
    and "aCPUMillicores (vAlloc u) \<le> aCPUMillicores (vAlloc v)"
    and "aMemoryMB (vAlloc u) \<le> aMemoryMB (vAlloc v)"
    and "in_i64 (aCPUMillicores (vAlloc u) + wCPURequestMillicores w)"
    and "in_i64 (aCPUMillicores (vAlloc v) + wCPURequestMillicores w)"
    and "in_i64 (aMemoryMB (vAlloc u) + wMemRequestMB w)"
    and "in_i64 (aMemoryMB (vAlloc v) + wMemRequestMB w)"
  shows "Score rnd BinPackScorer u w \<le> Score rnd BinPackScorer v w
    \<and> Score rnd SpreadScorer v w \<le> Score rnd SpreadScorer u w"
proof
  show "Score rnd BinPackScorer u w \<le> Score rnd BinPackScorer v w"
    using assms by (auto simp: after_placement_def i64_id intro!: Utilization_mono)
  show "Score rnd SpreadScorer v w \<le> Score rnd SpreadScorer u w"
    using Utilization_mono [OF assms(1-6)] by (auto intro: monoD [OF assms(1)])
qed

theorem policy_direction_witness:
  "Score (\<lambda>x. x) BinPackScorer \<lparr>vNode = node_b, vAlloc = zero_alloc\<rparr> work_a
     \<le> Score (\<lambda>x. x) BinPackScorer \<lparr>vNode = node_a, vAlloc = add_alloc zero_alloc work_a\<rparr> work_a
   \<and> Score (\<lambda>x. x) SpreadScorer \<lparr>vNode = node_a, vAlloc = add_alloc zero_alloc work_a\<rparr> work_a
     \<le> Score (\<lambda>x. x) SpreadScorer \<lparr>vNode = node_b, vAlloc = zero_alloc\<rparr> work_a"
  by (rule policy_direction)
     (simp_all add: node_a_def node_b_def work_a_def zero_alloc_def add_alloc_def in_i64_def i64_id
        mono_def)

end
