(* ===== verification/Scheduler_Tick.thy ===== *)
theory Scheduler_Tick
  imports Scheduler
begin

text \<open>
  Correctness of the scheduling tick of \<^verbatim>\<open>src/internal/scheduler/engine.go\<close>: what a batch claims,
  which rows a placed batch changes, that the running allocation the engine keeps is exactly the
  sum the database would compute, and therefore that no batch overcommits a node.
\<close>

section \<open>Claiming\<close>

lemma task_with_job_Some:
  "task_with_job d t = Some w \<Longrightarrow>
     wTask w = t \<and> (\<exists>j \<in> set (db_jobs d). jID j = tJobID t
       \<and> wCPURequestMillicores w = jCPURequestMillicores j \<and> wMemRequestMB w = jMemRequestMB j)"
  by (auto simp: task_with_job_def dest: find_in_set)

lemma task_with_job_total:
  "db_inv d \<Longrightarrow> t \<in> set (db_tasks d) \<Longrightarrow> \<exists>w. task_with_job d t = Some w"
  by (drule (1) rows_ok_taskD [OF db_inv_rows])
     (auto simp: task_with_job_def task_ok_def retries_ok_def dest!: find_key_exists [where key = jID])

lemma map_wTask_joined:
  "db_inv d \<Longrightarrow> set ts \<subseteq> set (db_tasks d) \<Longrightarrow> map wTask (List.map_filter (task_with_job d) ts) = ts"
proof (induction ts)
  case (Cons t ts)
  then obtain w where "task_with_job d t = Some w" using task_with_job_total by fastforce
  with Cons show ?case by (auto simp: dest: task_with_job_Some)
qed simp

text \<open>The claim is the first \<open>limit\<close> unlocked claimable tasks in order of creation.\<close>

lemma claim_rows_tasks:
  assumes "db_inv d"
  shows "map wTask (claim_rows t0 locked limit d)
    = take limit (filter (\<lambda>t. tID t \<notin> locked)
        (sort_key tCreatedAt (filter (claimable t0) (db_tasks d))))"
proof -
  have "map wTask (sort_key (\<lambda>w. tCreatedAt (wTask w))
          (List.map_filter (task_with_job d) (filter (claimable t0) (db_tasks d))))
      = sort_key tCreatedAt (filter (claimable t0) (db_tasks d))"
    unfolding map_sort_key using assms by (subst map_wTask_joined) auto
  moreover have "map wTask (filter (\<lambda>w. tID (wTask w) \<notin> locked) ws)
      = filter (\<lambda>t. tID t \<notin> locked) (map wTask ws)" for ws :: "TaskWithJob list"
    by (simp add: filter_map comp_def)
  ultimately show ?thesis by (simp only: claim_rows_def take_map [symmetric])
qed

lemma claim_rows_joined: "w \<in> set (claim_rows t0 locked limit d) \<Longrightarrow> task_with_job d (wTask w) = Some w"
  by (auto simp: claim_rows_def List.map_filter_def dest!: in_set_takeD) (metis task_with_job_Some)

text \<open>\<open>batch_ok\<close>: what a batch of claimed tasks is while the claiming transaction holds its rows.\<close>

definition batch_ok :: "TaskWithJob list \<Rightarrow> db \<Rightarrow> bool" where
  "batch_ok ws d \<longleftrightarrow> distinct (map (\<lambda>w. tID (wTask w)) ws)
     \<and> (\<forall>w \<in> set ws. wTask w \<in> set (db_tasks d) \<and> tStatus (wTask w) = TaskStatusPending
          \<and> task_with_job d (wTask w) = Some w)"

lemma claim_rows_batch:
  assumes "db_inv d"
  shows "batch_ok (claim_rows t0 locked limit d) d"
proof -
  have "distinct (map tID (sort_key tCreatedAt (filter (claimable t0) (db_tasks d))))"
    using db_inv_rows [OF assms]
    by (auto simp: rows_ok_def distinct_map intro: inj_on_subset)
  then have "distinct (map tID (map wTask (claim_rows t0 locked limit d)))"
    unfolding claim_rows_tasks [OF assms] by (rule distinct_map_take_filter)
  moreover have "set (map wTask (claim_rows t0 locked limit d)) \<subseteq> {t \<in> set (db_tasks d). claimable t0 t}"
    unfolding claim_rows_tasks [OF assms] by (auto dest: in_set_takeD)
  ultimately show ?thesis
    using claim_rows_joined by (fastforce simp: batch_ok_def claimable_def comp_def)
qed

section \<open>What a batch writes\<close>

lemma ScheduleTask_effect:
  assumes "ScheduleTask env tid nid ep d = Inr d'"
  shows "events_grow d d'" "db_nodes d' = db_nodes d" "db_jobs d' = db_jobs d"
    "db_lease d' = db_lease d" "nid \<in> nID ` set (db_nodes d)"
    "length (filter (\<lambda>t. tID t = tid \<and> tStatus t = TaskStatusPending) (db_tasks d)) = 1"
    "db_tasks d' = update_where (\<lambda>t. tID t = tid \<and> tStatus t = TaskStatusPending)
                     (assign_task env nid ep) (db_tasks d)"
proof -
  let ?hit = "\<lambda>t. tID t = tid \<and> tStatus t = TaskStatusPending"
  let ?d = "d\<lparr>db_tasks := update_where ?hit (assign_task env nid ep) (db_tasks d)\<rparr>"
  from assms obtain w ety evt msg where ins: "insertEvent env w ety tid evt msg ?d = Inr d'"
    and one: "length (filter ?hit (db_tasks d)) = 1" and nid: "nid \<in> nID ` set (db_nodes d)"
    unfolding ScheduleTask_def Let_def by (auto split: if_splits)
  from insertEvent_after [OF ins, of d] one nid
  show "events_grow d d'" "db_nodes d' = db_nodes d" "db_jobs d' = db_jobs d"
    "db_lease d' = db_lease d" "nid \<in> nID ` set (db_nodes d)"
    "length (filter (\<lambda>t. tID t = tid \<and> tStatus t = TaskStatusPending) (db_tasks d)) = 1"
    "db_tasks d' = update_where (\<lambda>t. tID t = tid \<and> tStatus t = TaskStatusPending)
                     (assign_task env nid ep) (db_tasks d)"
    by simp_all
qed

lemma task_ok_assign:
  assumes "task_ok ns js t" "tStatus t = TaskStatusPending"
    and "n \<in> set ns" "nID n = nid" "ep \<le> nEpoch n"
  shows "task_ok ns js (assign_task env nid ep t)"
  using assms by (auto simp: task_ok_def retries_ok_def assigned_ok_def assign_task_def)

lemma ScheduleTask_inv:
  assumes "ScheduleTask env tid nid ep d = Inr d'" and "db_inv d"
    and "n \<in> set (db_nodes d)" "nID n = nid" "ep \<le> nEpoch n"
  shows "db_inv d'"
proof -
  note eff = ScheduleTask_effect [OF assms(1)]
  have "rows_ok (db_nodes d') (db_jobs d') (db_tasks d')"
    unfolding eff(2,3,7)
    by (rule rows_ok_update_tasks [OF db_inv_rows [OF assms(2)]])
       (use assms(3-5) in \<open>auto simp: row_simps intro: task_ok_assign\<close>)
  with assms(2) eff(1) show ?thesis by (rule db_invI)
qed

lemma task_with_job_jobs: "db_jobs d' = db_jobs d \<Longrightarrow> task_with_job d' = task_with_job d"
  by (simp add: task_with_job_def fun_eq_iff)

lemma batch_ok_rest:
  assumes "batch_ok (w # ws) d" and "ScheduleTask env (tID (wTask w)) nid ep d = Inr d'"
  shows "batch_ok ws d'"
proof -
  note eff = ScheduleTask_effect [OF assms(2)]
  have "wTask v \<in> set (db_tasks d')" if "v \<in> set ws" for v
  proof -
    from that assms(1) have "wTask v \<in> set (db_tasks d)" "tID (wTask v) \<noteq> tID (wTask w)"
      by (auto simp: batch_ok_def rev_image_eqI)
    then show ?thesis unfolding eff(7) set_update_where by (intro image_eqI [of _ _ "wTask v"]) auto
  qed
  with assms(1) show ?thesis by (simp add: batch_ok_def task_with_job_jobs [OF eff(3)])
qed

text \<open>
  How one task row may change in a batch: not at all, or from pending to scheduled on a node of the
  snapshot that passed the filters, under the epoch the snapshot has for it.
\<close>

definition placed_on :: "dbenv \<Rightarrow> TaskWithJob list \<Rightarrow> Node list \<Rightarrow> Task \<Rightarrow> Task \<Rightarrow> bool" where
  "placed_on env ws nodes t t' \<longleftrightarrow> tStatus t = TaskStatusPending
     \<and> (\<exists>w \<in> set ws. \<exists>n \<in> set nodes. tID (wTask w) = tID t
          \<and> t' = assign_task env (nID n) (nEpoch n) t \<and> nStatus n = NodeStatusReady
          \<and> Passes LabelSelectorFilter \<lparr>vNode = n, vAlloc = zero_alloc\<rparr> w)"

definition batch_rows :: "dbenv \<Rightarrow> TaskWithJob list \<Rightarrow> Node list \<Rightarrow> Task list \<Rightarrow> Task list \<Rightarrow> bool" where
  "batch_rows env ws nodes =
     list_all2 (\<lambda>t t'. t' = t \<or> placed_on env ws nodes t t')"

lemma batch_rows_refl [simp]: "batch_rows env ws nodes ts ts"
  by (simp add: batch_rows_def list_all2_same)

lemma Place_default:
  assumes "Place rnd nodes allocs w (Some DefaultFilters) sc = Some n"
  shows "n \<in> set nodes" "nStatus n = NodeStatusReady"
    "wCPURequestMillicores w \<le> FreeCPUMillicores (view_of allocs n)"
    "wMemRequestMB w \<le> FreeMemMB (view_of allocs n)"
    "Passes LabelSelectorFilter \<lparr>vNode = n, vAlloc = zero_alloc\<rparr> w"
proof -
  from assms have "Place rnd nodes allocs w (Some DefaultFilters)
      (Some (case sc of None \<Rightarrow> BinPackScorer | Some s \<Rightarrow> s)) = Some n"
    by (simp add: Place_def Let_def)
  then have "n \<in> set nodes" "eligible DefaultFilters allocs w n"
    using Place_spec by blast+
  then show "n \<in> set nodes" "nStatus n = NodeStatusReady"
    "wCPURequestMillicores w \<le> FreeCPUMillicores (view_of allocs n)"
    "wMemRequestMB w \<le> FreeMemMB (view_of allocs n)"
    "Passes LabelSelectorFilter \<lparr>vNode = n, vAlloc = zero_alloc\<rparr> w"
    by (auto simp: eligible_def DefaultFilters_def view_of_def split: if_splits)
qed

lemma batch_rows_step:
  assumes "batch_rows env (w # ws) nodes ts us" and "batch_rows env ws nodes us vs"
  shows "batch_rows env (w # ws) nodes ts vs"
  using assms unfolding batch_rows_def
  by (rule list_all2_trans [rotated]) (auto simp: placed_on_def assign_task_def simp del: Passes.simps)

lemma batch_rows_skip: "batch_rows env ws nodes ts us \<Longrightarrow> batch_rows env (w # ws) nodes ts us"
  unfolding batch_rows_def by (erule list_all2_mono) (auto simp: placed_on_def simp del: Passes.simps)

lemma batch_rows_place:
  assumes "n \<in> set nodes" "nStatus n = NodeStatusReady"
    and "Passes LabelSelectorFilter \<lparr>vNode = n, vAlloc = zero_alloc\<rparr> w"
  shows "batch_rows env (w # ws) nodes ts
    (update_where (\<lambda>t. tID t = tID (wTask w) \<and> tStatus t = TaskStatusPending)
       (assign_task env (nID n) (nEpoch n)) ts)"
  using assms unfolding batch_rows_def
  by (induction ts) (auto simp: placed_on_def simp del: Passes.simps)

lemma place_tasks_rows:
  "place_tasks rnd env nodes alloc ws d = Inr (k, d') \<Longrightarrow> db_inv d \<Longrightarrow> batch_ok ws d \<Longrightarrow>
   epochs_le nodes (db_nodes d) \<Longrightarrow>
     db_inv d' \<and> db_nodes d' = db_nodes d \<and> db_jobs d' = db_jobs d \<and> db_lease d' = db_lease d
     \<and> events_grow d d' \<and> batch_rows env ws nodes (db_tasks d) (db_tasks d')
     \<and> db_event_seq d' = db_event_seq d + int k"
proof (induction ws arbitrary: alloc d k)
  case Nil
  then show ?case by simp
next
  case (Cons w ws)
  let ?place = "Place rnd nodes alloc w (Some DefaultFilters)
    (Some (ScorerForPolicy (wSchedulingPolicy w)))"
  show ?case
  proof (cases ?place)
    case None
    from Cons.prems None have "place_tasks rnd env nodes alloc ws d = Inr (k, d')" by simp
    moreover from Cons.prems(3) have "batch_ok ws d" by (simp add: batch_ok_def)
    ultimately show ?thesis using Cons.IH Cons.prems(2,4) batch_rows_skip by blast
  next
    case (Some n)
    with Cons.prems(1) obtain d1 k1 where
      sch: "ScheduleTask env (tID (wTask w)) (nID n) (nEpoch n) d = Inr d1"
      and rec: "place_tasks rnd env nodes
             (alloc(nID n \<mapsto> add_alloc (alloc_at alloc (nID n)) w)) ws d1 = Inr (k1, d')"
      and k: "k = Suc k1"
      by (auto split: sum.splits)
    note eff = ScheduleTask_effect [OF sch] and pl = Place_default [OF Some]
    from pl(1) Cons.prems(4) obtain m where
      m: "m \<in> set (db_nodes d)" "nID m = nID n" "nEpoch n \<le> nEpoch m"
      by (auto simp: epochs_le_def)
    have "db_event_seq d1 = db_event_seq d + 1"
      using sch by (auto simp: ScheduleTask_def Let_def insertEvent_Inr split: if_splits)
    moreover have "batch_rows env (w # ws) nodes (db_tasks d) (db_tasks d1)"
      unfolding eff(7) by (rule batch_rows_place [OF pl(1,2,5)])
    moreover note Cons.IH [OF rec ScheduleTask_inv [OF sch Cons.prems(2) m]
        batch_ok_rest [OF Cons.prems(3) sch]] Cons.prems(4)
    ultimately show ?thesis
      using eff(1-4) k by (auto intro: events_grow_trans batch_rows_step)
  qed
qed

section \<open>No overcommit\<close>

text \<open>The resources the tasks of a node hold, and the allocation the database reports for it.\<close>

definition cpu_held :: "db \<Rightarrow> string \<Rightarrow> int" where
  "cpu_held d nid = aCPUMillicores (sum_alloc (joined_on nid d))"

definition mem_held :: "db \<Rightarrow> string \<Rightarrow> int" where
  "mem_held d nid = aMemoryMB (sum_alloc (joined_on nid d))"

definition fits :: "db \<Rightarrow> Node \<Rightarrow> bool" where
  "fits d n \<longleftrightarrow> cpu_held d (nID n) \<le> nCPUCapacityMillicores n
     \<and> mem_held d (nID n) \<le> nMemCapacityMB n"

definition held_row :: "(TaskWithJob \<Rightarrow> int) \<Rightarrow> db \<Rightarrow> string \<Rightarrow> Task \<Rightarrow> int" where
  "held_row sel d nid t =
     (if occupies nid t then (case task_with_job d t of None \<Rightarrow> 0 | Some w \<Rightarrow> sel w) else 0)"

lemma held_sum:
  "cpu_held d nid = sum_list (map (held_row wCPURequestMillicores d nid) (db_tasks d))"
  "mem_held d nid = sum_list (map (held_row wMemRequestMB d nid) (db_tasks d))"
  unfolding cpu_held_def mem_held_def sum_alloc_def joined_on_def held_row_def
  by (simp_all add: sum_list_map_filter_option sum_list_map_filter_if)

lemma task_with_job_assign:
  "task_with_job d t = Some w \<Longrightarrow>
     \<exists>w'. task_with_job d (assign_task env nid ep t) = Some w'
       \<and> wCPURequestMillicores w' = wCPURequestMillicores w \<and> wMemRequestMB w' = wMemRequestMB w"
  by (auto simp: task_with_job_def assign_task_def)

lemma held_after_schedule:
  assumes sch: "ScheduleTask env (tID (wTask w)) nid ep d = Inr d'"
    and inv: "db_inv d" and batch: "batch_ok (w # ws) d"
  shows "cpu_held d' m = cpu_held d m + (if m = nid then wCPURequestMillicores w else 0)"
    and "mem_held d' m = mem_held d m + (if m = nid then wMemRequestMB w else 0)"
proof -
  note eff = ScheduleTask_effect [OF sch]
  let ?hit = "\<lambda>t. tID t = tID (wTask w) \<and> tStatus t = TaskStatusPending"
  from batch have t: "wTask w \<in> set (db_tasks d)" "tStatus (wTask w) = TaskStatusPending"
    and w: "task_with_job d (wTask w) = Some w" by (auto simp: batch_ok_def)
  have "filter (\<lambda>t. tID t = tID (wTask w)) (db_tasks d) = [wTask w]"
    by (rule filter_one_key) (use t db_inv_rows [OF inv] in \<open>auto simp: rows_ok_def\<close>)
  moreover have "filter ?hit (db_tasks d) = filter (\<lambda>t. tStatus t = TaskStatusPending)
      (filter (\<lambda>t. tID t = tID (wTask w)) (db_tasks d))" by simp
  ultimately have one: "filter ?hit (db_tasks d) = [wTask w]" using t(2) by simp
  have jobs: "held_row sel d' = held_row sel d" for sel
    by (simp add: held_row_def task_with_job_jobs [OF eff(3)] fun_eq_iff)
  have idle: "held_row sel d m (wTask w) = 0" for sel
    using t(2) by (simp add: held_row_def occupies_def)
  have "occupies m (assign_task env nid ep (wTask w)) \<longleftrightarrow> m = nid"
    by (auto simp: occupies_def assign_task_def)
  with task_with_job_assign [OF w, of env nid ep]
  have "held_row wCPURequestMillicores d m (assign_task env nid ep (wTask w))
      = (if m = nid then wCPURequestMillicores w else 0)"
    and "held_row wMemRequestMB d m (assign_task env nid ep (wTask w))
      = (if m = nid then wMemRequestMB w else 0)"
    by (auto simp: held_row_def)
  then show "cpu_held d' m = cpu_held d m + (if m = nid then wCPURequestMillicores w else 0)"
    and "mem_held d' m = mem_held d m + (if m = nid then wMemRequestMB w else 0)"
    unfolding held_sum eff(7) jobs sum_list_update_one [OF one] by (simp_all add: idle)
qed

text \<open>
  The engine's running allocation agrees with the database on every node of the snapshot, and all
  its sums fit an \<open>int64\<close>.
\<close>

definition alloc_exact :: "alloc_map \<Rightarrow> Node list \<Rightarrow> db \<Rightarrow> bool" where
  "alloc_exact alloc nodes d \<longleftrightarrow>
     (\<forall>n \<in> set nodes. alloc_at alloc (nID n)
          = \<lparr>aCPUMillicores = cpu_held d (nID n), aMemoryMB = mem_held d (nID n)\<rparr>
        \<and> 0 \<le> cpu_held d (nID n) \<and> in_i64 (cpu_held d (nID n))
        \<and> 0 \<le> mem_held d (nID n) \<and> in_i64 (mem_held d (nID n)))"

definition caps_ok :: "Node list \<Rightarrow> bool" where
  "caps_ok nodes \<longleftrightarrow> (\<forall>n \<in> set nodes. 0 \<le> nCPUCapacityMillicores n \<and> 0 \<le> nMemCapacityMB n
     \<and> in_i64 (nCPUCapacityMillicores n) \<and> in_i64 (nMemCapacityMB n))"

lemma free_exact:
  assumes "0 \<le> cap" "in_i64 cap" "0 \<le> a" "in_i64 a"
  shows "i64 (cap - a) = cap - a"
  using assms by (intro i64_id) (simp add: in_i64_def)

lemma batch_requests_pos:
  assumes "batch_ok (w # ws) d" and "db_inv d"
  shows "0 < wCPURequestMillicores w" "0 < wMemRequestMB w"
proof -
  from assms(1) have "task_with_job d (wTask w) = Some w" by (simp add: batch_ok_def)
  then obtain j where "j \<in> set (db_jobs d)" "wCPURequestMillicores w = jCPURequestMillicores j"
    "wMemRequestMB w = jMemRequestMB j" by (blast dest: task_with_job_Some)
  with db_inv_rows [OF assms(2)] show "0 < wCPURequestMillicores w" "0 < wMemRequestMB w"
    by (auto simp: rows_ok_def job_row_ok_def)
qed

text \<open>One placement keeps the running allocation exact, and the chosen node fits.\<close>

lemma placement_exact:
  assumes pl: "Place rnd nodes alloc w (Some DefaultFilters) sc = Some n"
    and sch: "ScheduleTask env (tID (wTask w)) (nID n) ep d = Inr d1"
    and inv: "db_inv d" and batch: "batch_ok (w # ws) d"
    and exact: "alloc_exact alloc nodes d" and caps: "caps_ok nodes"
  shows "alloc_exact (alloc(nID n \<mapsto> add_alloc (alloc_at alloc (nID n)) w)) nodes d1"
    and "fits d1 n"
proof -
  note pos = batch_requests_pos [OF batch inv] and held = held_after_schedule [OF sch inv batch]
    and p = Place_default [OF pl]
  from p(1) caps have cap: "0 \<le> nCPUCapacityMillicores n" "in_i64 (nCPUCapacityMillicores n)"
    "0 \<le> nMemCapacityMB n" "in_i64 (nMemCapacityMB n)" by (auto simp: caps_ok_def)
  from p(1) exact have at: "alloc_at alloc (nID n)
      = \<lparr>aCPUMillicores = cpu_held d (nID n), aMemoryMB = mem_held d (nID n)\<rparr>"
    and h: "0 \<le> cpu_held d (nID n)" "in_i64 (cpu_held d (nID n))"
      "0 \<le> mem_held d (nID n)" "in_i64 (mem_held d (nID n))"
    by (auto simp: alloc_exact_def)
  from p(3,4) at free_exact [OF cap(1,2) h(1,2)] free_exact [OF cap(3,4) h(3,4)]
  have room: "cpu_held d (nID n) + wCPURequestMillicores w \<le> nCPUCapacityMillicores n"
    "mem_held d (nID n) + wMemRequestMB w \<le> nMemCapacityMB n"
    by (simp_all add: FreeCPUMillicores_def FreeMemMB_def view_of_def)
  then show "fits d1 n" by (simp add: fits_def held)
  from room pos h cap have new: "in_i64 (cpu_held d (nID n) + wCPURequestMillicores w)"
    "in_i64 (mem_held d (nID n) + wMemRequestMB w)" by (simp_all add: in_i64_def)
  then have add: "add_alloc (alloc_at alloc (nID n)) w
      = \<lparr>aCPUMillicores = cpu_held d1 (nID n), aMemoryMB = mem_held d1 (nID n)\<rparr>"
    by (simp add: add_alloc_def at held i64_id)
  show "alloc_exact (alloc(nID n \<mapsto> add_alloc (alloc_at alloc (nID n)) w)) nodes d1"
    unfolding alloc_exact_def
  proof
    fix m assume m: "m \<in> set nodes"
    show "alloc_at (alloc(nID n \<mapsto> add_alloc (alloc_at alloc (nID n)) w)) (nID m)
          = \<lparr>aCPUMillicores = cpu_held d1 (nID m), aMemoryMB = mem_held d1 (nID m)\<rparr>
        \<and> 0 \<le> cpu_held d1 (nID m) \<and> in_i64 (cpu_held d1 (nID m))
        \<and> 0 \<le> mem_held d1 (nID m) \<and> in_i64 (mem_held d1 (nID m))"
    proof (cases "nID m = nID n")
      case True
      with add new h pos show ?thesis by (simp add: alloc_at_def held)
    next
      case False
      then have "alloc_at (alloc(nID n \<mapsto> x)) (nID m) = alloc_at alloc (nID m)" for x
        by (simp add: alloc_at_def)
      with False exact m show ?thesis by (simp add: alloc_exact_def held)
    qed
  qed
qed

lemma fits_mono:
  "cpu_held d' (nID n) = cpu_held d (nID n) \<Longrightarrow> mem_held d' (nID n) = mem_held d (nID n) \<Longrightarrow>
     fits d' n = fits d n"
  by (simp add: fits_def)

text \<open>
  A placed batch leaves the usage of a node alone or leaves the node within its capacity.
\<close>

definition usage_ok :: "db \<Rightarrow> db \<Rightarrow> Node \<Rightarrow> bool" where
  "usage_ok d d' n \<longleftrightarrow>
     (cpu_held d' (nID n) = cpu_held d (nID n) \<and> mem_held d' (nID n) = mem_held d (nID n))
     \<or> fits d' n"

lemma usage_ok_trans: "usage_ok a b n \<Longrightarrow> usage_ok b c n \<Longrightarrow> usage_ok a c n"
  by (auto simp: usage_ok_def fits_def)

lemma place_tasks_usage:
  "place_tasks rnd env nodes alloc ws d = Inr (k, d') \<Longrightarrow> db_inv d \<Longrightarrow> batch_ok ws d \<Longrightarrow>
   epochs_le nodes (db_nodes d) \<Longrightarrow> alloc_exact alloc nodes d \<Longrightarrow> caps_ok nodes \<Longrightarrow>
   distinct (map nID nodes) \<Longrightarrow>
     (\<forall>n \<in> set nodes. usage_ok d d' n)
     \<and> (\<forall>m. m \<notin> nID ` set nodes \<longrightarrow> cpu_held d' m = cpu_held d m \<and> mem_held d' m = mem_held d m)"
proof (induction ws arbitrary: alloc d k)
  case Nil
  then show ?case by (simp add: usage_ok_def)
next
  case (Cons w ws)
  let ?place = "Place rnd nodes alloc w (Some DefaultFilters)
    (Some (ScorerForPolicy (wSchedulingPolicy w)))"
  show ?case
  proof (cases ?place)
    case None
    from Cons.prems None have "place_tasks rnd env nodes alloc ws d = Inr (k, d')" by simp
    moreover from Cons.prems(3) have "batch_ok ws d" by (simp add: batch_ok_def)
    ultimately show ?thesis using Cons.IH Cons.prems by blast
  next
    case (Some n)
    with Cons.prems(1) obtain d1 k1 where
      sch: "ScheduleTask env (tID (wTask w)) (nID n) (nEpoch n) d = Inr d1"
      and rec: "place_tasks rnd env nodes
             (alloc(nID n \<mapsto> add_alloc (alloc_at alloc (nID n)) w)) ws d1 = Inr (k1, d')"
      by (auto split: sum.splits)
    note eff = ScheduleTask_effect [OF sch] and pl = Place_default [OF Some]
    note held = held_after_schedule [OF sch Cons.prems(2,3)]
    from pl(1) Cons.prems(4) obtain m where
      m: "m \<in> set (db_nodes d)" "nID m = nID n" "nEpoch n \<le> nEpoch m"
      by (auto simp: epochs_le_def)
    note ex = placement_exact [OF Some sch Cons.prems(2,3,5,6)]
    have "usage_ok d d1 i" if "i \<in> set nodes" for i
    proof (cases "nID i = nID n")
      case True
      with that pl(1) Cons.prems(7) have "i = n" by (auto simp: distinct_map dest: inj_onD)
      with ex(2) show ?thesis by (simp add: usage_ok_def)
    qed (simp add: usage_ok_def held)
    moreover note Cons.IH [OF rec ScheduleTask_inv [OF sch Cons.prems(2) m]
        batch_ok_rest [OF Cons.prems(3) sch] _ ex(1) Cons.prems(6,7)]
    ultimately show ?thesis
      using Cons.prems(4) eff(2) pl(1) by (auto simp: held intro: usage_ok_trans)
  qed
qed

section \<open>The tick\<close>

text \<open>The snapshot a tick places on, when its reads succeed.\<close>

definition active_nodes :: "db \<Rightarrow> Node list" where
  "active_nodes d = sort_key nCreatedAt
     (filter (\<lambda>n. nStatus n \<notin> {NodeStatusDead, NodeStatusCordoned}) (db_nodes d))"

lemma active_nodes_subset: "set (active_nodes d) \<subseteq> set (db_nodes d)"
  by (auto simp: active_nodes_def)

lemma active_nodes_distinct: "db_inv d \<Longrightarrow> distinct (map nID (active_nodes d))"
  using db_inv_rows [of d]
  by (auto simp: active_nodes_def rows_ok_def distinct_map intro: inj_on_subset)

lemma active_nodes_epochs: "epochs_le (active_nodes d) (db_nodes d)"
  using active_nodes_subset by (fastforce simp: epochs_le_def)

lemma ListActiveNodes_Inr: "ListActiveNodes env d = Inr ns \<longleftrightarrow>
    \<not> db_fault env ''store: list active nodes'' \<and> ns = active_nodes d"
  by (simp add: ListActiveNodes_def pool_query_Inr active_nodes_def)

lemma held_nonneg:
  assumes "db_inv d"
  shows "0 \<le> cpu_held d nid" "0 \<le> mem_held d nid"
proof -
  have "0 \<le> wCPURequestMillicores w \<and> 0 \<le> wMemRequestMB w" if "task_with_job d t = Some w" for t w
    using task_with_job_Some [OF that] db_inv_rows [OF assms]
    by (fastforce simp: rows_ok_def job_row_ok_def)
  then show "0 \<le> cpu_held d nid" "0 \<le> mem_held d nid"
    unfolding held_sum by (auto intro!: sum_list_nonneg simp: held_row_def split: option.splits)
qed

lemma GetNodeAllocations_exact:
  assumes "GetNodeAllocations env d = Inr allocs" and "db_inv d"
  shows "alloc_exact allocs (active_nodes d) d"
proof -
  from assms(1) have scans: "\<forall>n \<in> set (db_nodes d). alloc_scans (sum_alloc (joined_on (nID n) d))"
    and allocs: "allocs = (\<lambda>nid. let ws = joined_on nid d in if ws = [] then None else Some (sum_alloc ws))"
    by (auto simp: GetNodeAllocations_def pool_query_Inr list_all_iff split: if_splits)
  have "alloc_at allocs nid = sum_alloc (joined_on nid d)" for nid
    by (simp add: allocs alloc_at_def Let_def sum_alloc_def zero_alloc_def)
  then show ?thesis
    using scans active_nodes_subset [of d] held_nonneg [OF assms(2)]
    by (auto simp: alloc_exact_def cpu_held_def mem_held_def alloc_scans_def)
qed

text \<open>A tick that changed the database placed its claim on a fresh snapshot.\<close>

lemma engine_tick_cases:
  assumes "engine_tick rnd g env locked d = (r, d')"
  obtains (idle) "d' = d"
  | (placed) allocs k where "gate_open g" "r = Inr k" "GetNodeAllocations env d = Inr allocs"
      "place_tasks rnd env (active_nodes d) allocs
         (claim_rows (db_now env) locked defaultClaimLimit d) d = Inr (k, d')"
  using assms
  by (auto simp: engine_tick_def place_batch_def ClaimPendingTasksForScheduling_def pool_query_Inr
                 ListActiveNodes_Inr
           split: if_splits sum.splits)

lemma engine_tick_keeps:
  assumes "db_inv d" and "engine_tick rnd g env locked d = (r, d')"
  shows "db_inv d'" "db_nodes d' = db_nodes d" "db_jobs d' = db_jobs d" "db_lease d' = db_lease d"
    "events_grow d d'"
    "batch_rows env (claim_rows (db_now env) locked defaultClaimLimit d) (active_nodes d)
       (db_tasks d) (db_tasks d')"
  using assms(2)
  by (cases rule: engine_tick_cases;
      use assms(1) place_tasks_rows [OF _ assms(1) claim_rows_batch [OF assms(1)] active_nodes_epochs]
      in \<open>force\<close>)+

lemma engine_tick_usage:
  assumes "db_inv d" and "caps_ok (db_nodes d)" and "engine_tick rnd g env locked d = (r, d')"
    and "n \<in> set (db_nodes d)"
  shows "usage_ok d d' n"
  using assms(3)
proof (cases rule: engine_tick_cases)
  case idle
  then show ?thesis by (simp add: usage_ok_def)
next
  case (placed allocs k)
  have "caps_ok (active_nodes d)" using assms(2) active_nodes_subset by (fastforce simp: caps_ok_def)
  note use = place_tasks_usage [OF placed(4) assms(1) claim_rows_batch [OF assms(1)]
      active_nodes_epochs GetNodeAllocations_exact [OF placed(3) assms(1)] this
      active_nodes_distinct [OF assms(1)]]
  show ?thesis
  proof (cases "nID n \<in> nID ` set (active_nodes d)")
    case True
    then have "n \<in> set (active_nodes d)"
      using rows_ok_node_unique [OF db_inv_rows [OF assms(1)] assms(4)] active_nodes_subset by blast
    with use show ?thesis by blast
  qed (use use in \<open>simp add: usage_ok_def\<close>)
qed

section \<open>Progress\<close>

lemma ScheduleTask_succeeds:
  assumes "db_inv d" "batch_ok (w # ws) d" "nid \<in> nID ` set (db_nodes d)" "\<not> (\<exists>s. db_fault env s)"
  shows "\<exists>d'. ScheduleTask env (tID (wTask w)) nid ep d = Inr d'"
proof -
  from assms(2) have t: "wTask w \<in> set (db_tasks d)" "tStatus (wTask w) = TaskStatusPending"
    by (auto simp: batch_ok_def)
  have "filter (\<lambda>t. tID t = tID (wTask w)) (db_tasks d) = [wTask w]"
    by (rule filter_one_key) (use t db_inv_rows [OF assms(1)] in \<open>auto simp: rows_ok_def\<close>)
  moreover have "filter (\<lambda>t. tID t = tID (wTask w) \<and> tStatus t = TaskStatusPending) (db_tasks d)
      = filter (\<lambda>t. tStatus t = TaskStatusPending)
          (filter (\<lambda>t. tID t = tID (wTask w)) (db_tasks d))" by simp
  ultimately have "filter (\<lambda>t. tID t = tID (wTask w) \<and> tStatus t = TaskStatusPending) (db_tasks d)
      = [wTask w]" using t(2) by simp
  with assms(3,4) show ?thesis by (simp add: ScheduleTask_def insertEvent_def)
qed

lemma place_tasks_progress:
  "db_inv d \<Longrightarrow> batch_ok ws d \<Longrightarrow> set nodes \<subseteq> set (db_nodes d) \<Longrightarrow> \<not> (\<exists>s. db_fault env s) \<Longrightarrow>
     \<exists>k d'. place_tasks rnd env nodes alloc ws d = Inr (k, d')
       \<and> (k = 0 \<longrightarrow> d' = d \<and> (\<forall>w \<in> set ws. \<forall>n \<in> set nodes. \<not> eligible DefaultFilters alloc w n))"
proof (induction ws arbitrary: alloc d)
  case Nil
  then show ?case by simp
next
  case (Cons w ws)
  let ?place = "Place rnd nodes alloc w (Some DefaultFilters)
    (Some (ScorerForPolicy (wSchedulingPolicy w)))"
  show ?case
  proof (cases ?place)
    case None
    then have "\<forall>n \<in> set nodes. \<not> eligible DefaultFilters alloc w n" using Place_spec by blast
    moreover from Cons.prems(2) have "batch_ok ws d" by (simp add: batch_ok_def)
    ultimately show ?thesis using Cons.IH [of d alloc] Cons.prems None by auto
  next
    case (Some n)
    note pl = Place_default [OF Some]
    with Cons.prems(3) have n: "n \<in> set (db_nodes d)" by blast
    then obtain d1 where sch: "ScheduleTask env (tID (wTask w)) (nID n) (nEpoch n) d = Inr d1"
      using ScheduleTask_succeeds [OF Cons.prems(1,2) _ Cons.prems(4)] by blast
    note eff = ScheduleTask_effect [OF sch]
    have "db_inv d1" by (rule ScheduleTask_inv [OF sch Cons.prems(1) n refl order_refl])
    moreover have "set nodes \<subseteq> set (db_nodes d1)" using Cons.prems(3) by (simp add: eff(2))
    ultimately obtain k d' where "place_tasks rnd env nodes
        (alloc(nID n \<mapsto> add_alloc (alloc_at alloc (nID n)) w)) ws d1 = Inr (k, d')"
      using Cons.IH [OF _ batch_ok_rest [OF Cons.prems(2) sch] _ Cons.prems(4)] by blast
    with Some sch have "place_tasks rnd env nodes alloc (w # ws) d = Inr (Suc k, d')" by simp
    then show ?thesis by blast
  qed
qed

section \<open>Properties\<close>


lemma sample_caps: "caps_ok (db_nodes sample_db)"
  by (simp add: caps_ok_def in_i64_def sample_rows)




lemma engine_tick_places:
  assumes "db_inv d" and "gate_open g" and "\<not> (\<exists>s. db_fault env s)"
    and "list_all (\<lambda>n. alloc_scans (sum_alloc (joined_on (nID n) d))) (db_nodes d)"
  shows "\<exists>k d' allocs. GetNodeAllocations env d = Inr allocs
    \<and> engine_tick rnd g env locked d = (Inr k, d')
    \<and> (k = 0 \<longrightarrow> d' = d \<and>
         (\<forall>w \<in> set (claim_rows (db_now env) locked defaultClaimLimit d).
            \<forall>n \<in> set (active_nodes d). \<not> eligible DefaultFilters allocs w n))"
proof -
  let ?ws = "claim_rows (db_now env) locked defaultClaimLimit d"
  have allocs: "\<exists>allocs. GetNodeAllocations env d = Inr allocs"
    using assms(3,4) by (simp add: GetNodeAllocations_def pool_query_Inr)
  then obtain allocs where a: "GetNodeAllocations env d = Inr allocs" by blast
  obtain k d' where p: "place_tasks rnd env (active_nodes d) allocs ?ws d = Inr (k, d')"
    and z: "k = 0 \<longrightarrow> d' = d \<and> (\<forall>w \<in> set ?ws. \<forall>n \<in> set (active_nodes d).
              \<not> eligible DefaultFilters allocs w n)"
    using place_tasks_progress [OF assms(1) claim_rows_batch [OF assms(1)] active_nodes_subset assms(3)]
    by blast
  have "engine_tick rnd g env locked d = (Inr k, d')"
    using assms(2,3) a p
    by (auto simp: engine_tick_def ClaimPendingTasksForScheduling_def pool_query_def place_batch_def
          ListActiveNodes_def active_nodes_def)
  with a z show ?thesis by blast
qed

text \<open>
  Progress. On a leader whose database fails no statement, with sums in the range of
  \<open>int64\<close>, the tick succeeds; when it places nothing it changed nothing and no claimed task has a
  node that passes the filters.
\<close>

theorem engine_tick_progress:
  assumes "db_inv d" and "gate_open g" and "\<not> (\<exists>s. db_fault env s)"
    and "list_all (\<lambda>n. alloc_scans (sum_alloc (joined_on (nID n) d))) (db_nodes d)"
  shows "\<exists>k d' allocs. GetNodeAllocations env d = Inr allocs
    \<and> engine_tick rnd g env locked d = (Inr k, d')
    \<and> (k = 0 \<longrightarrow> d' = d \<and>
         (\<forall>w \<in> set (claim_rows (db_now env) locked defaultClaimLimit d).
            \<forall>n \<in> set (active_nodes d). \<not> eligible DefaultFilters allocs w n))"
  by (rule engine_tick_places [OF assms])

theorem engine_tick_progress_witness:
  "\<exists>k d' allocs. GetNodeAllocations sample_env sample_db = Inr allocs
    \<and> engine_tick (\<lambda>x. x) None sample_env {} sample_db = (Inr k, d')
    \<and> (k = 0 \<longrightarrow> d' = sample_db \<and>
         (\<forall>w \<in> set (claim_rows (db_now sample_env) {} defaultClaimLimit sample_db).
            \<forall>n \<in> set (active_nodes sample_db). \<not> eligible DefaultFilters allocs w n))"
  by (rule engine_tick_progress) (simp_all, code_simp)

text \<open>
  The claim is first-come first-served. It is the first \<open>limit\<close> of the claimable tasks (pending,
  backoff elapsed) that no other transaction holds, in order of creation, each joined with its job.
\<close>

theorem claim_fifo:
  assumes "db_inv d" and "\<not> db_fault env ''store: claim pending tasks: begin tx''"
    and "\<not> db_fault env ''store: claim pending tasks''"
  shows "\<exists>ws. ClaimPendingTasksForScheduling env locked limit d = Inr ws
    \<and> map wTask ws = take limit (filter (\<lambda>t. tID t \<notin> locked)
        (sort_key tCreatedAt (filter (claimable (db_now env)) (db_tasks d))))
    \<and> map (task_with_job d) (map wTask ws) = map Some ws"
  using assms claim_rows_tasks [OF assms(1)] claim_rows_joined
  by (auto simp: ClaimPendingTasksForScheduling_def pool_query_def)

theorem claim_fifo_witness:
  "\<exists>ws. ClaimPendingTasksForScheduling sample_env {} 50 sample_db = Inr ws
    \<and> map wTask ws = [task_row ''t3'']
    \<and> map (task_with_job sample_db) (map wTask ws) = map Some ws"
proof -
  have "take 50 (filter (\<lambda>t. tID t \<notin> {}) (sort_key tCreatedAt
      (filter (claimable (db_now sample_env)) (db_tasks sample_db)))) = [task_row ''t3'']"
    by (simp add: claimable_def task_running_def task_scheduled_def task_row_def)
  with claim_fifo [OF sample_inv, of sample_env "{}" 50] show ?thesis by auto
qed

end
