(* ===== verification/Store_Props.thy ===== *)
theory Store_Props
  imports Sample_Cluster
begin

text \<open>
  What the repository methods of \<^verbatim>\<open>src/internal/store\<close> do on every branch: the fence in front of
  the status reports, the transition table the reports implement, the retry budget, the absorbing
  terminal states, the death of a node, registration and job creation. Each theorem is stated for
  an arbitrary database state; \<open>healthy env\<close> says that the database fails no statement.
\<close>

definition healthy :: "dbenv \<Rightarrow> bool" where
  "healthy env \<longleftrightarrow> (\<forall>s. \<not> db_fault env s)"

lemma healthyD [simp]: "healthy env \<Longrightarrow> \<not> db_fault env s"
  by (simp add: healthy_def)

lemma healthy_sample [simp]: "healthy sample_env"
  by (simp add: healthy_def)

lemma healthy_in_tx:
  "healthy env \<Longrightarrow> in_tx env w body d
     = (case body d of Inl e \<Rightarrow> (Inl e, d) | Inr (r, d') \<Rightarrow> (Inr r, d'))"
  by (auto simp: in_tx_def split: sum.splits)

section \<open>Reports\<close>

lemma fence_refuses:
  assumes "find (\<lambda>t. tID t = uTaskID p) (db_tasks d) = Some t"
    and "uNodeID p \<noteq> []"
    and "tAssignedNodeID t \<noteq> Some (uNodeID p) \<or> tAssignedEpoch t \<noteq> Some (uEpoch p)"
    and "\<not> db_fault env ''store: update task status: begin tx''"
    and "\<not> db_fault env ''store: update task status''"
  shows "UpdateTaskStatus env p d = (Inl ErrStaleTaskReport, d)"
  using assms by (auto simp: UpdateTaskStatus_def in_tx_def checkTaskReportFence_def)


definition zombie_report :: UpdateTaskStatusParams where
  "zombie_report = \<lparr>uTaskID = ''t1'', uStatus = TaskStatusSucceeded, uExitCode = Some 0,
     uError = [], uNodeID = ''n1'', uEpoch = 2\<rparr>"


lemma mark_terminal_total:
  "healthy env \<Longrightarrow> \<exists>d'. mark_terminal env p t le d
     = Inr (terminal_row env (uStatus p) (uExitCode p) le t, d')"
  by (simp add: mark_terminal_def Let_def insertEvent_def)

lemma requeueFailedTask_total:
  "healthy env \<Longrightarrow> \<exists>d'. requeueFailedTask env t c le d
     = Inr (requeue_failed_row env (i32 (tRetriesUsed t + 1))
              (retryBackoff (i32 (tRetriesUsed t + 1))) c le t, d')"
  by (simp add: requeueFailedTask_def Let_def insertEvent_def)

lemma report_running_total:
  "healthy env \<Longrightarrow> tStatus t \<in> {TaskStatusScheduled, TaskStatusRunning} \<Longrightarrow>
     \<exists>d'. report_running env t d = Inr (running_row env t, d')"
  by (auto simp: report_running_def Let_def insertEvent_def)

text \<open>The body of the transaction accepts exactly the reports the table accepts.\<close>

lemma report_body_total:
  assumes "healthy env" and lim: "job_limit d t = Some limit"
    and "\<not> (uStatus p \<in> {TaskStatusSucceeded, TaskStatusFailed} \<and> tStatus t = uStatus p)"
  shows "case report_table env limit p t of
           None \<Rightarrow> \<exists>e. report_body env p t d = Inl e
         | Some r \<Rightarrow> \<exists>d'. report_body env p t d = Inr (r, d')"
proof (cases "tStatus t \<in> {TaskStatusScheduled, TaskStatusRunning}")
  case False
  then show ?thesis using assms(3)
    by (cases "uStatus p") (auto simp: report_body_def report_table_def report_running_def
        report_terminal_def Let_def)
next
  case True
  let ?le = "if uError p = [] then None else Some (uError p)"
  note tot = mark_terminal_total [OF assms(1), of p t ?le d]
    requeueFailedTask_total [OF assms(1), of t "uExitCode p" ?le d]
    report_running_total [OF assms(1) True, of d]
  from lim obtain j where j: "find (\<lambda>j. jID j = tJobID t) (db_jobs d) = Some j"
    "limit = jRetryLimit j" by (auto simp: job_limit_def)
  show ?thesis
    using True assms(1,3) tot j
    by (cases "uStatus p") (auto simp: report_body_def report_table_def report_terminal_def Let_def)
qed

lemma job_limit_total:
  assumes "db_inv d" "t \<in> set (db_tasks d)"
  obtains limit where "job_limit d t = Some limit"
proof -
  from rows_ok_taskD [OF db_inv_rows [OF assms(1)] assms(2)]
  obtain j where "j \<in> set (db_jobs d)" "jID j = tJobID t"
    by (auto simp: task_ok_def retries_ok_def)
  then show thesis using that find_key_exists [of j "db_jobs d" jID] by (auto simp: job_limit_def)
qed

lemma UpdateTaskStatus_unfold:
  assumes "healthy env" "find (\<lambda>t. tID t = uTaskID p) (db_tasks d) = Some t"
    "checkTaskReportFence t (uNodeID p) (uEpoch p) = None"
  shows "UpdateTaskStatus env p d =
    (if uStatus p \<in> {TaskStatusSucceeded, TaskStatusFailed} \<and> tStatus t = uStatus p
     then (Inr t, d)
     else case report_body env p t d of Inl e \<Rightarrow> (Inl e, d) | Inr (r, d') \<Rightarrow> (Inr r, d'))"
  unfolding UpdateTaskStatus_def report_body_def [symmetric] healthy_in_tx [OF assms(1)]
  using assms by simp

lemma report_applied:
  assumes "db_inv d" and "healthy env"
    and "find (\<lambda>t. tID t = uTaskID p) (db_tasks d) = Some t"
    and "checkTaskReportFence t (uNodeID p) (uEpoch p) = None"
    and "job_limit d t = Some limit"
  shows "case report_table env limit p t of
      None \<Rightarrow> \<exists>e. UpdateTaskStatus env p d = (Inl e, d)
    | Some r \<Rightarrow> \<exists>d'. UpdateTaskStatus env p d = (Inr r, d')
        \<and> db_tasks d' = update_where (\<lambda>u. tID u = uTaskID p) (\<lambda>u. r) (db_tasks d)
        \<and> db_nodes d' = db_nodes d \<and> db_jobs d' = db_jobs d \<and> db_lease d' = db_lease d"
proof -
  note unf = UpdateTaskStatus_unfold [OF assms(2-4)]
  have t: "t \<in> set (db_tasks d)" "tID t = uTaskID p"
    using assms(3) rows_ok_find_task [OF db_inv_rows [OF assms(1)]] by auto
  have one: "u = t" if "u \<in> set (db_tasks d)" "tID u = uTaskID p" for u
    using rows_ok_task_unique [OF db_inv_rows [OF assms(1)] that(1) t(1)] that(2) t(2) by simp
  show ?thesis
  proof (cases "uStatus p \<in> {TaskStatusSucceeded, TaskStatusFailed} \<and> tStatus t = uStatus p")
    case True
    then have "report_table env limit p t = Some t" by (simp add: report_table_def Let_def)
    moreover have "update_where (\<lambda>u. tID u = uTaskID p) (\<lambda>u. t) (db_tasks d) = db_tasks d"
      using one by (intro update_where_cong_set) auto
    ultimately show ?thesis using True unf by auto
  next
    case False
    note tot = report_body_total [OF assms(2,5) False]
    show ?thesis
    proof (cases "report_table env limit p t")
      case None
      with tot unf False show ?thesis by auto
    next
      case (Some r)
      with tot obtain d' where b: "report_body env p t d = Inr (r, d')" by auto
      from report_body_effect [OF b False] obtain f where w: "row_write f t d r d'" by blast
      then have "db_tasks d' = update_where (\<lambda>u. tID u = uTaskID p) (\<lambda>u. r) (db_tasks d)"
        using one t(2) by (auto simp: row_write_def update_where_def)
      with Some b unf False w show ?thesis by (auto simp: row_write_def)
    qed
  qed
qed

text \<open>
  C10: the reports implement the transition table. On a well-formed, healthy database a report that
  passes the fence is accepted exactly when the table accepts it, returns the table's row, writes
  it over the task's row and leaves every other task, node, job and the lease as they were; a
  report the table refuses is an error without effect.
\<close>

theorem report_refines_table:
  assumes "db_inv d" and "healthy env"
    and "find (\<lambda>t. tID t = uTaskID p) (db_tasks d) = Some t"
    and "checkTaskReportFence t (uNodeID p) (uEpoch p) = None"
    and "job_limit d t = Some limit"
  shows "case report_table env limit p t of
      None \<Rightarrow> \<exists>e. UpdateTaskStatus env p d = (Inl e, d)
    | Some r \<Rightarrow> \<exists>d'. UpdateTaskStatus env p d = (Inr r, d')
        \<and> db_tasks d' = update_where (\<lambda>u. tID u = uTaskID p) (\<lambda>u. r) (db_tasks d)
        \<and> db_nodes d' = db_nodes d \<and> db_jobs d' = db_jobs d \<and> db_lease d' = db_lease d"
  by (rule report_applied [OF assms])

definition failed_report :: UpdateTaskStatusParams where
  "failed_report = zombie_report\<lparr>uStatus := TaskStatusFailed, uExitCode := Some 1, uEpoch := 3\<rparr>"

theorem report_refines_table_witness:
  "\<exists>d'. UpdateTaskStatus sample_env failed_report sample_db
      = (Inr (requeue_failed_row sample_env 1 (500 * Millisecond) (Some 1) None task_running), d')
    \<and> db_tasks d' = update_where (\<lambda>u. tID u = ''t1'')
        (\<lambda>u. requeue_failed_row sample_env 1 (500 * Millisecond) (Some 1) None task_running)
        (db_tasks sample_db)"
proof -
  have "report_table sample_env 2 failed_report task_running
      = Some (requeue_failed_row sample_env 1 (500 * Millisecond) (Some 1) None task_running)"
    by (simp add: report_table_def failed_report_def zombie_report_def task_running_def task_row_def
          i32_id in_i32_def retryBackoff_def)
  moreover have "job_limit sample_db task_running = Some 2"
    by (simp add: job_limit_def job_a_def task_running_def task_row_def)
  ultimately show ?thesis
    using report_refines_table [OF sample_inv healthy_sample, of failed_report task_running 2]
    by (auto simp: failed_report_def zombie_report_def task_running_def task_row_def
          checkTaskReportFence_def)
qed

text \<open>
  The retry budget. A failure report on a task that had not failed yet either requeues it, with
  one more retry used, never more than the job's limit, unassigned, and not claimable before the
  backoff has passed; or ends it as failed, and then the budget is used up.
\<close>

theorem failed_report_budget:
  assumes "db_inv d" and "UpdateTaskStatus env p d = (Inr r, d')" and "uStatus p = TaskStatusFailed"
    and "find (\<lambda>t. tID t = uTaskID p) (db_tasks d) = Some t" and "tStatus t \<noteq> TaskStatusFailed"
    and "job_limit d t = Some limit"
  shows "(tStatus r = TaskStatusPending \<and> tRetriesUsed r = tRetriesUsed t + 1 \<and> tRetriesUsed r \<le> limit
           \<and> tAssignedNodeID r = None
           \<and> tNextRetryAt r = Some (db_now env + 500 * 2 ^ nat (min 5 (tRetriesUsed t)) * Millisecond))
       \<or> (tStatus r = TaskStatusFailed \<and> tRetriesUsed r = tRetriesUsed t \<and> limit \<le> tRetriesUsed t
           \<and> tFinishedAt r = Some (db_now env))"
proof -
  from assms(2) obtain t' limit' f where "find (\<lambda>t. tID t = uTaskID p) (db_tasks d) = Some t'"
    and tab: "report_table env limit' p t' = Some r"
    and lim: "uStatus p = TaskStatusFailed \<longrightarrow> tStatus t' = TaskStatusFailed \<or> job_limit d t' = Some limit'"
    by (rule UpdateTaskStatus_effect)
  with assms(3-6) have [simp]: "t' = t" "limit' = limit" by auto
  have rows: "rows_ok (db_nodes d) (db_jobs d) (db_tasks d)" by (rule db_inv_rows [OF assms(1)])
  with assms(4) have "task_ok (db_nodes d) (db_jobs d) t"
    by (auto simp: rows_ok_find_task rows_ok_def)
  then have pos: "0 \<le> tRetriesUsed t" by (auto simp: task_ok_def retries_ok_def)
  from assms(6) rows have "in_i32 limit"
    by (auto simp: job_limit_def rows_ok_find_job rows_ok_def job_row_ok_def)
  then have nowrap: "i32 (tRetriesUsed t + 1) = tRetriesUsed t + 1 \<and> in_i32 (tRetriesUsed t + 1)"
    if "tRetriesUsed t < limit"
    using that pos i32_id [of "tRetriesUsed t + 1"] by (auto simp: in_i32_def)
  from tab show ?thesis
  proof (cases rule: report_table_cases)
    case (requeue e)
    then show ?thesis using nowrap pos retryBackoff_exact [of "tRetriesUsed t + 1"]
      by (simp add: requeue_failed_row_def)
  next
    case (terminal e)
    then show ?thesis using assms(3) by (simp add: terminal_row_def)
  qed (use assms(3,5) in auto)
qed

theorem failed_report_budget_witness:
  "\<exists>r d'. UpdateTaskStatus sample_env failed_report sample_db = (Inr r, d')
     \<and> tRetriesUsed r = 1 \<and> tNextRetryAt r = Some (10 * Second + 500 * Millisecond)"
proof -
  have row: "find (\<lambda>t. tID t = uTaskID failed_report) (db_tasks sample_db) = Some task_running"
    by (simp add: failed_report_def zombie_report_def task_running_def task_row_def)
  have lim: "job_limit sample_db task_running = Some 2"
    by (simp add: job_limit_def job_a_def task_running_def task_row_def)
  obtain r d' where call: "UpdateTaskStatus sample_env failed_report sample_db = (Inr r, d')"
    and tab: "report_table sample_env 2 failed_report task_running = Some r"
    using report_body_total [OF healthy_sample lim, of failed_report]
      UpdateTaskStatus_unfold [OF healthy_sample row]
    by (auto simp: failed_report_def zombie_report_def task_running_def task_row_def
          checkTaskReportFence_def report_table_def)
  from failed_report_budget [OF sample_inv call _ row _ lim] call show ?thesis
    by (auto simp: failed_report_def task_running_def task_row_def sample_env_def duration_units)
qed

text \<open>
  Success and failure are final. No report, accepted or not, changes anything about a task that
  has succeeded or failed; repeating the terminal report is accepted and has no effect.
\<close>

theorem terminal_task_final:
  assumes "find (\<lambda>t. tID t = uTaskID p) (db_tasks d) = Some t"
    and "tStatus t \<in> {TaskStatusSucceeded, TaskStatusFailed}"
  shows "snd (UpdateTaskStatus env p d) = d
    \<and> (healthy env \<and> uStatus p = tStatus t \<and> checkTaskReportFence t (uNodeID p) (uEpoch p) = None
         \<longrightarrow> fst (UpdateTaskStatus env p d) = Inr t)"
proof
  show "snd (UpdateTaskStatus env p d) = d"
  proof (cases "UpdateTaskStatus env p d")
    case (Pair x d')
    show ?thesis
    proof (cases x)
      case (Inl e)
      with Pair show ?thesis using UpdateTaskStatus_error by fastforce
    next
      case (Inr r)
      with Pair have "UpdateTaskStatus env p d = (Inr r, d')" by simp
      then obtain t' where "find (\<lambda>t. tID t = uTaskID p) (db_tasks d) = Some t'"
        and b: "(if uStatus p \<in> {TaskStatusSucceeded, TaskStatusFailed} \<and> tStatus t' = uStatus p
                then Inr (t', d) else report_body env p t' d) = Inr (r, d')"
        unfolding UpdateTaskStatus_def report_body_def
        by (auto simp: in_tx_Inr split: if_splits option.splits)
      with assms have "report_body env p t d = Inr (r, d') \<Longrightarrow> False"
        by (cases "uStatus p")
           (auto simp: report_body_def report_running_def report_terminal_def split: if_splits)
      with b assms \<open>find _ _ = Some t'\<close> Pair show ?thesis by (auto split: if_splits)
    qed
  qed
  show "healthy env \<and> uStatus p = tStatus t \<and> checkTaskReportFence t (uNodeID p) (uEpoch p) = None
         \<longrightarrow> fst (UpdateTaskStatus env p d) = Inr t"
    using assms by (auto simp: UpdateTaskStatus_unfold)
qed

definition done_db :: db where
  "done_db = sample_db\<lparr>db_tasks := [task_running\<lparr>tStatus := TaskStatusSucceeded\<rparr>]\<rparr>"

theorem terminal_task_final_witness:
  "snd (UpdateTaskStatus sample_env failed_report done_db) = done_db"
  using terminal_task_final [of failed_report done_db "task_running\<lparr>tStatus := TaskStatusSucceeded\<rparr>"]
  by (simp add: done_db_def failed_report_def zombie_report_def task_running_def task_row_def)

text \<open>
  The backoff after the \<open>n\<close>-th retry is 500 ms doubled at most five times: never below 500 ms,
  never above 16 s, non-decreasing in the number of retries, for every \<open>int32\<close> count from 1 on.
\<close>

theorem retryBackoff_schedule:
  assumes "in_i32 n" and "in_i32 m" and "1 \<le> m" and "m \<le> n"
  shows "retryBackoff n = 500 * 2 ^ nat (min 5 (n - 1)) * Millisecond
    \<and> 500 * Millisecond \<le> retryBackoff n \<and> retryBackoff n \<le> 16 * Second
    \<and> retryBackoff m \<le> retryBackoff n"
proof -
  have "nat (min 5 (m - 1)) \<le> nat (min 5 (n - 1))" using assms by auto
  then have "(2::int) ^ nat (min 5 (m - 1)) \<le> 2 ^ nat (min 5 (n - 1))" by (rule power_increasing) simp
  then show ?thesis
    using retryBackoff_range [of n] retryBackoff_exact [of n] retryBackoff_exact [of m] assms
    by (simp add: Millisecond_def)
qed

theorem retryBackoff_schedule_witness:
  "retryBackoff 4 = 500 * 2 ^ nat (min 5 (4 - 1)) * Millisecond
    \<and> 500 * Millisecond \<le> retryBackoff 4 \<and> retryBackoff 4 \<le> 16 * Second
    \<and> retryBackoff 2 \<le> retryBackoff 4"
  by (rule retryBackoff_schedule) (simp_all add: in_i32_def)

section \<open>Nodes and jobs\<close>

lemma requeue_loop_total:
  "healthy env \<Longrightarrow> \<exists>d'. requeue_loop env nid ids d = Inr d'"
proof (induction ids arbitrary: d)
  case (Cons i ids)
  then show ?case by (simp add: insertEvent_def Let_def)
qed simp

lemma orphanAndRequeueTasksTx_total:
  "healthy env \<Longrightarrow> \<exists>ids d'. orphanAndRequeueTasksTx env nid d = Inr (ids, d')"
  using requeue_loop_total [of env nid "map tID (filter (occupies nid) (db_tasks d))" d]
  by (auto simp: orphanAndRequeueTasksTx_def Let_def)

lemma MarkNodeDead_total:
  assumes "healthy env" and "find (\<lambda>n. nID n = nid) (db_nodes d) = Some n"
  shows "\<exists>r d'. MarkNodeDead env nid d = (Inr r, d')"
proof -
  obtain d2 where ev: "insertEvent env ''store: mark node dead: insert event'' EntityTypeNode
      (nID (bump_dead n)) EventTypeNodeDead
      (''node marked dead after missed heartbeats, epoch bumped to '' @ itoa (nEpoch (bump_dead n)))
      (d\<lparr>db_nodes := update_where (\<lambda>n. nID n = nid) bump_dead (db_nodes d)\<rparr>) = Inr d2"
    using assms(1) by (simp add: insertEvent_def)
  obtain ids d3 where "orphanAndRequeueTasksTx env nid d2 = Inr (ids, d3)"
    using orphanAndRequeueTasksTx_total [OF assms(1)] by blast
  with ev assms show ?thesis by (simp add: MarkNodeDead_def healthy_in_tx Let_def)
qed

text \<open>
  C14: The death of a node. On a well-formed, healthy database \<open>MarkNodeDead\<close> of a known node
  succeeds; it marks the node dead under the next epoch and, in the same transaction, returns every
  task that was scheduled or running on it to pending, unassigned, without using a retry. It returns
  the ids of exactly those tasks, no task is left on the node, and every other row is untouched.
\<close>

theorem MarkNodeDead_requeues:
  assumes "db_inv d" and "healthy env" and "find (\<lambda>n. nID n = nid) (db_nodes d) = Some n"
  shows "\<exists>d'. MarkNodeDead env nid d
      = (Inr \<lparr>mNode = n\<lparr>nStatus := NodeStatusDead, nEpoch := nEpoch n + 1\<rparr>,
              mOrphanedTaskIDs = map tID (filter (occupies nid) (db_tasks d))\<rparr>, d')
    \<and> db_nodes d' = update_where (\<lambda>m. nID m = nid)
        (\<lambda>m. m\<lparr>nStatus := NodeStatusDead, nEpoch := nEpoch m + 1\<rparr>) (db_nodes d)
    \<and> db_tasks d' = update_where (occupies nid) requeue_orphan (db_tasks d)
    \<and> db_jobs d' = db_jobs d \<and> db_lease d' = db_lease d
    \<and> filter (occupies nid) (db_tasks d') = []
    \<and> map tRetriesUsed (db_tasks d') = map tRetriesUsed (db_tasks d)"
proof -
  obtain r d' where call: "MarkNodeDead env nid d = (Inr r, d')"
    using MarkNodeDead_total [OF assms(2,3)] by blast
  note eff = MarkNodeDead_effect [OF call] and tasks = MarkNodeDead_tasks [OF call assms(1)]
  have "r = \<lparr>mNode = bump_dead n,
              mOrphanedTaskIDs = map tID (filter (occupies nid) (db_tasks d))\<rparr>"
    using eff(1,8) assms(3) by (cases r) auto
  moreover have "filter (occupies nid) (update_where (occupies nid) requeue_orphan ts) = []" for ts
    by (induction ts) (auto simp: occupies_def requeue_orphan_def)
  moreover have "map tRetriesUsed (update_where (occupies nid) requeue_orphan ts) = map tRetriesUsed ts"
    for ts by (rule map_update_where_key) (simp add: requeue_orphan_def)
  moreover have "bump_dead = (\<lambda>m. m\<lparr>nStatus := NodeStatusDead, nEpoch := nEpoch m + 1\<rparr>)"
    by (rule ext) (simp add: bump_dead_def)
  ultimately show ?thesis using call eff(3-5) tasks by (simp add: bump_dead_def)
qed

theorem MarkNodeDead_requeues_witness:
  "\<exists>d'. MarkNodeDead sample_env ''n1'' sample_db
      = (Inr \<lparr>mNode = node_a\<lparr>nStatus := NodeStatusDead, nEpoch := 4\<rparr>,
              mOrphanedTaskIDs = [''t1'']\<rparr>, d')
    \<and> db_tasks d' = [requeue_orphan task_running, task_scheduled, task_row ''t3'']"
  using MarkNodeDead_requeues [OF sample_inv healthy_sample, of "''n1''" node_a]
  by (auto simp: sample_rows occupies_def)

lemma RegisterNode_total:
  assumes "healthy env" and "in_i64 (rCPUCapacityMillicores p)" and "in_i64 (rMemCapacityMB p)"
    and "db_uuid env 0 \<notin> nID ` set (db_nodes d)"
  shows "\<exists>n d'. RegisterNode env p d = (Inr n, d')"
  using assms
  by (auto simp: RegisterNode_def healthy_in_tx Let_def upsert_node_def insertEvent_def split: option.splits)

lemma RegisterNode_again:
  assumes "healthy env" and "in_i64 (rCPUCapacityMillicores p)" and "in_i64 (rMemCapacityMB p)"
    and "find (same_host p) (db_nodes d) = Some n0"
  shows "\<exists>n d'. RegisterNode env p d = (Inr n, d') \<and> nID n = nID n0 \<and> nEpoch n = nEpoch n0 + 1
    \<and> nStatus n = NodeStatusReady \<and> n \<in> set (db_nodes d') \<and> db_tasks d' = db_tasks d"
proof -
  obtain n d' where call: "RegisterNode env p d = (Inr n, d')"
    using assms by (auto simp: RegisterNode_def healthy_in_tx Let_def upsert_node_def insertEvent_def)
  note eff = RegisterNode_effect [OF call]
  let ?l = "case rLabels p of None \<Rightarrow> [] | Some m \<Rightarrow> m"
  from eff(7) assms(4) have n: "n = reregister_node env p ?l n0"
    and ns: "db_nodes d' = update_where (same_host p) (reregister_node env p ?l) (db_nodes d)" by auto
  have "n \<in> set (db_nodes d')"
    using find_in_set [OF assms(4)] by (auto simp: n ns set_update_where)
  moreover have "nID n = nID n0" "nEpoch n = nEpoch n0 + 1" "nStatus n = NodeStatusReady"
    unfolding n by (simp_all add: reregister_node_def)
  ultimately show ?thesis using call eff(3) by blast
qed

text \<open>
  Registration. On a healthy database, with capacities in the range of their columns and a
  fresh UUID, a worker whose hostname and address are new gets a ready node at epoch 0 appended; a
  known pair keeps its row and id, takes the new capacities and labels, is ready again, and its
  epoch grows by one. No other row changes.
\<close>

theorem RegisterNode_upsert:
  assumes "healthy env" and "in_i64 (rCPUCapacityMillicores p)" and "in_i64 (rMemCapacityMB p)"
    and "db_uuid env 0 \<notin> nID ` set (db_nodes d)"
  shows "\<exists>n d'. RegisterNode env p d = (Inr n, d')
    \<and> nStatus n = NodeStatusReady \<and> nHostname n = rHostname p \<and> nAddress n = rAddress p
    \<and> nCPUCapacityMillicores n = rCPUCapacityMillicores p \<and> nMemCapacityMB n = rMemCapacityMB p
    \<and> db_tasks d' = db_tasks d \<and> db_jobs d' = db_jobs d \<and> db_lease d' = db_lease d
    \<and> (case find (same_host p) (db_nodes d) of
         None \<Rightarrow> nEpoch n = 0 \<and> nID n = db_uuid env 0 \<and> db_nodes d' = db_nodes d @ [n]
       | Some n0 \<Rightarrow> nEpoch n = nEpoch n0 + 1 \<and> nID n = nID n0
           \<and> filter (\<lambda>m. \<not> same_host p m) (db_nodes d') = filter (\<lambda>m. \<not> same_host p m) (db_nodes d)
           \<and> n \<in> set (db_nodes d'))"
proof -
  let ?labels = "case rLabels p of None \<Rightarrow> [] | Some m \<Rightarrow> m"
  obtain n d' where call: "RegisterNode env p d = (Inr n, d')" using RegisterNode_total [OF assms] by blast
  note eff = RegisterNode_effect [OF call]
  have other: "filter (\<lambda>m. \<not> same_host p m) (update_where (same_host p) (reregister_node env p l) ns)
      = filter (\<lambda>m. \<not> same_host p m) ns" for l ns
    by (induction ns) (auto simp: same_host_def reregister_node_def)
  have mem: "reregister_node env p l n0 \<in> set (update_where (same_host p) (reregister_node env p l) ns)"
    if "find (same_host p) ns = Some n0" for l n0 ns
    using find_in_set [OF that] by (auto simp: set_update_where)
  show ?thesis
  proof (cases "find (same_host p) (db_nodes d)")
    case None
    with call eff show ?thesis by (auto simp: new_node_def)
  next
    case (Some n0)
    then have n: "n = reregister_node env p ?labels n0"
      "db_nodes d' = update_where (same_host p) (reregister_node env p ?labels) (db_nodes d)"
      using eff(7) by auto
    have "nHostname n0 = rHostname p" "nAddress n0 = rAddress p"
      using find_in_set [OF Some] by (auto simp: same_host_def)
    then have "nStatus n = NodeStatusReady" "nHostname n = rHostname p" "nAddress n = rAddress p"
      "nCPUCapacityMillicores n = rCPUCapacityMillicores p" "nMemCapacityMB n = rMemCapacityMB p"
      "nEpoch n = nEpoch n0 + 1" "nID n = nID n0"
      unfolding n(1) by (simp_all add: reregister_node_def)
    with call eff(2-4) Some mem [OF Some, of ?labels] n other show ?thesis by auto
  qed
qed

text \<open>
  A worker that registers again before the failure detector notices its absence (a quick restart) strands
  the tasks it had: registration raises the epoch and leaves the tasks assigned under the old one, so that every
  later report of the node on them is refused, and a node that keeps sending heartbeats is never declared dead.
\<close>

lemma reregistration_strands:
  assumes "healthy env" and "in_i64 (rCPUCapacityMillicores p)" and "in_i64 (rMemCapacityMB p)"
    and "find (same_host p) (db_nodes d) = Some n0"
    and "find (\<lambda>t. tID t = i) (db_tasks d) = Some t" and "tAssignedNodeID t = Some (nID n0)"
    and "tAssignedEpoch t = Some (nEpoch n0)" and "nID n0 \<noteq> []"
  shows "\<exists>n d'. RegisterNode env p d = (Inr n, d') \<and> nID n = nID n0 \<and> db_tasks d' = db_tasks d
    \<and> (\<forall>env' u. healthy env' \<and> uTaskID u = i \<and> uNodeID u = nID n \<and> uEpoch u = nEpoch n
         \<longrightarrow> UpdateTaskStatus env' u d' = (Inl ErrStaleTaskReport, d'))"
proof -
  obtain n d' where r: "RegisterNode env p d = (Inr n, d')" "nID n = nID n0" "nEpoch n = nEpoch n0 + 1"
    "db_tasks d' = db_tasks d" using RegisterNode_again [OF assms(1-4)] by blast
  have "UpdateTaskStatus env' u d' = (Inl ErrStaleTaskReport, d')"
    if u: "healthy env'" "uTaskID u = i" "uNodeID u = nID n" "uEpoch u = nEpoch n" for env' u
    by (rule fence_refuses [of _ _ t]) (use u r assms(5-8) in \<open>simp_all add: healthy_def\<close>)
  with r show ?thesis by blast
qed

definition alpha_again :: RegisterNodeParams where
  "alpha_again = \<lparr>rHostname = ''alpha'', rAddress = ''10.0.0.1:7000'', rCPUCapacityMillicores = 2000,
     rMemCapacityMB = 4096, rLabels = None\<rparr>"

theorem RegisterNode_upsert_witness:
  "\<exists>n d'. RegisterNode sample_env alpha_again sample_db = (Inr n, d') \<and> nEpoch n = 4 \<and> nID n = ''n1''"
proof -
  have "db_uuid sample_env 0 \<notin> nID ` set (db_nodes sample_db)"
    by (simp add: sample_env_def itoa_def nat_digits.simps sample_rows)
  from RegisterNode_upsert [OF healthy_sample _ _ this, of alpha_again] show ?thesis
    by (auto simp: alpha_again_def in_i64_def same_host_def sample_rows)
qed

text \<open>
  Submission. A job that is accepted has satisfied every constraint of its table, gets the
  default policy when it named none, and comes with exactly \<open>replicas\<close> new pending tasks, all of
  that job, with distinct fresh ids; nothing else changes. A job without replicas is refused.
\<close>

theorem CreateJob_tasks:
  assumes "CreateJob env p d = (Inr j, d')"
  shows "\<exists>ts. db_tasks d' = db_tasks d @ ts \<and> length ts = nat (cReplicas p) \<and> 1 \<le> cReplicas p
    \<and> list_all (\<lambda>t. tJobID t = jID j \<and> tStatus t = TaskStatusPending \<and> tRetriesUsed t = 0
          \<and> tAssignedNodeID t = None \<and> tID t \<notin> tID ` set (db_tasks d)) ts
    \<and> distinct (map tID ts) \<and> db_jobs d' = db_jobs d @ [j] \<and> job_row_ok j
    \<and> jSchedulingPolicy j = (if cSchedulingPolicy p = [] then SchedulingPolicyBinPack
                             else cSchedulingPolicy p)
    \<and> db_nodes d' = db_nodes d \<and> db_lease d' = db_lease d"
proof -
  note eff = CreateJob_effect [OF assms]
  have "jSchedulingPolicy j = (if cSchedulingPolicy p = [] then SchedulingPolicyBinPack
                               else cSchedulingPolicy p)"
    unfolding eff(1) by (simp add: new_job_def effective_params_def)
  with eff show ?thesis
    by (intro exI [of _ "map (new_task env (jID j)) [0..<nat (cReplicas p)]"])
       (auto simp: list_all_iff new_task_def)
qed

definition small_job :: CreateJobParams where
  "small_job = \<lparr>cName = ''batch'', cImage = ''busybox'', cCommand = [''true''],
     cCPURequestMillicores = 100, cMemRequestMB = 64, cReplicas = 2, cRetryLimit = 1,
     cSchedulingPolicy = [], cConstraints = []\<rparr>"

lemma small_job_accepted:
  "\<exists>d'. CreateJob sample_env small_job sample_db
     = (Inr (new_job sample_env (small_job\<lparr>cSchedulingPolicy := SchedulingPolicyBinPack\<rparr>)), d')"
  by (simp add: CreateJob_def small_job_def healthy_in_tx new_job_def job_row_ok_def in_i64_def
      in_i32_def SchedulingPolicyBinPack_def insertEvent_def sample_env_def healthy_def new_task_def
      itoa_def nat_digits.simps sample_rows numeral_2_eq_2 Let_def)

theorem CreateJob_tasks_witness:
  "\<exists>j d' ts. CreateJob sample_env small_job sample_db = (Inr j, d')
     \<and> db_tasks d' = db_tasks sample_db @ ts \<and> length ts = 2"
proof -
  obtain d' where call: "CreateJob sample_env small_job sample_db
      = (Inr (new_job sample_env (small_job\<lparr>cSchedulingPolicy := SchedulingPolicyBinPack\<rparr>)), d')"
    using small_job_accepted by blast
  from CreateJob_tasks [OF call] call show ?thesis by (auto simp: small_job_def)
qed

end
