(* ===== verification/Step_System.thy ===== *)
theory Step_System
  imports Main
begin

text \<open>
  Transition systems and inductive invariants. The elections and the whole cluster are step
  relations; each interprets \<open>step_system\<close> with the invariant it keeps, which gives the invariant in
  every reachable state and along every run. The locale \<open>simulation\<close> relates a concrete system to an
  abstract one: each concrete step is matched by a run of the abstract system, so what is invariant there holds
  here of the matching state. The composed replicas interpret it twice, for the elections and for the database.
\<close>

definition reachable_by :: "('s \<Rightarrow> bool) \<Rightarrow> ('s \<Rightarrow> 's \<Rightarrow> bool) \<Rightarrow> 's \<Rightarrow> bool" where
  "reachable_by init step s \<longleftrightarrow> (\<exists>s0. init s0 \<and> step\<^sup>*\<^sup>* s0 s)"

locale step_system =
  fixes init :: "'s \<Rightarrow> bool" and step :: "'s \<Rightarrow> 's \<Rightarrow> bool" and inv :: "'s \<Rightarrow> bool"
  assumes inv_init: "init s \<Longrightarrow> inv s"
    and inv_step: "step s s' \<Longrightarrow> inv s \<Longrightarrow> inv s'"
begin

lemma inv_steps: "step\<^sup>*\<^sup>* s s' \<Longrightarrow> inv s \<Longrightarrow> inv s'"
  by (induction rule: rtranclp_induct) (auto intro: inv_step)

lemma inv_reachable: "reachable_by init step s \<Longrightarrow> inv s"
  by (auto simp: reachable_by_def intro: inv_steps inv_init)

text \<open>A relation that every step keeps, and that composes, holds along every run from an invariant state.\<close>

lemma along_steps:
  assumes "step\<^sup>*\<^sup>* s s'" and "inv s" and "\<And>a. R a a"
    and "\<And>a b c. R a b \<Longrightarrow> R b c \<Longrightarrow> R a c"
    and "\<And>a b. inv a \<Longrightarrow> step a b \<Longrightarrow> R a b"
  shows "R s s'"
  using assms(1)
proof (induction rule: rtranclp_induct)
  case base
  show ?case by (rule assms(3))
next
  case (step y z)
  from step.hyps(1) assms(2) have "inv y" by (rule inv_steps)
  then have "R y z" using step.hyps(2) by (rule assms(5))
  with step.IH show ?case by (rule assms(4))
qed

end

locale simulation = abs: step_system ainit astep ainv
  for ainit :: "'a \<Rightarrow> bool" and astep :: "'a \<Rightarrow> 'a \<Rightarrow> bool" and ainv :: "'a \<Rightarrow> bool" +
  fixes cinit :: "'c \<Rightarrow> bool" and cstep :: "'c \<Rightarrow> 'c \<Rightarrow> bool" and match :: "'c \<Rightarrow> 'a \<Rightarrow> bool"
  assumes match_init: "cinit c \<Longrightarrow> \<exists>a. ainit a \<and> match c a"
    and match_step: "cstep c c' \<Longrightarrow> match c a \<Longrightarrow> ainv a \<Longrightarrow> \<exists>a'. astep\<^sup>*\<^sup>* a a' \<and> match c' a'"
begin

lemma match_run:
  assumes "cstep\<^sup>*\<^sup>* c c'" and "match c a" and "ainv a"
  shows "\<exists>a'. astep\<^sup>*\<^sup>* a a' \<and> match c' a'"
  using assms(1)
proof (induction rule: rtranclp_induct)
  case base
  from assms(2) show ?case by blast
next
  case (step d e)
  then obtain b where b: "astep\<^sup>*\<^sup>* a b" "match d b" by blast
  have "ainv b" by (rule abs.inv_steps [OF b(1) assms(3)])
  from match_step [OF step.hyps(2) b(2) this] b(1) show ?case by (meson rtranclp_trans)
qed

lemma match_reachable:
  assumes "reachable_by cinit cstep c"
  obtains a where "reachable_by ainit astep a" "ainv a" "match c a"
proof -
  from assms obtain c0 where c0: "cinit c0" "cstep\<^sup>*\<^sup>* c0 c" by (auto simp: reachable_by_def)
  from match_init [OF c0(1)] obtain a0 where a0: "ainit a0" "match c0 a0" by blast
  from match_run [OF c0(2) a0(2) abs.inv_init [OF a0(1)]] obtain a where a: "astep\<^sup>*\<^sup>* a0 a" "match c a" by blast
  have "reachable_by ainit astep a" using a0(1) a(1) by (auto simp: reachable_by_def)
  with abs.inv_reachable [OF this] a(2) show thesis by (intro that)
qed

end

end
