(* ===== verification/Election.thy ===== *)
theory Election
  imports Store_Props Leader_Gate Step_System
begin

text \<open>
  Leader election: the lease row of \<^verbatim>\<open>src/internal/store/lease.go\<close> and the acquire/renew loop of
  \<^verbatim>\<open>src/internal/election/election.go\<close>. The lease is compared and stamped with the clock of the
  replica that attempts it (\<open>clk\<close>), not with the database's. The theorems: a lease changes hands only
  after it expired and always under a larger epoch; two replicas that both believe they lead have
  different epochs; and, when the replicas' clocks agree, two believe so at the same time only after
  one of them has failed to renew for a full TTL.
\<close>

section \<open>The lease row\<close>

record LeaseAcquireResult =
  aAcquired :: bool
  aLease :: LeaderLease
  aEpochBumped :: bool

definition lease_row :: "LeaderLease \<Rightarrow> time \<Rightarrow> string \<Rightarrow> string \<Rightarrow> duration \<Rightarrow> LeaderLease" where
  "lease_row lease clk identity advertiseAddr ttl =
     lease\<lparr>lLeaderID := identity, lLeaderAddr := advertiseAddr,
           lEpoch := (if lLeaderID lease = identity then lEpoch lease else lEpoch lease + 1),
           lAcquiredAt := clk, lExpiresAt := clk + ttl\<rparr>"

definition lease_body ::
  "dbenv \<Rightarrow> time \<Rightarrow> string \<Rightarrow> string \<Rightarrow> duration \<Rightarrow> db \<Rightarrow> store_error + (LeaseAcquireResult \<times> db)" where
  "lease_body env clk identity advertiseAddr ttl d =
     (if db_fault env ''store: lock leader_lease'' then Inl (StoreError ''store: lock leader_lease'')
      else case db_lease d of
        None \<Rightarrow> Inl (StoreError ''store: leader_lease row missing (migrations not applied?)'')
      | Some lease \<Rightarrow>
          (let expired = (lExpiresAt lease \<le> clk); ours = (lLeaderID lease = identity) in
           if \<not> expired \<and> \<not> ours
           then Inr (\<lparr>aAcquired = False, aLease = lease, aEpochBumped = False\<rparr>, d)
           else if db_fault env ''store: update leader_lease''
           then Inl (StoreError ''store: update leader_lease'')
           else
             (let updated = lease_row lease clk identity advertiseAddr ttl;
                  d1 = d\<lparr>db_lease := Some updated\<rparr>;
                  result = \<lparr>aAcquired = True, aLease = updated, aEpochBumped = \<not> ours\<rparr>
              in if ours then Inr (result, d1)
                 else (case insertEvent env ''store: leader elected event'' EntityTypeLeader identity
                              EventTypeLeaderElected
                              (''leader elected: id='' @ identity @ '' addr='' @ advertiseAddr
                                 @ '' epoch='' @ itoa (lEpoch updated)) d1 of
                         Inl e \<Rightarrow> Inl e
                       | Inr d2 \<Rightarrow> Inr (result, d2)))))"

definition TryAcquireOrRenewLease ::
  "dbenv \<Rightarrow> time \<Rightarrow> string \<Rightarrow> string \<Rightarrow> duration \<Rightarrow> db \<Rightarrow> (store_error + LeaseAcquireResult) \<times> db" where
  "TryAcquireOrRenewLease env clk identity advertiseAddr ttl d =
     (if identity = [] then (Inl (StoreError ''store: lease identity is required''), d)
      else if ttl \<le> 0 then (Inl (StoreError ''store: lease ttl must be positive''), d)
      else if db_fault env ''store: lease begin'' then (Inl (StoreError ''store: lease begin''), d)
      else case lease_body env clk identity advertiseAddr ttl d of
             Inl e \<Rightarrow> (Inl e, d)
           | Inr (r, d') \<Rightarrow>
               if db_fault env ''commit'' then (Inl (StoreError ''commit''), d) else (Inr r, d'))"

definition GetLeaderLease :: "dbenv \<Rightarrow> db \<Rightarrow> store_error + LeaderLease" where
  "GetLeaderLease env d =
     (case pool_query env ''store: get leader_lease'' db_lease d of
        Inl e \<Rightarrow> Inl e
      | Inr None \<Rightarrow> Inl (StoreError ''store: leader_lease row missing'')
      | Inr (Some l) \<Rightarrow> Inr l)"

section \<open>The elector\<close>

definition DefaultLeaseTTL :: duration where "DefaultLeaseTTL = 5 * Second"
definition DefaultRenewInterval :: duration where "DefaultRenewInterval = 1 * Second"

record Config =
  cfgIdentity :: string
  cfgAdvertiseAddr :: string
  cfgLeaseTTL :: duration
  cfgRenewInterval :: duration

record Elector =
  elCfg :: Config
  elIsLeader :: bool
  elEpoch :: int
  elLeaderAddr :: string

definition New_Elector :: "Config \<Rightarrow> Elector" where
  "New_Elector cfg =
     (let cfg = (if cfgLeaseTTL cfg \<le> 0 then cfg\<lparr>cfgLeaseTTL := DefaultLeaseTTL\<rparr> else cfg);
          cfg = (if cfgRenewInterval cfg \<le> 0 then cfg\<lparr>cfgRenewInterval := DefaultRenewInterval\<rparr> else cfg)
      in \<lparr>elCfg = cfg, elIsLeader = False, elEpoch = 0, elLeaderAddr = []\<rparr>)"

definition elector_tick :: "dbenv \<Rightarrow> time \<Rightarrow> Elector \<Rightarrow> db \<Rightarrow> Elector \<times> db" where
  "elector_tick env clk e d =
     (case TryAcquireOrRenewLease env clk (cfgIdentity (elCfg e)) (cfgAdvertiseAddr (elCfg e))
             (cfgLeaseTTL (elCfg e)) d of
        (Inl err, d') \<Rightarrow> (e, d')
      | (Inr result, d') \<Rightarrow>
          (e\<lparr>elIsLeader := aAcquired result, elEpoch := lEpoch (aLease result),
             elLeaderAddr := (if aAcquired result then cfgAdvertiseAddr (elCfg e)
                              else lLeaderAddr (aLease result))\<rparr>, d'))"

text \<open>What the elector shows to the other components.\<close>

definition elector_gate :: "Elector \<Rightarrow> LeaderGate" where
  "elector_gate e = \<lparr>gIsLeader = elIsLeader e, gLeaderAddr = elLeaderAddr e\<rparr>"

section \<open>Effect of one attempt\<close>

lemma lease_body_cases:
  assumes "lease_body env clk ident addr ttl d = Inr (r, d')"
  obtains (held) lease where "db_lease d = Some lease" "clk < lExpiresAt lease" "lLeaderID lease \<noteq> ident"
      "r = \<lparr>aAcquired = False, aLease = lease, aEpochBumped = False\<rparr>" "d' = d"
  | (taken) lease where "db_lease d = Some lease" "lExpiresAt lease \<le> clk \<or> lLeaderID lease = ident"
      "r = \<lparr>aAcquired = True, aLease = lease_row lease clk ident addr ttl,
            aEpochBumped = (lLeaderID lease \<noteq> ident)\<rparr>"
      "db_lease d' = Some (lease_row lease clk ident addr ttl)" "db_nodes d' = db_nodes d"
      "db_jobs d' = db_jobs d" "db_tasks d' = db_tasks d" "events_grow d d'"
proof -
  from assms obtain lease where lease: "db_lease d = Some lease"
    by (auto simp: lease_body_def split: if_splits option.splits)
  show thesis
  proof (cases "clk < lExpiresAt lease \<and> lLeaderID lease \<noteq> ident")
    case True
    with assms lease show thesis
      by (intro held [of lease]) (auto simp: lease_body_def Let_def split: if_splits)
  next
    case False
    let ?d1 = "d\<lparr>db_lease := Some (lease_row lease clk ident addr ttl)\<rparr>"
    from assms lease False have r: "r = \<lparr>aAcquired = True, aLease = lease_row lease clk ident addr ttl,
            aEpochBumped = (lLeaderID lease \<noteq> ident)\<rparr>"
      and d': "d' = ?d1 \<or> (\<exists>w ety eid evt msg. insertEvent env w ety eid evt msg ?d1 = Inr d')"
      by (auto simp: lease_body_def Let_def not_less split: if_splits sum.splits)
    have "db_lease d' = db_lease ?d1 \<and> db_nodes d' = db_nodes d \<and> db_jobs d' = db_jobs d
        \<and> db_tasks d' = db_tasks d \<and> events_grow d d'"
      using d' insertEvent_after [of env _ _ _ _ _ ?d1 d' d] by (auto simp: events_grow_same)
    with lease False r show thesis by (intro taken [of lease]) auto
  qed
qed

lemma TryAcquire_error: "TryAcquireOrRenewLease env clk i a ttl d = (Inl e, d') \<Longrightarrow> d' = d"
  by (auto simp: TryAcquireOrRenewLease_def split: if_splits sum.splits)

lemma TryAcquire_Inr:
  assumes "TryAcquireOrRenewLease env clk i a ttl d = (Inr r, d')"
  shows "lease_body env clk i a ttl d = Inr (r, d')" "i \<noteq> []" "0 < ttl"
  using assms by (auto simp: TryAcquireOrRenewLease_def split: if_splits sum.splits)

interpretation lease: store_method "\<lambda>env (clk, i, a, ttl). TryAcquireOrRenewLease env clk i a ttl"
proof (unfold_locales, goal_cases)
  case (1 env p d e d')
  then show ?case by (auto dest: TryAcquire_error split: prod.splits)
next
  case (2 env p d r d')
  obtain clk i a ttl where "p = (clk, i, a, ttl)" by (metis prod_cases4)
  with 2 have "lease_body env clk i a ttl d = Inr (r, d')" by (auto dest: TryAcquire_Inr)
  then show ?case using 2(2) by (cases rule: lease_body_cases) (auto simp: db_inv_def intro: events_grow_ok)
next
  case (3 env p d r d')
  obtain clk i a ttl where "p = (clk, i, a, ttl)" by (metis prod_cases4)
  with 3 have "lease_body env clk i a ttl d = Inr (r, d')" by (auto dest: TryAcquire_Inr)
  then show ?case by (cases rule: lease_body_cases) auto
next
  case (4 env p d r d')
  obtain clk i a ttl where "p = (clk, i, a, ttl)" by (metis prod_cases4)
  with 4 have "lease_body env clk i a ttl d = Inr (r, d')" by (auto dest: TryAcquire_Inr)
  then show ?case by (cases rule: lease_body_cases) auto
qed

section \<open>Elections of several replicas\<close>

text \<open>
  \<open>exNow\<close> is the clock the replicas agree on; \<open>exRenewed\<close> remembers, for each replica, the instant of
  its last attempt that held the lease, which the program does not store.
\<close>

record election =
  exElectors :: "Elector list"
  exDb :: db
  exNow :: time
  exRenewed :: "nat \<Rightarrow> time"

definition attempt_holds :: "dbenv \<Rightarrow> time \<Rightarrow> Elector \<Rightarrow> db \<Rightarrow> bool" where
  "attempt_holds env clk e d =
     (case fst (TryAcquireOrRenewLease env clk (cfgIdentity (elCfg e)) (cfgAdvertiseAddr (elCfg e))
             (cfgLeaseTTL (elCfg e)) d) of
        Inl err \<Rightarrow> False
      | Inr r \<Rightarrow> aAcquired r)"

definition election_start :: "Config list \<Rightarrow> time \<Rightarrow> election" where
  "election_start cfgs t = \<lparr>exElectors = map New_Elector cfgs, exDb = migrated_db t, exNow = t,
     exRenewed = (\<lambda>_. t)\<rparr>"

definition election_init :: "election \<Rightarrow> bool" where
  "election_init s \<longleftrightarrow> (\<exists>cfgs t. s = election_start cfgs t \<and> distinct (map cfgIdentity cfgs)
     \<and> [] \<notin> cfgIdentity ` set cfgs)"

text \<open>
  Time passes, one replica's loop ticks, one replica's process dies and starts again with nothing
  remembered, or any other transaction that leaves the lease alone runs.
\<close>

inductive election_step :: "election \<Rightarrow> election \<Rightarrow> bool" where
  Advance: "exNow s \<le> t \<Longrightarrow> election_step s (s\<lparr>exNow := t\<rparr>)"
| Other: "db_lease d = db_lease (exDb s) \<Longrightarrow> election_step s (s\<lparr>exDb := d\<rparr>)"
| Tick: "i < length (exElectors s) \<Longrightarrow>
    elector_tick env (exNow s) (exElectors s ! i) (exDb s) = (e, d) \<Longrightarrow>
    election_step s (s\<lparr>exElectors := (exElectors s)[i := e], exDb := d,
      exRenewed := (exRenewed s)(i := if attempt_holds env (exNow s) (exElectors s ! i) (exDb s)
                                      then exNow s else exRenewed s i)\<rparr>)"
| Restart: "i < length (exElectors s) \<Longrightarrow>
    election_step s (s\<lparr>exElectors := (exElectors s)[i := New_Elector (elCfg (exElectors s ! i))]\<rparr>)"

inductive_cases election_stepE: "election_step s s'"

abbreviation ident :: "Elector \<Rightarrow> string" where
  "ident e \<equiv> cfgIdentity (elCfg e)"

text \<open>What the lease row says about a replica that believes it leads.\<close>

definition belief_ok :: "LeaderLease \<Rightarrow> time \<Rightarrow> time \<Rightarrow> Elector \<Rightarrow> bool" where
  "belief_ok l t renewed e \<longleftrightarrow>
     (if lLeaderID l = ident e
      then elEpoch e = lEpoch l \<and> lExpiresAt l = renewed + cfgLeaseTTL (elCfg e)
      else elEpoch e < lEpoch l \<and> renewed + cfgLeaseTTL (elCfg e) \<le> t)"

definition election_inv :: "election \<Rightarrow> bool" where
  "election_inv s \<longleftrightarrow>
     distinct (map ident (exElectors s)) \<and> [] \<notin> ident ` set (exElectors s)
     \<and> (\<exists>l. db_lease (exDb s) = Some l
          \<and> (\<forall>i < length (exElectors s). elIsLeader (exElectors s ! i)
               \<longrightarrow> belief_ok l (exNow s) (exRenewed s i) (exElectors s ! i)))
     \<and> (\<forall>i < length (exElectors s). \<forall>j < length (exElectors s). i \<noteq> j
          \<longrightarrow> elIsLeader (exElectors s ! i) \<longrightarrow> elIsLeader (exElectors s ! j)
          \<longrightarrow> elEpoch (exElectors s ! i) \<noteq> elEpoch (exElectors s ! j))"

lemma belief_ok_le: "belief_ok l t r e \<Longrightarrow> elEpoch e \<le> lEpoch l"
  by (auto simp: belief_ok_def split: if_splits)

lemma election_invI:
  assumes "distinct (map ident (exElectors s))" "[] \<notin> ident ` set (exElectors s)"
    "db_lease (exDb s) = Some l"
    "\<And>j. j < length (exElectors s) \<Longrightarrow> elIsLeader (exElectors s ! j) \<Longrightarrow>
       belief_ok l (exNow s) (exRenewed s j) (exElectors s ! j)"
    "\<And>j k. j < length (exElectors s) \<Longrightarrow> k < length (exElectors s) \<Longrightarrow> j \<noteq> k \<Longrightarrow>
       elIsLeader (exElectors s ! j) \<Longrightarrow> elIsLeader (exElectors s ! k) \<Longrightarrow>
       elEpoch (exElectors s ! j) \<noteq> elEpoch (exElectors s ! k)"
  shows "election_inv s"
  using assms unfolding election_inv_def by blast

lemma election_invE:
  assumes "election_inv s"
  obtains l where "distinct (map ident (exElectors s))" "db_lease (exDb s) = Some l"
    "\<And>j. j < length (exElectors s) \<Longrightarrow> elIsLeader (exElectors s ! j) \<Longrightarrow>
       belief_ok l (exNow s) (exRenewed s j) (exElectors s ! j)"
    "\<And>j k. j < length (exElectors s) \<Longrightarrow> k < length (exElectors s) \<Longrightarrow> j \<noteq> k \<Longrightarrow>
       elIsLeader (exElectors s ! j) \<Longrightarrow> elIsLeader (exElectors s ! k) \<Longrightarrow>
       elEpoch (exElectors s ! j) \<noteq> elEpoch (exElectors s ! k)"
  using assms unfolding election_inv_def by blast

text \<open>The three outcomes of a tick.\<close>

lemma elector_tick_cases:
  assumes "elector_tick env clk e d = (e', d')" and "db_lease d = Some l"
  obtains (unchanged) "e' = e" "d' = d" "\<not> attempt_holds env clk e d"
  | (follower) "e' = e\<lparr>elIsLeader := False, elEpoch := lEpoch l, elLeaderAddr := lLeaderAddr l\<rparr>" "d' = d"
      "clk < lExpiresAt l" "lLeaderID l \<noteq> ident e" "\<not> attempt_holds env clk e d"
  | (leader) "e' = e\<lparr>elIsLeader := True,
        elEpoch := (if lLeaderID l = ident e then lEpoch l else lEpoch l + 1),
        elLeaderAddr := cfgAdvertiseAddr (elCfg e)\<rparr>"
      "db_lease d' = Some (lease_row l clk (ident e) (cfgAdvertiseAddr (elCfg e)) (cfgLeaseTTL (elCfg e)))"
      "lExpiresAt l \<le> clk \<or> lLeaderID l = ident e" "attempt_holds env clk e d"
proof (cases "TryAcquireOrRenewLease env clk (ident e) (cfgAdvertiseAddr (elCfg e))
      (cfgLeaseTTL (elCfg e)) d")
  case (Pair x d1)
  show thesis
  proof (cases x)
    case (Inl err)
    with Pair have "d1 = d" using TryAcquire_error by blast
    with Inl Pair assms(1) show thesis
      by (intro unchanged) (auto simp: elector_tick_def attempt_holds_def)
  next
    case (Inr r)
    with Pair have call: "TryAcquireOrRenewLease env clk (ident e) (cfgAdvertiseAddr (elCfg e))
      (cfgLeaseTTL (elCfg e)) d = (Inr r, d1)" by simp
    from TryAcquire_Inr(1) [OF call] show thesis
    proof (cases rule: lease_body_cases)
      case (held lease)
      with call assms show thesis
        by (intro follower) (auto simp: elector_tick_def attempt_holds_def)
    next
      case (taken lease)
      with call assms show thesis
        by (intro leader) (auto simp: elector_tick_def attempt_holds_def lease_row_def)
    qed
  qed
qed

lemma ident_elector_tick: "elector_tick env clk e d = (e', d') \<Longrightarrow> elCfg e' = elCfg e"
  by (auto simp: elector_tick_def split: prod.splits sum.splits)

lemma belief_after_takeover:
  assumes "belief_ok l t r e" and "ident e \<noteq> i" and "lExpiresAt l \<le> t \<or> lLeaderID l = i"
  shows "belief_ok (lease_row l t i a ttl) t r e \<and> elEpoch e < lEpoch (lease_row l t i a ttl)"
  using assms by (auto simp: belief_ok_def lease_row_def split: if_splits)

lemma map_ident_update:
  "elCfg e' = elCfg (es ! i) \<Longrightarrow> i < length es \<Longrightarrow> map ident (es[i := e']) = map ident es"
  by (simp add: map_update list_update_same_conv)

lemma election_tick_inv:
  assumes inv: "election_inv s" and i: "i < length (exElectors s)"
    and tick: "elector_tick env (exNow s) (exElectors s ! i) (exDb s) = (e, d)"
  shows "election_inv (s\<lparr>exElectors := (exElectors s)[i := e], exDb := d,
      exRenewed := (exRenewed s)(i := if attempt_holds env (exNow s) (exElectors s ! i) (exDb s)
                                      then exNow s else exRenewed s i)\<rparr>)"
proof -
  let ?es = "exElectors s"
  from inv obtain l where l: "db_lease (exDb s) = Some l"
    and dist: "distinct (map ident ?es)" "[] \<notin> ident ` set ?es"
    and bel: "\<And>j. j < length ?es \<Longrightarrow> elIsLeader (?es ! j) \<Longrightarrow> belief_ok l (exNow s) (exRenewed s j) (?es ! j)"
    and eps: "\<And>j k. j < length ?es \<Longrightarrow> k < length ?es \<Longrightarrow> j \<noteq> k \<Longrightarrow> elIsLeader (?es ! j)
        \<Longrightarrow> elIsLeader (?es ! k) \<Longrightarrow> elEpoch (?es ! j) \<noteq> elEpoch (?es ! k)"
    unfolding election_inv_def by blast
  have ids: "map ident (?es[i := e]) = map ident ?es"
    by (rule map_ident_update [OF ident_elector_tick [OF tick] i])
  then have ids': "ident ` set (?es[i := e]) = ident ` set ?es"
    by (metis list.set_map)
  have other: "ident (?es ! j) \<noteq> ident (?es ! i)" if "j < length ?es" "j \<noteq> i" for j
    using dist(1) that i by (auto simp: distinct_conv_nth)
  from tick l show ?thesis
  proof (cases rule: elector_tick_cases)
    case unchanged
    with inv show ?thesis by simp
  next
    case follower
    then show ?thesis
      unfolding election_inv_def using dist ids ids' l bel eps i
      by (auto simp: nth_list_update split: if_splits)
  next
    case leader
    let ?l = "lease_row l (exNow s) (ident (?es ! i)) (cfgAdvertiseAddr (elCfg (?es ! i)))
                (cfgLeaseTTL (elCfg (?es ! i)))"
    have rest: "belief_ok ?l (exNow s) (exRenewed s j) (?es ! j) \<and> elEpoch (?es ! j) < lEpoch ?l"
      if "j < length ?es" "j \<noteq> i" "elIsLeader (?es ! j)" for j
      by (rule belief_after_takeover [OF bel [OF that(1,3)] other [OF that(1,2)] leader(3)])
    have me: "ident e = ident (?es ! i)" "elIsLeader e" "elEpoch e = lEpoch ?l"
      "lLeaderID ?l = ident (?es ! i)"
      "belief_ok ?l (exNow s) (exNow s) e"
      by (simp_all add: leader(1) lease_row_def belief_ok_def)
    show ?thesis
    proof (rule election_invI [where l = ?l], goal_cases)
      case (4 j)
      then show ?case using rest me(5) leader(4) by (cases "j = i") auto
    next
      case (5 j k)
      then show ?case using rest [of j] rest [of k] me(3) eps [of j k]
        by (cases "j = i"; cases "k = i") auto
    qed (use dist ids ids' leader(2) i in auto)
  qed
qed

lemma New_Elector_sel:
  "ident (New_Elector cfg) = cfgIdentity cfg" "\<not> elIsLeader (New_Elector cfg)"
  "0 < cfgLeaseTTL (elCfg (New_Elector cfg))"
  by (simp_all add: New_Elector_def Let_def DefaultLeaseTTL_def duration_units)

lemma New_Elector_again: "New_Elector (elCfg (New_Elector cfg)) = New_Elector cfg"
  by (simp add: New_Elector_def Let_def DefaultLeaseTTL_def DefaultRenewInterval_def duration_units)

text \<open>A replica that starts again has forgotten that it led; the lease row has not.\<close>

lemma election_restart_inv:
  assumes inv: "election_inv s" and i: "i < length (exElectors s)"
  shows "election_inv (s\<lparr>exElectors := (exElectors s)[i := New_Elector (elCfg (exElectors s ! i))]\<rparr>)"
proof -
  define es where "es = (exElectors s)[i := New_Elector (elCfg (exElectors s ! i))]"
  have ids: "map ident es = map ident (exElectors s)"
    using i by (simp add: es_def map_update New_Elector_sel list_update_same_conv)
  then have "ident ` set es = ident ` set (exElectors s)" by (metis list.set_map)
  moreover have "elIsLeader (es ! j) \<Longrightarrow> es ! j = exElectors s ! j" if "j < length (exElectors s)" for j
    using that i by (auto simp: es_def nth_list_update New_Elector_sel split: if_splits)
  moreover have "length es = length (exElectors s)" by (simp add: es_def)
  ultimately show ?thesis using inv ids unfolding election_inv_def es_def [symmetric] by auto metis+
qed

interpretation elections: step_system election_init election_step election_inv
proof
  fix s assume "election_init s"
  then show "election_inv s"
    by (auto simp: election_init_def election_start_def election_inv_def New_Elector_sel
        migrated_db_def comp_def image_iff)
next
  fix s s' assume "election_step s s'" and inv: "election_inv s"
  then show "election_inv s'"
  proof (cases rule: election_step.cases)
    case (Advance t)
    with inv show ?thesis by (fastforce simp: election_inv_def belief_ok_def)
  next
    case (Other d)
    with inv show ?thesis by (simp add: election_inv_def)
  next
    case (Tick i env e d)
    with election_tick_inv [OF inv] show ?thesis by blast
  next
    case (Restart i)
    with election_restart_inv [OF inv] show ?thesis by blast
  qed
qed

section \<open>Properties\<close>

lemma lease_attempt_held:
  assumes "healthy env" and "i \<noteq> []" and "0 < ttl" and "db_lease d = Some l"
    and "lExpiresAt l \<le> clk \<or> lLeaderID l = i"
  shows "\<exists>d'. TryAcquireOrRenewLease env clk i a ttl d
      = (Inr \<lparr>aAcquired = True, aLease = lease_row l clk i a ttl,
               aEpochBumped = (lLeaderID l \<noteq> i)\<rparr>, d')
    \<and> db_lease d' = Some (lease_row l clk i a ttl)
    \<and> db_nodes d' = db_nodes d \<and> db_jobs d' = db_jobs d \<and> db_tasks d' = db_tasks d"
  using assms by (auto simp: TryAcquireOrRenewLease_def lease_body_def Let_def insertEvent_def)

text \<open>
  One attempt on the lease. With a healthy database and a valid identity and TTL, a replica gets
  the lease exactly when it has expired by the replica's clock or is already its own; it is then
  extended by the TTL, under the same epoch when it was its own and the next one otherwise. A lease
  somebody else still holds is reported unchanged. Nodes, jobs and tasks are not touched.
\<close>

theorem lease_attempt:
  assumes "healthy env" and "i \<noteq> []" and "0 < ttl" and "db_lease d = Some l"
  shows "\<exists>d'. TryAcquireOrRenewLease env clk i a ttl d
      = (Inr (if lExpiresAt l \<le> clk \<or> lLeaderID l = i
              then \<lparr>aAcquired = True, aLease = lease_row l clk i a ttl,
                    aEpochBumped = (lLeaderID l \<noteq> i)\<rparr>
              else \<lparr>aAcquired = False, aLease = l, aEpochBumped = False\<rparr>), d')
    \<and> db_lease d' = Some (if lExpiresAt l \<le> clk \<or> lLeaderID l = i then lease_row l clk i a ttl else l)
    \<and> db_nodes d' = db_nodes d \<and> db_jobs d' = db_jobs d \<and> db_tasks d' = db_tasks d"
  using assms
  by (auto simp: TryAcquireOrRenewLease_def lease_body_def Let_def insertEvent_def not_le)

theorem lease_attempt_witness:
  "\<exists>d'. TryAcquireOrRenewLease sample_env (12 * Second) ''s2'' ''s2:50051'' (5 * Second) sample_db
      = (Inr \<lparr>aAcquired = True,
               aLease = \<lparr>lLeaderID = ''s2'', lLeaderAddr = ''s2:50051'', lEpoch = 5,
                         lAcquiredAt = 12 * Second, lExpiresAt = 17 * Second\<rparr>,
               aEpochBumped = True\<rparr>, d')"
  using lease_attempt [OF healthy_sample, of "''s2''" "5 * Second" sample_db _ "12 * Second" "''s2:50051''"]
  by (auto simp: sample_db_def lease_row_def duration_units)

text \<open>
  C12: fencing of leaders. However the ticks of the replicas, failing or not, interleave with each
  other and with other transactions, two replicas that believe they lead at the same time have
  different epochs, and a replica's epoch is the one of the lease row exactly while it holds it.
\<close>

theorem leaders_have_distinct_epochs:
  assumes "reachable_by election_init election_step s"
    and "i < length (exElectors s)" and "elIsLeader (exElectors s ! i)"
  shows "(\<exists>l. db_lease (exDb s) = Some l \<and> elEpoch (exElectors s ! i) \<le> lEpoch l
           \<and> (elEpoch (exElectors s ! i) = lEpoch l \<longleftrightarrow> lLeaderID l = ident (exElectors s ! i)))
    \<and> (\<forall>j < length (exElectors s). j \<noteq> i \<longrightarrow> elIsLeader (exElectors s ! j)
         \<longrightarrow> elEpoch (exElectors s ! j) \<noteq> elEpoch (exElectors s ! i))"
proof -
  obtain l where l: "db_lease (exDb s) = Some l"
    and bel: "belief_ok l (exNow s) (exRenewed s i) (exElectors s ! i)"
    and eps: "\<And>j. j < length (exElectors s) \<Longrightarrow> j \<noteq> i \<Longrightarrow> elIsLeader (exElectors s ! j) \<Longrightarrow>
       elEpoch (exElectors s ! j) \<noteq> elEpoch (exElectors s ! i)"
    using elections.inv_reachable [OF assms(1)] assms(2,3) by (elim election_invE) blast
  from bel have "elEpoch (exElectors s ! i) \<le> lEpoch l
      \<and> (elEpoch (exElectors s ! i) = lEpoch l \<longleftrightarrow> lLeaderID l = ident (exElectors s ! i))"
    by (auto simp: belief_ok_def split: if_splits)
  with l eps show ?thesis by blast
qed

text \<open>
  A run of two replicas: the first takes the lease at instant 0 and then fails to reach the database;
  after the TTL the second takes over, and the tick of the first fails once more.
\<close>

definition tick_state :: "dbenv \<Rightarrow> nat \<Rightarrow> election \<Rightarrow> election" where
  "tick_state env i s =
     (let (e, d) = elector_tick env (exNow s) (exElectors s ! i) (exDb s) in
      s\<lparr>exElectors := (exElectors s)[i := e], exDb := d,
        exRenewed := (exRenewed s)(i := if attempt_holds env (exNow s) (exElectors s ! i) (exDb s)
                                        then exNow s else exRenewed s i)\<rparr>)"

lemma tick_state_step: "i < length (exElectors s) \<Longrightarrow> election_step s (tick_state env i s)"
  using election_step.Tick [of i s env]
  by (cases "elector_tick env (exNow s) (exElectors s ! i) (exDb s)") (simp add: tick_state_def)

definition replica_cfgs :: "Config list" where
  "replica_cfgs =
     [\<lparr>cfgIdentity = ''s1'', cfgAdvertiseAddr = ''s1:50051'', cfgLeaseTTL = 0, cfgRenewInterval = 0\<rparr>,
      \<lparr>cfgIdentity = ''s2'', cfgAdvertiseAddr = ''s2:50051'', cfgLeaseTTL = 0, cfgRenewInterval = 0\<rparr>]"

definition unreachable_env :: dbenv where
  "unreachable_env = sample_env\<lparr>db_fault := (\<lambda>_. True)\<rparr>"

definition first_elected :: election where
  "first_elected = tick_state sample_env 0 (election_start replica_cfgs 0)"

definition both_lead :: election where
  "both_lead = tick_state unreachable_env 0
     (tick_state sample_env 1 (first_elected\<lparr>exNow := 6 * Second\<rparr>))"

lemma length_tick_state [simp]:
  "length (exElectors (tick_state env i s)) = length (exElectors s)"
  by (simp add: tick_state_def split: prod.splits)

lemma both_lead_reachable: "reachable_by election_init election_step both_lead"
proof -
  let ?s0 = "election_start replica_cfgs 0" and ?s2 = "first_elected\<lparr>exNow := 6 * Second\<rparr>"
  have n: "length (exElectors ?s0) = 2" by (simp add: election_start_def replica_cfgs_def)
  have init: "election_init ?s0"
    unfolding election_init_def by (intro exI conjI, rule refl) (simp_all add: replica_cfgs_def)
  have s1: "election_step ?s0 first_elected"
    unfolding first_elected_def by (rule tick_state_step) (simp add: n)
  have "exNow first_elected = 0"
    by (simp add: first_elected_def tick_state_def election_start_def split: prod.splits)
  then have s2: "election_step first_elected ?s2"
    by (intro election_step.Advance) (simp add: duration_units)
  have n1: "length (exElectors first_elected) = 2" by (simp add: first_elected_def n)
  have s3: "election_step ?s2 (tick_state sample_env 1 ?s2)"
    by (rule tick_state_step) (simp add: n1)
  have s4: "election_step (tick_state sample_env 1 ?s2) both_lead"
    unfolding both_lead_def by (rule tick_state_step) (simp add: n1)
  note run = converse_rtranclp_into_rtranclp [OF s1 converse_rtranclp_into_rtranclp [OF s2
      converse_rtranclp_into_rtranclp [OF s3 r_into_rtranclp [of election_step, OF s4]]]]
  from init run show ?thesis unfolding reachable_by_def by (intro exI conjI)
qed

lemma both_lead_electors:
  "elIsLeader (exElectors both_lead ! 0)" "elIsLeader (exElectors both_lead ! 1)"
  "length (exElectors both_lead) = 2" "elEpoch (exElectors both_lead ! 0) = 1"
  "elEpoch (exElectors both_lead ! 1) = 2"
  by code_simp+

theorem leaders_have_distinct_epochs_witness:
  "elIsLeader (exElectors both_lead ! 0) \<and> elIsLeader (exElectors both_lead ! 1)
   \<and> elEpoch (exElectors both_lead ! 1) \<noteq> elEpoch (exElectors both_lead ! 0)"
  using leaders_have_distinct_epochs [OF both_lead_reachable, of 0] both_lead_electors
  by (metis numeral_2_eq_2 lessI zero_less_Suc One_nat_def zero_neq_one)

text \<open>
  Mutual exclusion of leaders. When the replicas' clocks agree, two replicas believe they lead
  at the same time only if one of them has not held a successful attempt for its whole lease TTL.
\<close>

theorem two_leaders_one_missed_renewal:
  assumes "reachable_by election_init election_step s"
    and "i < length (exElectors s)" and "j < length (exElectors s)" and "i \<noteq> j"
    and "elIsLeader (exElectors s ! i)" and "elIsLeader (exElectors s ! j)"
  shows "exRenewed s i + cfgLeaseTTL (elCfg (exElectors s ! i)) \<le> exNow s
       \<or> exRenewed s j + cfgLeaseTTL (elCfg (exElectors s ! j)) \<le> exNow s"
proof -
  obtain l where
    "belief_ok l (exNow s) (exRenewed s i) (exElectors s ! i)"
    "belief_ok l (exNow s) (exRenewed s j) (exElectors s ! j)"
    and "distinct (map ident (exElectors s))"
    using elections.inv_reachable [OF assms(1)] assms(2-) by (elim election_invE) blast
  moreover from this(3) have "ident (exElectors s ! i) \<noteq> ident (exElectors s ! j)"
    using assms(2-4) by (auto simp: distinct_conv_nth)
  ultimately show ?thesis by (auto simp: belief_ok_def split: if_splits)
qed

theorem two_leaders_one_missed_renewal_witness:
  "exRenewed both_lead 0 + cfgLeaseTTL (elCfg (exElectors both_lead ! 0)) \<le> exNow both_lead
   \<or> exRenewed both_lead 1 + cfgLeaseTTL (elCfg (exElectors both_lead ! 1)) \<le> exNow both_lead"
  by (rule two_leaders_one_missed_renewal [OF both_lead_reachable])
     (simp_all add: both_lead_electors [simplified])

text \<open>
  A replica whose attempts fail keeps believing it leads: two replicas can lead at once.
\<close>

lemma failed_tick_keeps_leadership:
  "\<exists>s. reachable_by election_init election_step s \<and> elIsLeader (exElectors s ! 0)
     \<and> elIsLeader (exElectors s ! 1) \<and> length (exElectors s) = 2"
  using both_lead_reachable both_lead_electors by blast

text \<open>
  Takeover. As soon as the lease has expired by its clock, the next tick of a replica that
  reaches the database makes it the leader under a new epoch and opens its gate, whoever held the
  lease before; its own address is then the one it redirects to.
\<close>

theorem expired_lease_taken:
  assumes "healthy env" and "db_lease d = Some l" and "lExpiresAt l \<le> clk"
    and "ident e \<noteq> []" and "0 < cfgLeaseTTL (elCfg e)"
  shows "\<exists>e' d'. elector_tick env clk e d = (e', d')
    \<and> gate_open (Some (elector_gate e')) \<and> gLeaderAddr (elector_gate e') = cfgAdvertiseAddr (elCfg e)
    \<and> elEpoch e' = (if lLeaderID l = ident e then lEpoch l else lEpoch l + 1)
    \<and> db_lease d' = Some (lease_row l clk (ident e) (cfgAdvertiseAddr (elCfg e)) (cfgLeaseTTL (elCfg e)))"
proof -
  obtain d' where "TryAcquireOrRenewLease env clk (ident e) (cfgAdvertiseAddr (elCfg e))
        (cfgLeaseTTL (elCfg e)) d
      = (Inr \<lparr>aAcquired = True, aLease = lease_row l clk (ident e) (cfgAdvertiseAddr (elCfg e))
          (cfgLeaseTTL (elCfg e)), aEpochBumped = (lLeaderID l \<noteq> ident e)\<rparr>, d')"
    and "db_lease d' = Some (lease_row l clk (ident e) (cfgAdvertiseAddr (elCfg e))
          (cfgLeaseTTL (elCfg e)))"
    using lease_attempt_held [OF assms(1,4,5,2)] assms(3) by blast
  then show ?thesis by (simp add: elector_tick_def elector_gate_def lease_row_def)
qed

theorem expired_lease_taken_witness:
  "\<exists>e' d'. elector_tick sample_env (12 * Second) (New_Elector (replica_cfgs ! 1)) sample_db = (e', d')
    \<and> gate_open (Some (elector_gate e')) \<and> elEpoch e' = 5"
proof -
  let ?l = "\<lparr>lLeaderID = ''s1'', lLeaderAddr = ''s1:50051'', lEpoch = 4, lAcquiredAt = 0,
             lExpiresAt = 12 * Second\<rparr>"
  have "db_lease sample_db = Some ?l" by (simp add: sample_db_def)
  from expired_lease_taken [OF healthy_sample this, of "12 * Second" "New_Elector (replica_cfgs ! 1)"]
  show ?thesis by (auto simp: New_Elector_sel replica_cfgs_def)
qed

end
