(* ===== verification/Cache.thy ===== *)
theory Cache
  imports Arbiter_Prelude
begin

text \<open>
  \<^verbatim>\<open>src/internal/cache/cache.go\<close>: heartbeat timestamps kept in Redis under a TTL. Redis is outside the
  program: its \<^verbatim>\<open>GET\<close>, \<^verbatim>\<open>SET\<close> with expiry and \<^verbatim>\<open>DEL\<close> are the fields of a \<open>redis\<close> record over an
  arbitrary server state \<open>'r\<close>, and \<open>redis_laws\<close> is what the program relies on. \<open>cacheenv\<close> has the
  server's clock and, per operation, whether the call fails. The theorem of this file is the round trip of
  a timestamp through its decimal text and the server.
\<close>

section \<open>Redis\<close>

record 'r redis =
  rd_get :: "time \<Rightarrow> string \<Rightarrow> 'r \<Rightarrow> string option"
  rd_set :: "time \<Rightarrow> string \<Rightarrow> string \<Rightarrow> duration \<Rightarrow> 'r \<Rightarrow> 'r"
  rd_del :: "string \<Rightarrow> 'r \<Rightarrow> 'r"

record cacheenv =
  ce_now :: time
  ce_fault :: "string \<Rightarrow> bool"

text \<open>
  The documented behaviour of the three commands: a value is readable until its expiry and gone
  afterwards, a deleted key is gone, and no command touches another key.
\<close>

definition redis_laws :: "'r redis \<Rightarrow> bool" where
  "redis_laws R \<longleftrightarrow>
     (\<forall>t u k v ttl r. t \<le> u \<and> u < t + ttl \<longrightarrow> rd_get R u k (rd_set R t k v ttl r) = Some v)
     \<and> (\<forall>t u k v ttl r. t + ttl \<le> u \<longrightarrow> rd_get R u k (rd_set R t k v ttl r) = None)
     \<and> (\<forall>t u k k' v ttl r. k' \<noteq> k \<longrightarrow> rd_get R u k' (rd_set R t k v ttl r) = rd_get R u k' r)
     \<and> (\<forall>u k r. rd_get R u k (rd_del R k r) = None)
     \<and> (\<forall>u k k' r. k' \<noteq> k \<longrightarrow> rd_get R u k' (rd_del R k r) = rd_get R u k' r)"

datatype cache_error = CacheError string

definition ClusterEventsChannel :: string where
  "ClusterEventsChannel = ''pubsub:cluster-events''"

definition lastSeenTTL :: duration where "lastSeenTTL = 5 * Minute"

definition parseAddr :: "(string \<Rightarrow> cache_error + 'o) \<Rightarrow> (string \<Rightarrow> 'o) \<Rightarrow> string \<Rightarrow> cache_error + 'o" where
  "parseAddr parseURL withAddr addr =
     (if HasPrefix addr ''redis://'' \<or> HasPrefix addr ''rediss://'' then parseURL addr
      else Inr (withAddr addr))"

definition lastSeenKey :: "string \<Rightarrow> string" where
  "lastSeenKey nodeID = ''hb:'' @ nodeID"

text \<open>The payload published for the dashboards; the channel carries it as JSON.\<close>

record ClusterEvent =
  ceID :: int
  ceEntityType :: string
  ceEntityID :: string
  ceEventType :: string
  ceMessage :: string
  ceCreatedAt :: time

section \<open>Decimal text\<close>

text \<open>\<^verbatim>\<open>strconv.ParseInt(_, 10, 64)\<close>.\<close>

definition is_digit :: "char \<Rightarrow> bool" where
  "is_digit c \<longleftrightarrow> 48 \<le> (of_char c :: nat) \<and> (of_char c :: nat) \<le> 57"

definition digits_value :: "string \<Rightarrow> nat" where
  "digits_value s = fold (\<lambda>c a. 10 * a + (of_char c - 48)) s 0"

definition ParseInt :: "string \<Rightarrow> int option" where
  "ParseInt s =
     (let neg = (s \<noteq> [] \<and> hd s = CHR ''-'');
          body = (if s \<noteq> [] \<and> hd s \<in> {CHR ''-'', CHR ''+''} then tl s else s)
      in if body = [] \<or> \<not> list_all is_digit body then None
         else let i = (if neg then - int (digits_value body) else int (digits_value body))
              in if in_i64 i then Some i else None)"

lemma of_char_digit: "n < 10 \<Longrightarrow> (of_char (char_of (48 + n) :: char) :: nat) = 48 + n"
  by (simp add: of_char_of)

lemma is_digit_char: "(n::nat) < 10 \<Longrightarrow> is_digit (char_of (48 + n))"
  by (simp add: is_digit_def of_char_digit)

lemma nat_digits_nonempty [simp]: "nat_digits n \<noteq> []"
  by (subst nat_digits.simps) simp

lemma nat_digits_digits: "list_all is_digit (nat_digits n)"
proof (induction n rule: nat_digits.induct)
  case (1 n)
  then show ?case by (subst nat_digits.simps) (simp add: is_digit_char)
qed

lemma digits_value_append: "digits_value (s @ [c]) = 10 * digits_value s + (of_char c - 48)"
  by (simp add: digits_value_def)

lemma nat_digits_value: "digits_value (nat_digits n) = n"
proof (induction n rule: nat_digits.induct)
  case (1 n)
  show ?case
  proof (cases "n < 10")
    case True
    then show ?thesis by (subst nat_digits.simps) (simp add: digits_value_def of_char_digit)
  next
    case False
    with 1 show ?thesis
      by (subst nat_digits.simps) (simp add: digits_value_append of_char_digit)
  qed
qed

lemma nat_digits_hd: "is_digit (hd (nat_digits n))"
  using nat_digits_digits [of n] by (cases "nat_digits n") auto

lemma not_digit_sign: "\<not> is_digit (CHR ''-'')" "\<not> is_digit (CHR ''+'')"
  by (simp_all add: is_digit_def)

lemma ParseInt_itoa: "in_i64 i \<Longrightarrow> ParseInt (itoa i) = Some i"
  using nat_digits_hd [of "nat i"] nat_digits_digits [of "nat i"] nat_digits_digits [of "nat (- i)"]
  by (auto simp: ParseInt_def itoa_def Let_def nat_digits_value not_digit_sign)

section \<open>Connecting, publishing and subscribing\<close>

text \<open>
  \<open>ping\<close> is whether a client with the given options reaches its server. \<open>encode\<close> and \<open>decode\<close> are the JSON
  encoding of the payload; \<open>publish channel payload\<close> is the command \<^verbatim>\<open>PUBLISH\<close>. A subscription is what it
  receives: \<open>None\<close> when subscribing fails, otherwise the payloads up to its end.
\<close>

definition cache_Connect ::
  "(string \<Rightarrow> cache_error + 'o) \<Rightarrow> (string \<Rightarrow> 'o) \<Rightarrow> ('o \<Rightarrow> bool) \<Rightarrow> string \<Rightarrow> cache_error + 'o" where
  "cache_Connect parseURL withAddr ping addr =
     (case parseAddr parseURL withAddr addr of
        Inl e \<Rightarrow> Inl (CacheError ''cache: parse redis address'')
      | Inr opts \<Rightarrow> if \<not> ping opts then Inl (CacheError ''cache: ping redis'') else Inr opts)"

definition PublishClusterEvent ::
  "(ClusterEvent \<Rightarrow> string option) \<Rightarrow> (string \<Rightarrow> string \<Rightarrow> 'p \<Rightarrow> bool \<times> 'p) \<Rightarrow> ClusterEvent \<Rightarrow> 'p
     \<Rightarrow> (cache_error + unit) \<times> 'p" where
  "PublishClusterEvent encode publish ev p =
     (case encode ev of
        None \<Rightarrow> (Inl (CacheError ''cache: marshal cluster event''), p)
      | Some payload \<Rightarrow>
          (case publish ClusterEventsChannel payload p of
             (True, p') \<Rightarrow> (Inr (), p')
           | (False, p') \<Rightarrow> (Inl (CacheError ''cache: publish cluster event''), p')))"

definition SubscribeClusterEvents ::
  "(string \<Rightarrow> ClusterEvent option) \<Rightarrow> string list option \<Rightarrow> cache_error + ClusterEvent list" where
  "SubscribeClusterEvents decode received =
     (case received of
        None \<Rightarrow> Inl (CacheError ''cache: subscribe cluster events'')
      | Some payloads \<Rightarrow> Inr (List.map_filter decode payloads))"

text \<open>What was published comes out as it was, and what does not decode is skipped.\<close>

lemma subscribed_published:
  assumes "\<And>ev. decode (encode ev) = Some ev"
  shows "SubscribeClusterEvents decode (Some (map encode evs)) = Inr evs"
    and "decode x = None \<Longrightarrow> SubscribeClusterEvents decode (Some (us @ x # vs)) = SubscribeClusterEvents decode (Some (us @ vs))"
proof -
  have "List.map_filter decode (map encode evs) = evs" by (induction evs) (simp_all add: map_filter_simps assms)
  then show "SubscribeClusterEvents decode (Some (map encode evs)) = Inr evs" by (simp add: SubscribeClusterEvents_def)
  show "decode x = None \<Longrightarrow> SubscribeClusterEvents decode (Some (us @ x # vs)) = SubscribeClusterEvents decode (Some (us @ vs))"
    by (simp add: SubscribeClusterEvents_def List.map_filter_def)
qed

section \<open>Last-seen timestamps\<close>

definition UnixMilli :: "time \<Rightarrow> int" where "UnixMilli t = t div Millisecond"
definition from_UnixMilli :: "int \<Rightarrow> time" where "from_UnixMilli ms = ms * Millisecond"

definition SetLastSeenAt ::
  "'r redis \<Rightarrow> cacheenv \<Rightarrow> string \<Rightarrow> time \<Rightarrow> 'r \<Rightarrow> (cache_error + unit) \<times> 'r" where
  "SetLastSeenAt R env nodeID t r =
     (if ce_fault env ''cache: set last seen'' then (Inl (CacheError ''cache: set last seen''), r)
      else (Inr (), rd_set R (ce_now env) (lastSeenKey nodeID) (itoa (UnixMilli t)) lastSeenTTL r))"

text \<open>\<open>clk\<close> is the clock of the process that calls.\<close>

definition SetLastSeen ::
  "'r redis \<Rightarrow> cacheenv \<Rightarrow> time \<Rightarrow> string \<Rightarrow> 'r \<Rightarrow> (cache_error + unit) \<times> 'r" where
  "SetLastSeen R env clk nodeID r = SetLastSeenAt R env nodeID clk r"

definition GetLastSeen ::
  "'r redis \<Rightarrow> cacheenv \<Rightarrow> string \<Rightarrow> 'r \<Rightarrow> cache_error + time option" where
  "GetLastSeen R env nodeID r =
     (if ce_fault env ''cache: get last seen'' then Inl (CacheError ''cache: get last seen'')
      else case rd_get R (ce_now env) (lastSeenKey nodeID) r of
        None \<Rightarrow> Inr None
      | Some val \<Rightarrow>
          (case ParseInt val of
             None \<Rightarrow> Inl (CacheError (''cache: parse last seen value '' @ quoted val))
           | Some ms \<Rightarrow> Inr (Some (from_UnixMilli ms))))"

definition DeleteLastSeen ::
  "'r redis \<Rightarrow> cacheenv \<Rightarrow> string \<Rightarrow> 'r \<Rightarrow> (cache_error + unit) \<times> 'r" where
  "DeleteLastSeen R env nodeID r =
     (if ce_fault env ''cache: delete last seen'' then (Inl (CacheError ''cache: delete last seen''), r)
      else (Inr (), rd_del R (lastSeenKey nodeID) r))"

text \<open>A timestamp cut to milliseconds, as it comes back.\<close>

definition to_ms :: "time \<Rightarrow> time" where "to_ms t = t div Millisecond * Millisecond"

lemma to_ms_bounds: "to_ms t \<le> t" "t < to_ms t + Millisecond"
  unfolding to_ms_def Millisecond_def by presburger+

lemma lastSeenKey_inj: "lastSeenKey a = lastSeenKey b \<longleftrightarrow> a = b"
  by (simp add: lastSeenKey_def)

lemma GetLastSeen_SetLastSeenAt:
  assumes "redis_laws R" and "\<not> ce_fault env ''cache: set last seen''"
    and "\<not> ce_fault env' ''cache: get last seen''" and "in_i64 (UnixMilli t)"
    and "ce_now env \<le> ce_now env'"
  shows "GetLastSeen R env' m (snd (SetLastSeenAt R env n t r))
     = (if m \<noteq> n then GetLastSeen R env' m r
        else Inr (if ce_now env' < ce_now env + lastSeenTTL then Some (to_ms t) else None))"
  using assms
  by (auto simp: SetLastSeenAt_def GetLastSeen_def redis_laws_def lastSeenKey_inj ParseInt_itoa
        from_UnixMilli_def to_ms_def UnixMilli_def not_less)

section \<open>Properties\<close>

text \<open>
  Heartbeat timestamps. After \<open>SetLastSeenAt\<close> with time \<open>t\<close>, \<open>GetLastSeen\<close> of that node returns \<open>t\<close>
  cut to milliseconds (so at most 1 ms early, never late) until the TTL has passed on the server's clock
  and nothing afterwards; the timestamps of other nodes are not touched.
\<close>

theorem last_seen_roundtrip:
  assumes "redis_laws R" and "\<not> ce_fault env ''cache: set last seen''"
    and "\<not> ce_fault env' ''cache: get last seen''" and "in_i64 (UnixMilli t)"
    and "ce_now env \<le> ce_now env'"
  shows "(\<exists>u. to_ms t = u \<and> u \<le> t \<and> t < u + Millisecond)
    \<and> GetLastSeen R env' m (snd (SetLastSeenAt R env n t r))
     = (if m \<noteq> n then GetLastSeen R env' m r
        else Inr (if ce_now env' < ce_now env + 300000000000 then Some (to_ms t) else None))"
  using GetLastSeen_SetLastSeenAt [OF assms] to_ms_bounds
  by (simp add: lastSeenTTL_def duration_units)

text \<open>A Redis server as a map from keys to values with their expiry.\<close>

definition map_redis :: "(string \<Rightarrow> (string \<times> time) option) redis" where
  "map_redis = \<lparr>rd_get = (\<lambda>t k r. case r k of None \<Rightarrow> None
                            | Some (v, e) \<Rightarrow> if t < e then Some v else None),
                rd_set = (\<lambda>t k v ttl r. r(k \<mapsto> (v, t + ttl))),
                rd_del = (\<lambda>k r. r(k := None))\<rparr>"

lemma map_redis_laws: "redis_laws map_redis"
  by (simp add: redis_laws_def map_redis_def)

definition sample_cenv :: cacheenv where
  "sample_cenv = \<lparr>ce_now = 10000000000, ce_fault = (\<lambda>_. False)\<rparr>"

theorem last_seen_roundtrip_witness:
  "GetLastSeen map_redis sample_cenv ''n1''
     (snd (SetLastSeenAt map_redis sample_cenv ''n1'' 7123456789 (\<lambda>_. None))) = Inr (Some 7123000000)"
  using last_seen_roundtrip [OF map_redis_laws, of sample_cenv sample_cenv 7123456789 "''n1''" "''n1''"
      "\<lambda>_. None"]
  by (simp add: sample_cenv_def to_ms_def UnixMilli_def in_i64_def Millisecond_def)

end
