(* ===== verification/Failure_Detector.thy ===== *)
theory Failure_Detector
  imports Store_Props Cache Leader_Gate
begin

text \<open>
  \<^verbatim>\<open>src/internal/failuredetector/failuredetector.go\<close>: the sweep over the active nodes that compares the
  age of each node's last heartbeat with two thresholds. \<open>env\<close> gives the database environment of the
  transaction run for each node, \<open>clk\<close> the detector's clock. The result of a sweep is the new database
  and the batches of task ids handed to the container reaper. The main lemma describes a sweep as one
  map over the node rows and one over the task rows.
\<close>

record DetectorConfig =
  dcPollInterval :: duration
  dcNotReadyAfter :: duration
  dcDeadAfter :: duration

definition DefaultConfig :: "duration \<Rightarrow> DetectorConfig" where
  "DefaultConfig heartbeatInterval =
     \<lparr>dcPollInterval = heartbeatInterval div 2, dcNotReadyAfter = heartbeatInterval * 2,
      dcDeadAfter = heartbeatInterval * 3\<rparr>"

text \<open>\<^verbatim>\<open>time.Since\<close> saturates at the ends of \<open>int64\<close>.\<close>

definition max_duration :: duration where "max_duration = 2 ^ 63 - 1"

definition Since :: "time \<Rightarrow> time \<Rightarrow> duration" where
  "Since clk t = max (- (2 ^ 63)) (min max_duration (clk - t))"

definition age_of :: "time \<Rightarrow> time option \<Rightarrow> duration" where
  "age_of clk lastSeen = (case lastSeen of None \<Rightarrow> max_duration | Some t \<Rightarrow> Since clk t)"

definition evaluate ::
  "'r redis \<Rightarrow> cacheenv \<Rightarrow> time \<Rightarrow> DetectorConfig \<Rightarrow> bool \<Rightarrow> dbenv \<Rightarrow> 'r \<Rightarrow> Node \<Rightarrow> db
   \<Rightarrow> string list option \<times> db" where
  "evaluate R cenv clk cfg docker env r n d =
     (case GetLastSeen R cenv (nID n) r of
        Inl e \<Rightarrow> (None, d)
      | Inr lastSeen \<Rightarrow>
          (let age = age_of clk lastSeen in
           if dcDeadAfter cfg \<le> age
           then (case MarkNodeDead env (nID n) d of
                   (Inl e, d') \<Rightarrow> (None, d')
                 | (Inr result, d') \<Rightarrow>
                     (if docker \<and> mOrphanedTaskIDs result \<noteq> [] then Some (mOrphanedTaskIDs result)
                      else None, d'))
           else if dcNotReadyAfter cfg \<le> age
           then (if nStatus n \<noteq> NodeStatusReady then (None, d)
                 else (None, snd (UpdateNodeStatus env (nID n) NodeStatusNotReady
                                    EventTypeNodeNotReady ''missed heartbeats; downgraded to not_ready'' d)))
           else (None, d)))"

fun evaluate_all ::
  "'r redis \<Rightarrow> cacheenv \<Rightarrow> time \<Rightarrow> DetectorConfig \<Rightarrow> bool \<Rightarrow> (string \<Rightarrow> dbenv) \<Rightarrow> 'r \<Rightarrow> Node list \<Rightarrow> db
   \<Rightarrow> string list list \<times> db" where
  "evaluate_all R cenv clk cfg docker env r [] d = ([], d)"
| "evaluate_all R cenv clk cfg docker env r (n # ns) d =
     (let (reap, d1) = evaluate R cenv clk cfg docker (env (nID n)) r n d;
          (reaps, d2) = evaluate_all R cenv clk cfg docker env r ns d1
      in ((case reap of None \<Rightarrow> reaps | Some ids \<Rightarrow> ids # reaps), d2))"

definition detector_tick ::
  "'r redis \<Rightarrow> cacheenv \<Rightarrow> time \<Rightarrow> DetectorConfig \<Rightarrow> bool \<Rightarrow> LeaderGate option \<Rightarrow> (string \<Rightarrow> dbenv) \<Rightarrow> dbenv
   \<Rightarrow> 'r \<Rightarrow> db \<Rightarrow> string list list \<times> db" where
  "detector_tick R cenv clk cfg docker leader env env0 r d =
     (if \<not> gate_open leader then ([], d)
      else case ListActiveNodes env0 d of
             Inl e \<Rightarrow> ([], d)
           | Inr nodes \<Rightarrow> evaluate_all R cenv clk cfg docker env r nodes d)"

interpretation detector: gated_loop
  "\<lambda>(R, cenv, clk, cfg, docker, env, env0, r) g d. snd (detector_tick R cenv clk cfg docker g env env0 r d)"
  by unfold_locales (auto simp: detector_tick_def)

section \<open>The invariant\<close>

text \<open>Whatever fails, a sweep keeps the database contract of the store.\<close>

definition keeps_contract :: "db \<Rightarrow> db \<Rightarrow> bool" where
  "keeps_contract d d' \<longleftrightarrow> (db_inv d \<longrightarrow> db_inv d' \<and> epochs_le (db_nodes d) (db_nodes d')) \<and> events_grow d d'
     \<and> db_lease d' = db_lease d"

lemma keeps_contract_refl [simp]: "keeps_contract d d"
  by (simp add: keeps_contract_def)

lemma keeps_contract_trans: "keeps_contract a b \<Longrightarrow> keeps_contract b c \<Longrightarrow> keeps_contract a c"
  by (auto simp: keeps_contract_def intro: epochs_le_trans events_grow_trans)

lemma snd_lease_MarkNodeDead: "db_lease (snd (MarkNodeDead env nid d)) = db_lease d"
  by (cases "MarkNodeDead env nid d"; cases "fst (MarkNodeDead env nid d)")
     (auto dest: MarkNodeDead_error MarkNodeDead_effect(5))

lemma snd_lease_UpdateNodeStatus: "db_lease (snd (UpdateNodeStatus env nid st evt msg d)) = db_lease d"
  by (cases "UpdateNodeStatus env nid st evt msg d"; cases "fst (UpdateNodeStatus env nid st evt msg d)")
     (auto dest: UpdateNodeStatus_error UpdateNodeStatus_effect(4))

lemma MarkNodeDead_contract: "keeps_contract d (snd (MarkNodeDead env nid d))"
  by (simp add: keeps_contract_def markdead.call_inv markdead.call_epochs markdead.call_audit
      snd_lease_MarkNodeDead)

lemma UpdateNodeStatus_contract: "keeps_contract d (snd (UpdateNodeStatus env nid st evt msg d))"
  using nodestatus.call_inv [of d env "(nid, st, evt, msg)"]
    nodestatus.call_epochs [of d env "(nid, st, evt, msg)"]
    nodestatus.call_audit [of d env "(nid, st, evt, msg)"]
  by (simp add: keeps_contract_def snd_lease_UpdateNodeStatus)

lemma evaluate_db:
  "snd (evaluate R cenv clk cfg docker env r n d) =
     (case GetLastSeen R cenv (nID n) r of
        Inl e \<Rightarrow> d
      | Inr lastSeen \<Rightarrow>
          if dcDeadAfter cfg \<le> age_of clk lastSeen then snd (MarkNodeDead env (nID n) d)
          else if dcNotReadyAfter cfg \<le> age_of clk lastSeen \<and> nStatus n = NodeStatusReady
          then snd (UpdateNodeStatus env (nID n) NodeStatusNotReady EventTypeNodeNotReady
                      ''missed heartbeats; downgraded to not_ready'' d)
          else d)"
  by (auto simp: evaluate_def Let_def split: sum.splits prod.splits)

lemma evaluate_contract: "keeps_contract d (snd (evaluate R cenv clk cfg docker env r n d))"
  by (auto simp: evaluate_db MarkNodeDead_contract UpdateNodeStatus_contract split: sum.splits)

lemma evaluate_jobs: "db_jobs (snd (evaluate R cenv clk cfg docker env r n d)) = db_jobs d"
proof -
  have "db_jobs (snd (MarkNodeDead env nid d)) = db_jobs d" for nid
    by (cases "MarkNodeDead env nid d"; cases "fst (MarkNodeDead env nid d)")
       (auto dest: MarkNodeDead_error MarkNodeDead_effect(4))
  moreover have "db_jobs (snd (UpdateNodeStatus env nid st evt msg d)) = db_jobs d" for nid st evt msg
    by (cases "UpdateNodeStatus env nid st evt msg d"; cases "fst (UpdateNodeStatus env nid st evt msg d)")
       (auto dest: UpdateNodeStatus_error UpdateNodeStatus_effect(2))
  ultimately show ?thesis by (simp add: evaluate_db split: sum.splits)
qed

lemma evaluate_all_Cons:
  "snd (evaluate_all R cenv clk cfg docker env r (n # ns) d)
     = snd (evaluate_all R cenv clk cfg docker env r ns
              (snd (evaluate R cenv clk cfg docker (env (nID n)) r n d)))"
  by (simp add: Let_def split: prod.splits)

lemma evaluate_all_jobs: "db_jobs (snd (evaluate_all R cenv clk cfg docker env r ns d)) = db_jobs d"
proof (induction ns arbitrary: d)
  case (Cons n ns)
  then show ?case by (simp only: evaluate_all_Cons evaluate_jobs)
qed simp

lemma evaluate_all_contract: "keeps_contract d (snd (evaluate_all R cenv clk cfg docker env r ns d))"
proof (induction ns arbitrary: d)
  case (Cons n ns)
  then show ?case using keeps_contract_trans [OF evaluate_contract Cons.IH] by (simp only: evaluate_all_Cons)
qed simp

lemma detector_tick_contract:
  "keeps_contract d (snd (detector_tick R cenv clk cfg docker leader env env0 r d))"
  by (auto simp: detector_tick_def evaluate_all_contract split: sum.splits)

section \<open>What a sweep does\<close>

text \<open>The verdict on an active node whose last heartbeat is \<open>age\<close> old.\<close>

definition judge :: "DetectorConfig \<Rightarrow> duration \<Rightarrow> Node \<Rightarrow> Node" where
  "judge cfg age n =
     (if dcDeadAfter cfg \<le> age then bump_dead n
      else if dcNotReadyAfter cfg \<le> age \<and> nStatus n = NodeStatusReady
      then n\<lparr>nStatus := NodeStatusNotReady\<rparr> else n)"

definition requeue_if :: "(string \<Rightarrow> bool) \<Rightarrow> Task \<Rightarrow> Task" where
  "requeue_if dead t = (if (\<exists>nid. dead nid \<and> occupies nid t) then requeue_orphan t else t)"

lemma judge_id [simp]: "nID (judge cfg age n) = nID n"
  by (simp add: judge_def bump_dead_def)

lemma occupies_requeued [simp]: "\<not> occupies nid (requeue_orphan t)"
  by (simp add: occupies_def requeue_orphan_def)

lemma occupies_unique: "occupies a t \<Longrightarrow> occupies b t \<longleftrightarrow> a = b"
  by (auto simp: occupies_def)

lemma requeue_if_comp: "requeue_if Q (requeue_if P t) = requeue_if (\<lambda>n. P n \<or> Q n) t"
  by (auto simp: requeue_if_def)

lemma requeue_if_one: "update_where (occupies nid) requeue_orphan ts = map (requeue_if ((=) nid)) ts"
  by (simp add: update_where_def requeue_if_def)

lemma requeue_if_none: "map (requeue_if (\<lambda>_. False)) ts = ts"
  by (simp add: requeue_if_def map_idI)

lemma UpdateNodeStatus_total:
  "healthy env \<Longrightarrow> find (\<lambda>n. nID n = nid) (db_nodes d) = Some n \<Longrightarrow>
     \<exists>r d'. UpdateNodeStatus env nid st evt msg d = (Inr r, d')"
  by (simp add: UpdateNodeStatus_def healthy_in_tx insertEvent_def)

text \<open>One node.\<close>

lemma evaluate_rows:
  assumes inv: "db_inv d" and env: "healthy env" and n: "n \<in> set (db_nodes d)"
    and seen: "GetLastSeen R cenv (nID n) r = Inr seen"
    and d': "d' = snd (evaluate R cenv clk cfg docker env r n d)"
  shows "db_nodes d' = map (\<lambda>m. if nID m = nID n then judge cfg (age_of clk seen) m else m) (db_nodes d)"
    and "db_tasks d' = map (requeue_if (\<lambda>nid. nid = nID n \<and> dcDeadAfter cfg \<le> age_of clk seen)) (db_tasks d)"
proof -
  have f: "find (\<lambda>m. nID m = nID n) (db_nodes d) = Some n"
    using n rows_ok_find_node [OF db_inv_rows [OF inv]] by simp
  have uniq: "m = n" if "m \<in> set (db_nodes d)" "nID m = nID n" for m
    using rows_ok_node_unique [OF db_inv_rows [OF inv] that(1) n that(2)] .
  consider (dead) "dcDeadAfter cfg \<le> age_of clk seen"
    | (late) "\<not> dcDeadAfter cfg \<le> age_of clk seen" "dcNotReadyAfter cfg \<le> age_of clk seen"
        "nStatus n = NodeStatusReady"
    | (fine) "\<not> dcDeadAfter cfg \<le> age_of clk seen"
        "\<not> (dcNotReadyAfter cfg \<le> age_of clk seen \<and> nStatus n = NodeStatusReady)"
    by blast
  then have "db_nodes d' = map (\<lambda>m. if nID m = nID n then judge cfg (age_of clk seen) m else m) (db_nodes d)
     \<and> db_tasks d' = map (requeue_if (\<lambda>nid. nid = nID n \<and> dcDeadAfter cfg \<le> age_of clk seen)) (db_tasks d)"
  proof cases
    case dead
    obtain res d1 where call: "MarkNodeDead env (nID n) d = (Inr res, d1)"
      using MarkNodeDead_total [OF env f] by blast
    with dead seen d' have "d' = d1" by (simp add: evaluate_db)
    with MarkNodeDead_effect(3) [OF call] MarkNodeDead_tasks [OF call inv] dead show ?thesis
      by (auto simp: judge_def update_where_def requeue_if_def)
  next
    case late
    obtain res d1 where call: "UpdateNodeStatus env (nID n) NodeStatusNotReady EventTypeNodeNotReady
        ''missed heartbeats; downgraded to not_ready'' d = (Inr res, d1)"
      using UpdateNodeStatus_total [OF env f] by blast
    with late seen d' have "d' = d1" by (simp add: evaluate_db)
    with UpdateNodeStatus_effect [OF call] late uniq show ?thesis
      by (auto simp: judge_def update_where_def requeue_if_none)
  next
    case fine
    with seen d' have "d' = d" by (auto simp: evaluate_db)
    moreover have "judge cfg (age_of clk seen) m = m" if "m \<in> set (db_nodes d)" "nID m = nID n" for m
      using fine uniq [OF that] by (auto simp: judge_def)
    ultimately show ?thesis using fine by (auto simp: requeue_if_none intro!: map_idI [symmetric])
  qed
  then show "db_nodes d' = map (\<lambda>m. if nID m = nID n then judge cfg (age_of clk seen) m else m) (db_nodes d)"
    and "db_tasks d' = map (requeue_if (\<lambda>nid. nid = nID n \<and> dcDeadAfter cfg \<le> age_of clk seen)) (db_tasks d)"
    by blast+
qed

text \<open>All nodes of a snapshot.\<close>

lemma evaluate_all_rows:
  "db_inv d \<Longrightarrow> (\<And>nid. healthy (env nid)) \<Longrightarrow> distinct (map nID ns) \<Longrightarrow> set ns \<subseteq> set (db_nodes d) \<Longrightarrow>
   (\<And>n. n \<in> set ns \<Longrightarrow> GetLastSeen R cenv (nID n) r = Inr (seen (nID n))) \<Longrightarrow>
   d' = snd (evaluate_all R cenv clk cfg docker env r ns d) \<Longrightarrow>
     db_nodes d' = map (\<lambda>m. if nID m \<in> nID ` set ns then judge cfg (age_of clk (seen (nID m))) m else m)
                     (db_nodes d)
     \<and> db_tasks d' = map (requeue_if (\<lambda>nid. nid \<in> nID ` set ns \<and> dcDeadAfter cfg \<le> age_of clk (seen nid)))
                     (db_tasks d)"
proof (induction ns arbitrary: d)
  case Nil
  then show ?case by (simp add: requeue_if_none)
next
  case (Cons n ns)
  define d1 where "d1 = snd (evaluate R cenv clk cfg docker (env (nID n)) r n d)"
  from Cons.prems have n: "n \<in> set (db_nodes d)" "GetLastSeen R cenv (nID n) r = Inr (seen (nID n))"
    by auto
  note one = evaluate_rows [OF Cons.prems(1) Cons.prems(2) n d1_def]
  have inv1: "db_inv d1"
    using evaluate_contract [of d R cenv clk cfg docker "env (nID n)" r n] Cons.prems(1)
    unfolding d1_def keeps_contract_def by blast
  have "m \<in> set (db_nodes d1)" if "m \<in> set ns" for m
  proof -
    from that Cons.prems(3,4) have "m \<in> set (db_nodes d)" "nID m \<noteq> nID n"
      by (auto simp: image_iff)
    then show ?thesis unfolding one(1) by (simp add: image_iff)
  qed
  then have sub: "set ns \<subseteq> set (db_nodes d1)" by blast
  have rec: "d' = snd (evaluate_all R cenv clk cfg docker env r ns d1)"
    unfolding Cons.prems(6) d1_def by (simp add: Let_def split: prod.splits)
  have IH: "db_nodes d' = map (\<lambda>m. if nID m \<in> nID ` set ns then judge cfg (age_of clk (seen (nID m))) m else m)
                     (db_nodes d1)
     \<and> db_tasks d' = map (requeue_if (\<lambda>nid. nid \<in> nID ` set ns \<and> dcDeadAfter cfg \<le> age_of clk (seen nid)))
                     (db_tasks d1)"
    by (rule Cons.IH [OF inv1 Cons.prems(2) _ sub _ rec]) (use Cons.prems(3,5) in auto)
  have nin: "nID n \<notin> nID ` set ns" using Cons.prems(3) by auto
  have eq: "(\<lambda>nid. (nid = nID n \<and> dcDeadAfter cfg \<le> age_of clk (seen (nID n)))
        \<or> (nid \<in> nID ` set ns \<and> dcDeadAfter cfg \<le> age_of clk (seen nid)))
      = (\<lambda>nid. nid \<in> nID ` set (n # ns) \<and> dcDeadAfter cfg \<le> age_of clk (seen nid))" by auto
  have "db_tasks d' = map (requeue_if (\<lambda>nid. nid \<in> nID ` set (n # ns)
        \<and> dcDeadAfter cfg \<le> age_of clk (seen nid))) (db_tasks d)"
    using IH unfolding one(2) eq [symmetric] by (simp add: requeue_if_comp comp_def)
  moreover have "db_nodes d' = map (\<lambda>m. if nID m \<in> nID ` set (n # ns)
        then judge cfg (age_of clk (seen (nID m))) m else m) (db_nodes d)"
    using IH nin unfolding one(1) by auto
  ultimately show ?case by blast
qed

section \<open>Properties\<close>

text \<open>
  C13: A sweep of the failure detector. On a leader with a healthy database and readable heartbeats, every
  node that is neither dead nor cordoned is judged by the age of its last heartbeat: at \<open>DeadAfter\<close> it is
  dead under the next epoch and all its scheduled and running tasks are pending again; at \<open>NotReadyAfter\<close>
  a ready node becomes not-ready with its epoch and tasks untouched; otherwise nothing changes. No other
  row changes.
\<close>

theorem detector_sweep:
  assumes "db_inv d" and "\<And>nid. healthy (env nid)" and "healthy env0" and "gate_open leader"
    and "\<And>n. n \<in> set (db_nodes d) \<Longrightarrow> GetLastSeen R cenv (nID n) r = Inr (seen (nID n))"
    and "d' = snd (detector_tick R cenv clk cfg docker leader env env0 r d)"
  shows "db_nodes d' = map (\<lambda>n. if nStatus n \<in> {NodeStatusDead, NodeStatusCordoned} then n
            else if dcDeadAfter cfg \<le> age_of clk (seen (nID n))
            then n\<lparr>nStatus := NodeStatusDead, nEpoch := nEpoch n + 1\<rparr>
            else if dcNotReadyAfter cfg \<le> age_of clk (seen (nID n)) \<and> nStatus n = NodeStatusReady
            then n\<lparr>nStatus := NodeStatusNotReady\<rparr> else n) (db_nodes d)
    \<and> db_tasks d' = map (\<lambda>t. if list_ex (\<lambda>n. nStatus n \<notin> {NodeStatusDead, NodeStatusCordoned}
                 \<and> dcDeadAfter cfg \<le> age_of clk (seen (nID n)) \<and> occupies (nID n) t) (db_nodes d)
            then requeue_orphan t else t) (db_tasks d)
    \<and> db_jobs d' = db_jobs d \<and> db_lease d' = db_lease d"
proof -
  let ?ns = "filter (\<lambda>n. nStatus n \<notin> {NodeStatusDead, NodeStatusCordoned}) (db_nodes d)"
  let ?ns' = "sort_key nCreatedAt ?ns"
  have tick: "d' = snd (evaluate_all R cenv clk cfg docker env r ?ns' d)"
    using assms(3,4,6) by (simp add: detector_tick_def ListActiveNodes_def pool_query_def)
  have dist: "distinct (map nID ?ns')"
    using db_inv_rows [OF assms(1)] by (auto simp: rows_ok_def distinct_map intro: inj_on_subset)
  have rows: "db_nodes d' = map (\<lambda>m. if nID m \<in> nID ` set ?ns' then judge cfg (age_of clk (seen (nID m))) m else m)
                     (db_nodes d)
     \<and> db_tasks d' = map (requeue_if (\<lambda>nid. nid \<in> nID ` set ?ns' \<and> dcDeadAfter cfg \<le> age_of clk (seen nid)))
                     (db_tasks d)"
    by (rule evaluate_all_rows [OF assms(1,2) dist _ _ tick]) (use assms(5) in auto)
  have act: "nID m \<in> nID ` set ?ns' \<longleftrightarrow> nStatus m \<notin> {NodeStatusDead, NodeStatusCordoned}"
    if "m \<in> set (db_nodes d)" for m
    using that rows_ok_node_unique [OF db_inv_rows [OF assms(1)]] by (auto simp: image_iff)
  have nodes: "db_nodes d' = map (\<lambda>n. if nStatus n \<in> {NodeStatusDead, NodeStatusCordoned} then n
            else if dcDeadAfter cfg \<le> age_of clk (seen (nID n))
            then n\<lparr>nStatus := NodeStatusDead, nEpoch := nEpoch n + 1\<rparr>
            else if dcNotReadyAfter cfg \<le> age_of clk (seen (nID n)) \<and> nStatus n = NodeStatusReady
            then n\<lparr>nStatus := NodeStatusNotReady\<rparr> else n) (db_nodes d)"
    using rows act by (auto simp: judge_def bump_dead_def intro!: map_cong)
  have tasks: "db_tasks d' = map (\<lambda>t. if list_ex (\<lambda>n. nStatus n \<notin> {NodeStatusDead, NodeStatusCordoned}
                 \<and> dcDeadAfter cfg \<le> age_of clk (seen (nID n)) \<and> occupies (nID n) t) (db_nodes d)
            then requeue_orphan t else t) (db_tasks d)"
    using rows by (auto simp: requeue_if_def list_ex_iff intro!: map_cong)
  have "db_jobs d' = db_jobs d" unfolding tick by (rule evaluate_all_jobs)
  moreover have "db_lease d' = db_lease d"
    unfolding tick using evaluate_all_contract [of d R cenv clk cfg docker env r ?ns']
    by (simp add: keeps_contract_def)
  ultimately show ?thesis using nodes tasks by blast
qed

definition seen_n1 :: "string \<Rightarrow> (string \<times> time) option" where
  "seen_n1 = [''hb:n1'' \<mapsto> (itoa 9500, 300 * Second)]"

lemma seen_n1_read:
  "GetLastSeen map_redis sample_cenv ''n1'' seen_n1 = Inr (Some (9500 * Millisecond))"
  "GetLastSeen map_redis sample_cenv ''n2'' seen_n1 = Inr None"
  by (simp_all add: GetLastSeen_def map_redis_def sample_cenv_def seen_n1_def lastSeenKey_def
      ParseInt_itoa in_i64_def from_UnixMilli_def duration_units)

theorem detector_sweep_witness:
  "\<exists>d'. d' = snd (detector_tick map_redis sample_cenv (10 * Second) (DefaultConfig Second) False None
             (\<lambda>_. sample_env) sample_env seen_n1 sample_db)
    \<and> db_nodes d' = [node_a, node_b\<lparr>nStatus := NodeStatusDead, nEpoch := 2\<rparr>]
    \<and> db_tasks d' = [task_running, requeue_orphan task_scheduled, task_row ''t3'']"
proof -
  let ?seen = "\<lambda>nid. if nid = ''n1'' then Some (9500 * Millisecond) else None"
  have "GetLastSeen map_redis sample_cenv (nID n) seen_n1 = Inr (?seen (nID n))"
    if "n \<in> set (db_nodes sample_db)" for n
    using that seen_n1_read by (auto simp: node_a_def node_b_def)
  from detector_sweep [OF sample_inv healthy_sample healthy_sample _ this refl, of None "10 * Second"
      "DefaultConfig Second" False]
  show ?thesis
    by (simp add: sample_rows DefaultConfig_def age_of_def Since_def max_duration_def occupies_def
        duration_units)
qed



end
