(* ===== verification/Grpc_Api.thy ===== *)
theory Grpc_Api
  imports Failure_Detector
begin

text \<open>
  The gRPC handlers of \<^verbatim>\<open>src/internal/grpcapi\<close> and the client half of their redirect protocol,
  \<^verbatim>\<open>src/internal/leaderclient/redirect.go\<close>. The messages are the records of \<^verbatim>\<open>proto/arbiter/v1\<close>. A handler
  works on the database and on the Redis state; \<open>srv\<close> carries what its \<open>Server\<close> struct and the request's
  environment hold: the Redis operations, the clocks, the failures, the leader gate. The locale
  \<open>leader_rpc\<close> is the contract of the mutating handlers: behind a closed gate they answer with the
  redirect and change nothing, and whatever they answer they keep the store's contract.
\<close>

section \<open>Messages\<close>

record NodeResources =
  nrCpuMillicores :: int
  nrMemoryMb :: int

text \<open>The getters of a nil message return zero.\<close>

definition GetCpuMillicores :: "NodeResources option \<Rightarrow> int" where
  "GetCpuMillicores c = (case c of None \<Rightarrow> 0 | Some x \<Rightarrow> nrCpuMillicores x)"

definition GetMemoryMb :: "NodeResources option \<Rightarrow> int" where
  "GetMemoryMb c = (case c of None \<Rightarrow> 0 | Some x \<Rightarrow> nrMemoryMb x)"

record RegisterNodeRequest =
  rnHostname :: string
  rnAddress :: string
  rnCapacity :: "NodeResources option"
  rnLabels :: "strmap option"

record RegisterNodeResponse =
  rrNodeId :: string
  rrEpoch :: int
  rrHeartbeatIntervalMs :: int

record TaskStatusUpdate =
  tsTaskId :: string
  tsStatus :: string
  tsExitCode :: int
  tsError :: string
  tsNodeId :: string
  tsEpoch :: int

record TaskAssignment =
  taTaskId :: string
  taImage :: string
  taCommand :: "string list"
  taRequest :: NodeResources
  taAssignedEpoch :: int

record HeartbeatRequest =
  hbNodeId :: string
  hbEpoch :: int
  hbAllocated :: NodeResources
  hbTaskUpdates :: "TaskStatusUpdate list"

record HeartbeatResponse =
  hrNewAssignments :: "TaskAssignment list"
  hrCancelTaskIds :: "string list"
  hrEpochInvalid :: bool

record ProtoNode =
  pnId :: string
  pnHostname :: string
  pnAddress :: string
  pnCapacity :: NodeResources
  pnAllocated :: NodeResources
  pnLabels :: "strmap option"
  pnStatus :: string
  pnEpoch :: int

record ProtoTask =
  ptId :: string
  ptJobId :: string
  ptStatus :: string
  ptAssignedNodeId :: string
  ptRetriesUsed :: int
  ptExitCode :: int
  ptLastError :: string

record ProtoJob =
  pjId :: string
  pjName :: string
  pjImage :: string
  pjCommand :: "string list"
  pjRequest :: NodeResources
  pjReplicas :: int
  pjRetryLimit :: int
  pjSchedulingPolicy :: string
  pjConstraints :: strmap

record SubmitJobRequest =
  sjName :: string
  sjImage :: string
  sjCommand :: "string list"
  sjRequest :: "NodeResources option"
  sjReplicas :: int
  sjRetryLimit :: int
  sjSchedulingPolicy :: string
  sjConstraints :: strmap

section \<open>Status errors\<close>

text \<open>The codes the handlers answer with, and those the transport adds.\<close>

datatype Code = InvalidArgument | NotFound | FailedPrecondition | Internal | Unavailable | DeadlineExceeded | Canceled

datatype Status = Status (stCode: Code) (stMessage: string)

text \<open>The text of a store error, without the driver's own text that the code wraps.\<close>

fun store_error_text :: "store_error \<Rightarrow> string" where
  "store_error_text ErrNodeNotFound = ''store: node not found''"
| "store_error_text ErrJobNotFound = ''store: job not found''"
| "store_error_text ErrTaskNotFound = ''store: task not found''"
| "store_error_text ErrStaleTaskReport = ''store: stale task status report''"
| "store_error_text (StoreError s) = s"

definition internal :: "string \<Rightarrow> store_error \<Rightarrow> Status" where
  "internal w e = Status Internal (w @ '': '' @ store_error_text e)"

section \<open>The server\<close>

text \<open>
  \<open>sv_env 0\<close> is the environment of the handler's own statements, \<open>sv_env (Suc i)\<close> the one of the
  transaction that applies the \<open>i\<close>-th bundled task update.
\<close>

record 'r server =
  sv_redis :: "'r redis"
  sv_cache :: cacheenv
  sv_clock :: time
  sv_env :: "nat \<Rightarrow> dbenv"
  sv_leader :: "LeaderGate option"
  sv_heartbeatIntervalMS :: int

definition FormatNotLeaderError :: "string \<Rightarrow> string" where
  "FormatNotLeaderError addr = ''NOT_LEADER: current leader at '' @ addr"

definition requireLeader :: "LeaderGate option \<Rightarrow> Status option" where
  "requireLeader leader =
     (case leader of
        None \<Rightarrow> None
      | Some l \<Rightarrow>
          if gIsLeader l then None
          else if gLeaderAddr l = []
          then Some (Status FailedPrecondition ''NOT_LEADER: leader address unknown; retry shortly'')
          else Some (Status FailedPrecondition (FormatNotLeaderError (gLeaderAddr l))))"

definition notLeaderPrefix :: string where
  "notLeaderPrefix = ''NOT_LEADER: current leader at ''"

text \<open>\<open>None\<close> for a nil error or one that is not a redirect.\<close>

definition ParseLeaderAddr :: "Status option \<Rightarrow> string option" where
  "ParseLeaderAddr err =
     (case err of
        None \<Rightarrow> None
      | Some st \<Rightarrow>
          if stCode st \<noteq> FailedPrecondition then None
          else if \<not> HasPrefix (stMessage st) notLeaderPrefix then None
          else let addr = TrimSpace (TrimPrefix (stMessage st) notLeaderPrefix)
               in if addr = [] \<or> Contains addr ''unknown'' then None else Some addr)"

section \<open>Node handlers\<close>

definition rpc_RegisterNode ::
  "'r server \<Rightarrow> RegisterNodeRequest \<Rightarrow> 'r \<times> db \<Rightarrow> (Status + RegisterNodeResponse) \<times> 'r \<times> db" where
  "rpc_RegisterNode srv req = (\<lambda>(r, d).
     case requireLeader (sv_leader srv) of
       Some st \<Rightarrow> (Inl st, r, d)
     | None \<Rightarrow>
         if rnHostname req = [] then (Inl (Status InvalidArgument ''hostname is required''), r, d)
         else if rnAddress req = [] then (Inl (Status InvalidArgument ''address is required''), r, d)
         else if GetCpuMillicores (rnCapacity req) \<le> 0 \<or> GetMemoryMb (rnCapacity req) \<le> 0
         then (Inl (Status InvalidArgument
                 ''capacity.cpu_millicores and capacity.memory_mb must both be positive''), r, d)
         else
           (case RegisterNode (sv_env srv 0)
                   \<lparr>rHostname = rnHostname req, rAddress = rnAddress req,
                    rCPUCapacityMillicores = GetCpuMillicores (rnCapacity req),
                    rMemCapacityMB = GetMemoryMb (rnCapacity req), rLabels = rnLabels req\<rparr> d of
              (Inl e, d') \<Rightarrow> (Inl (internal ''register node'' e), r, d')
            | (Inr node, d') \<Rightarrow>
                (case SetLastSeen (sv_redis srv) (sv_cache srv) (sv_clock srv) (nID node) r of
                   (Inl (CacheError s), r') \<Rightarrow>
                     (Inl (Status Internal (''register node: seed last-seen: '' @ s)), r', d')
                 | (Inr _, r') \<Rightarrow>
                     (Inr \<lparr>rrNodeId = nID node, rrEpoch = nEpoch node,
                           rrHeartbeatIntervalMs = sv_heartbeatIntervalMS srv\<rparr>, r', d'))))"

definition report_status :: "string \<Rightarrow> TaskStatus option" where
  "report_status s =
     (if s = TaskStatus_text TaskStatusRunning then Some TaskStatusRunning
      else if s = TaskStatus_text TaskStatusSucceeded then Some TaskStatusSucceeded
      else if s = TaskStatus_text TaskStatusFailed then Some TaskStatusFailed
      else None)"

definition update_params :: "TaskStatusUpdate \<Rightarrow> TaskStatus \<Rightarrow> UpdateTaskStatusParams" where
  "update_params req st =
     \<lparr>uTaskID = tsTaskId req, uStatus = st,
      uExitCode = (if st \<in> {TaskStatusSucceeded, TaskStatusFailed} then Some (tsExitCode req) else None),
      uError = tsError req, uNodeID = tsNodeId req, uEpoch = tsEpoch req\<rparr>"

definition applyTaskStatusUpdate :: "dbenv \<Rightarrow> TaskStatusUpdate \<Rightarrow> db \<Rightarrow> Status option \<times> db" where
  "applyTaskStatusUpdate env req d =
     (if tsTaskId req = [] then (Some (Status InvalidArgument ''task_id is required''), d)
      else case report_status (tsStatus req) of
        None \<Rightarrow> (Some (Status InvalidArgument (''unsupported task status '' @ quoted (tsStatus req))), d)
      | Some st \<Rightarrow>
          (case UpdateTaskStatus env (update_params req st) d of
             (Inr _, d') \<Rightarrow> (None, d')
           | (Inl ErrTaskNotFound, d') \<Rightarrow> (Some (Status NotFound ''task not found''), d')
           | (Inl ErrStaleTaskReport, d') \<Rightarrow>
               (Some (Status FailedPrecondition
                  ''stale task status report (epoch/node mismatch); fencing rejected update''), d')
           | (Inl e, d') \<Rightarrow> (Some (internal ''update task status'' e), d')))"

definition rpc_ReportTaskStatus ::
  "'r server \<Rightarrow> TaskStatusUpdate \<Rightarrow> 'r \<times> db \<Rightarrow> (Status + unit) \<times> 'r \<times> db" where
  "rpc_ReportTaskStatus srv req = (\<lambda>(r, d).
     case requireLeader (sv_leader srv) of
       Some st \<Rightarrow> (Inl st, r, d)
     | None \<Rightarrow>
         (case applyTaskStatusUpdate (sv_env srv 0) req d of
            (Some st, d') \<Rightarrow> (Inl st, r, d')
          | (None, d') \<Rightarrow> (Inr (), r, d')))"

text \<open>The loop over the bundled updates: only an internal error ends it.\<close>

fun apply_updates :: "(nat \<Rightarrow> dbenv) \<Rightarrow> nat \<Rightarrow> TaskStatusUpdate list \<Rightarrow> db \<Rightarrow> Status option \<times> db" where
  "apply_updates env i [] d = (None, d)"
| "apply_updates env i (u # us) d =
     (case applyTaskStatusUpdate (env (Suc i)) u d of
        (Some st, d') \<Rightarrow> if stCode st = Internal then (Some st, d') else apply_updates env (Suc i) us d'
      | (None, d') \<Rightarrow> apply_updates env (Suc i) us d')"

definition to_assignment :: "TaskWithJob \<Rightarrow> TaskAssignment" where
  "to_assignment w =
     \<lparr>taTaskId = tID (wTask w), taImage = wImage w, taCommand = wCommand w,
      taRequest = \<lparr>nrCpuMillicores = wCPURequestMillicores w, nrMemoryMb = wMemRequestMB w\<rparr>,
      taAssignedEpoch = (case tAssignedEpoch (wTask w) of None \<Rightarrow> 0 | Some e \<Rightarrow> e)\<rparr>"

definition rpc_Heartbeat ::
  "'r server \<Rightarrow> HeartbeatRequest \<Rightarrow> 'r \<times> db \<Rightarrow> (Status + HeartbeatResponse) \<times> 'r \<times> db" where
  "rpc_Heartbeat srv req = (\<lambda>(r, d).
     case requireLeader (sv_leader srv) of
       Some st \<Rightarrow> (Inl st, r, d)
     | None \<Rightarrow>
         if hbNodeId req = [] then (Inl (Status InvalidArgument ''node_id is required''), r, d)
         else
           (case GetNode (sv_env srv 0) (hbNodeId req) d of
              Inl ErrNodeNotFound \<Rightarrow>
                (Inl (Status NotFound ''node is not registered; call RegisterNode first''), r, d)
            | Inl e \<Rightarrow> (Inl (internal ''heartbeat'' e), r, d)
            | Inr node \<Rightarrow>
                if hbEpoch req \<noteq> nEpoch node
                then (Inr \<lparr>hrNewAssignments = [], hrCancelTaskIds = [], hrEpochInvalid = True\<rparr>, r, d)
                else
                  (case SetLastSeen (sv_redis srv) (sv_cache srv) (sv_clock srv) (nID node) r of
                     (Inl (CacheError s), r') \<Rightarrow>
                       (Inl (Status Internal (''heartbeat: record last-seen: '' @ s)), r', d)
                   | (Inr _, r') \<Rightarrow>
                       (case apply_updates (sv_env srv) 0 (hbTaskUpdates req) d of
                          (Some st, d1) \<Rightarrow> (Inl st, r', d1)
                        | (None, d1) \<Rightarrow>
                            (case (if nStatus node = NodeStatusNotReady
                                   then UpdateNodeStatus (sv_env srv 0) (nID node) NodeStatusReady
                                          EventTypeNodeRecovered
                                          ''node recovered: heartbeat resumed before the dead threshold'' d1
                                   else (Inr node, d1)) of
                               (Inl e, d2) \<Rightarrow> (Inl (internal ''heartbeat: recover node'' e), r', d2)
                             | (Inr _, d2) \<Rightarrow>
                                 (case ListScheduledTasksForNode (sv_env srv 0) (nID node) d2 of
                                    Inl e \<Rightarrow> (Inl (internal ''heartbeat: list assignments'' e), r', d2)
                                  | Inr scheduled \<Rightarrow>
                                      (Inr \<lparr>hrNewAssignments = map to_assignment scheduled,
                                            hrCancelTaskIds = [], hrEpochInvalid = False\<rparr>, r', d2)))))))"

section \<open>Job handlers\<close>

definition defaultReplicas :: int where "defaultReplicas = 1"
definition defaultRetryLimit :: int where "defaultRetryLimit = 3"

definition toProtoJob :: "Job \<Rightarrow> ProtoJob" where
  "toProtoJob j =
     \<lparr>pjId = jID j, pjName = jName j, pjImage = jImage j, pjCommand = jCommand j,
      pjRequest = \<lparr>nrCpuMillicores = jCPURequestMillicores j, nrMemoryMb = jMemRequestMB j\<rparr>,
      pjReplicas = jReplicas j, pjRetryLimit = jRetryLimit j,
      pjSchedulingPolicy = jSchedulingPolicy j, pjConstraints = jConstraints j\<rparr>"

definition toProtoTask :: "Task \<Rightarrow> ProtoTask" where
  "toProtoTask t =
     \<lparr>ptId = tID t, ptJobId = tJobID t, ptStatus = TaskStatus_text (tStatus t),
      ptAssignedNodeId = (case tAssignedNodeID t of None \<Rightarrow> [] | Some n \<Rightarrow> n),
      ptRetriesUsed = tRetriesUsed t,
      ptExitCode = (case tExitCode t of None \<Rightarrow> 0 | Some c \<Rightarrow> c),
      ptLastError = (case tLastError t of None \<Rightarrow> [] | Some e \<Rightarrow> e)\<rparr>"

definition toProtoNode :: "Node \<Rightarrow> NodeAllocation \<Rightarrow> ProtoNode" where
  "toProtoNode n alloc =
     \<lparr>pnId = nID n, pnHostname = nHostname n, pnAddress = nAddress n,
      pnCapacity = \<lparr>nrCpuMillicores = nCPUCapacityMillicores n, nrMemoryMb = nMemCapacityMB n\<rparr>,
      pnAllocated = \<lparr>nrCpuMillicores = aCPUMillicores alloc, nrMemoryMb = aMemoryMB alloc\<rparr>,
      pnLabels = nLabels n, pnStatus = NodeStatus_text (nStatus n), pnEpoch = nEpoch n\<rparr>"

definition submit_params :: "SubmitJobRequest \<Rightarrow> string \<Rightarrow> CreateJobParams" where
  "submit_params req policy =
     \<lparr>cName = sjName req, cImage = sjImage req, cCommand = sjCommand req,
      cCPURequestMillicores = GetCpuMillicores (sjRequest req),
      cMemRequestMB = GetMemoryMb (sjRequest req),
      cReplicas = (if sjReplicas req \<le> 0 then defaultReplicas else sjReplicas req),
      cRetryLimit = (if sjRetryLimit req \<le> 0 then defaultRetryLimit else sjRetryLimit req),
      cSchedulingPolicy = policy, cConstraints = sjConstraints req\<rparr>"

definition rpc_SubmitJob ::
  "'r server \<Rightarrow> SubmitJobRequest \<Rightarrow> 'r \<times> db \<Rightarrow> (Status + ProtoJob) \<times> 'r \<times> db" where
  "rpc_SubmitJob srv req = (\<lambda>(r, d).
     case requireLeader (sv_leader srv) of
       Some st \<Rightarrow> (Inl st, r, d)
     | None \<Rightarrow>
         if sjName req = [] then (Inl (Status InvalidArgument ''name is required''), r, d)
         else if sjImage req = [] then (Inl (Status InvalidArgument ''image is required''), r, d)
         else if GetCpuMillicores (sjRequest req) \<le> 0 \<or> GetMemoryMb (sjRequest req) \<le> 0
         then (Inl (Status InvalidArgument
                 ''request.cpu_millicores and request.memory_mb must both be positive''), r, d)
         else
           (let policy = (if sjSchedulingPolicy req = [] then SchedulingPolicyBinPack
                          else sjSchedulingPolicy req) in
            if policy \<noteq> SchedulingPolicyBinPack \<and> policy \<noteq> SchedulingPolicySpread
            then (Inl (Status InvalidArgument (''unsupported scheduling_policy '' @ quoted policy)), r, d)
            else (case CreateJob (sv_env srv 0) (submit_params req policy) d of
                    (Inl e, d') \<Rightarrow> (Inl (internal ''submit job'' e), r, d')
                  | (Inr job, d') \<Rightarrow> (Inr (toProtoJob job), r, d'))))"

definition rpc_GetJob :: "dbenv \<Rightarrow> string \<Rightarrow> db \<Rightarrow> Status + ProtoJob" where
  "rpc_GetJob env jobId d =
     (if jobId = [] then Inl (Status InvalidArgument ''job_id is required'')
      else case GetJob env jobId d of
             Inl ErrJobNotFound \<Rightarrow> Inl (Status NotFound ''job not found'')
           | Inl e \<Rightarrow> Inl (internal ''get job'' e)
           | Inr job \<Rightarrow> Inr (toProtoJob job))"

definition rpc_GetTask :: "dbenv \<Rightarrow> string \<Rightarrow> db \<Rightarrow> Status + ProtoTask" where
  "rpc_GetTask env taskId d =
     (if taskId = [] then Inl (Status InvalidArgument ''task_id is required'')
      else case GetTask env taskId d of
             Inl ErrTaskNotFound \<Rightarrow> Inl (Status NotFound ''task not found'')
           | Inl e \<Rightarrow> Inl (internal ''get task'' e)
           | Inr task \<Rightarrow> Inr (toProtoTask task))"

definition rpc_ListJobs :: "dbenv \<Rightarrow> db \<Rightarrow> Status + ProtoJob list" where
  "rpc_ListJobs env d =
     (case ListJobs env d of
        Inl e \<Rightarrow> Inl (internal ''list jobs'' e)
      | Inr jobs \<Rightarrow> Inr (map toProtoJob jobs))"

definition rpc_ListTasks :: "dbenv \<Rightarrow> string \<Rightarrow> db \<Rightarrow> Status + ProtoTask list" where
  "rpc_ListTasks env jobId d =
     (case ListTasks env jobId d of
        Inl e \<Rightarrow> Inl (internal ''list tasks'' e)
      | Inr tasks \<Rightarrow> Inr (map toProtoTask tasks))"

definition rpc_ListNodes :: "dbenv \<Rightarrow> db \<Rightarrow> Status + ProtoNode list" where
  "rpc_ListNodes env d =
     (case ListNodes env d of
        Inl e \<Rightarrow> Inl (internal ''list nodes'' e)
      | Inr nodes \<Rightarrow>
          (case GetNodeAllocations env d of
             Inl e \<Rightarrow> Inl (internal ''list nodes: allocations'' e)
           | Inr allocs \<Rightarrow> Inr (map (\<lambda>n. toProtoNode n (alloc_at allocs (nID n))) nodes)))"

section \<open>The contract of the mutating handlers\<close>

lemma requireLeader_None: "requireLeader g = None \<longleftrightarrow> gate_open g"
  by (simp add: requireLeader_def split: option.splits)

locale leader_rpc =
  fixes handler :: "'r server \<Rightarrow> 'q \<Rightarrow> 'r \<times> db \<Rightarrow> (Status + 'a) \<times> 'r \<times> db"
  assumes follower: "requireLeader (sv_leader srv) = Some st \<Longrightarrow> handler srv req (r, d) = (Inl st, r, d)"
    and contract: "handler srv req (r, d) = (res, r', d') \<Longrightarrow> keeps_contract d d'"
begin

lemma redirected:
  assumes "sv_leader srv = Some \<lparr>gIsLeader = False, gLeaderAddr = addr\<rparr>" and "addr \<noteq> []"
  shows "handler srv req (r, d) = (Inl (Status FailedPrecondition (FormatNotLeaderError addr)), r, d)"
  by (rule follower) (use assms in \<open>simp add: requireLeader_def\<close>)

text \<open>Any sequence of requests, to any replicas and failing or not, keeps the store's contract.\<close>

lemma requests_contract:
  "keeps_contract (snd s) (snd (fold (\<lambda>(srv, req) s. snd (handler srv req s)) reqs s))"
proof (induction reqs arbitrary: s)
  case (Cons q reqs)
  obtain srv req where q: "q = (srv, req)" by (cases q)
  obtain res r' d' where h: "handler srv req (fst s, snd s) = (res, r', d')" by (metis prod_cases3)
  from keeps_contract_trans [OF contract [OF h] Cons.IH [of "(r', d')", simplified]] h
  show ?case by (simp add: q)
qed simp

end

lemma RegisterNode_contract: "keeps_contract d (snd (RegisterNode env p d))"
proof -
  have "db_lease (snd (RegisterNode env p d)) = db_lease d"
    by (cases "RegisterNode env p d"; cases "fst (RegisterNode env p d)")
       (auto dest: register.atomic RegisterNode_effect(4))
  then show ?thesis
    by (simp add: keeps_contract_def register.call_inv register.call_epochs register.call_audit)
qed

lemma CreateJob_contract: "keeps_contract d (snd (CreateJob env p d))"
proof -
  have "db_lease (snd (CreateJob env p d)) = db_lease d"
    by (cases "CreateJob env p d"; cases "fst (CreateJob env p d)")
       (auto dest: CreateJob_error CreateJob_effect(9))
  then show ?thesis
    by (simp add: keeps_contract_def createjob.call_inv createjob.call_epochs createjob.call_audit)
qed

lemma UpdateTaskStatus_contract: "keeps_contract d (snd (UpdateTaskStatus env p d))"
proof -
  have "db_lease (snd (UpdateTaskStatus env p d)) = db_lease d"
    by (cases "UpdateTaskStatus env p d"; cases "fst (UpdateTaskStatus env p d)")
       (auto dest: UpdateTaskStatus_error elim!: UpdateTaskStatus_effect simp: row_write_def)
  then show ?thesis
    by (simp add: keeps_contract_def report.call_inv report.call_epochs report.call_audit)
qed

lemma applyTaskStatusUpdate_db:
  "snd (applyTaskStatusUpdate env u d) =
     (if tsTaskId u = [] then d
      else case report_status (tsStatus u) of None \<Rightarrow> d
           | Some st \<Rightarrow> snd (UpdateTaskStatus env (update_params u st) d))"
  by (auto simp: applyTaskStatusUpdate_def split: option.splits prod.splits sum.splits store_error.splits)

lemma applyTaskStatusUpdate_contract: "keeps_contract d (snd (applyTaskStatusUpdate env u d))"
  by (auto simp: applyTaskStatusUpdate_db UpdateTaskStatus_contract split: option.splits)

lemma apply_updates_contract: "keeps_contract d (snd (apply_updates env i us d))"
proof (induction us arbitrary: i d)
  case (Cons u us)
  obtain st d1 where u: "applyTaskStatusUpdate (env (Suc i)) u d = (st, d1)" by fastforce
  then have "keeps_contract d d1" using applyTaskStatusUpdate_contract [of d "env (Suc i)" u] by simp
  then show ?case using u keeps_contract_trans [OF _ Cons.IH] by (cases st) auto
qed simp

interpretation rpc_register: leader_rpc rpc_RegisterNode
proof (unfold_locales, goal_cases)
  case (2 srv req r d res r' d')
  then show ?case
    using RegisterNode_contract [of d "sv_env srv 0"]
    by (auto simp: rpc_RegisterNode_def split: option.splits if_splits prod.splits sum.splits
          cache_error.splits) (metis snd_conv)+
qed (simp add: rpc_RegisterNode_def)

interpretation rpc_report: leader_rpc rpc_ReportTaskStatus
proof (unfold_locales, goal_cases)
  case (2 srv req r d res r' d')
  then show ?case
    using applyTaskStatusUpdate_contract [of d "sv_env srv 0" req]
    by (auto simp: rpc_ReportTaskStatus_def split: option.splits prod.splits)
qed (simp add: rpc_ReportTaskStatus_def)

interpretation rpc_submit: leader_rpc rpc_SubmitJob
proof (unfold_locales, goal_cases)
  case (2 srv req r d res r' d')
  then show ?case
    using CreateJob_contract [of d "sv_env srv 0"]
    by (auto simp: rpc_SubmitJob_def Let_def split: option.splits if_splits prod.splits sum.splits)
       (metis snd_conv)+
qed (simp add: rpc_SubmitJob_def)

text \<open>The database a heartbeat leaves behind, whatever it answers.\<close>

definition recover :: "dbenv \<Rightarrow> Node \<Rightarrow> db \<Rightarrow> (store_error + Node) \<times> db" where
  "recover env node d =
     (if nStatus node = NodeStatusNotReady
      then UpdateNodeStatus env (nID node) NodeStatusReady EventTypeNodeRecovered
             ''node recovered: heartbeat resumed before the dead threshold'' d
      else (Inr node, d))"

lemma recover_contract: "keeps_contract d (snd (recover env node d))"
  by (simp add: recover_def UpdateNodeStatus_contract)

lemma heartbeat_cases:
  assumes "rpc_Heartbeat srv req (r, d) = (res, r', d')"
  obtains (untouched) "d' = d"
  | (updated) node d1 where "GetNode (sv_env srv 0) (hbNodeId req) d = Inr node" "hbEpoch req = nEpoch node"
      "d1 = snd (apply_updates (sv_env srv) 0 (hbTaskUpdates req) d)"
      "d' = d1 \<or> d' = snd (recover (sv_env srv 0) node d1)"
proof (cases "\<exists>node. requireLeader (sv_leader srv) = None \<and> hbNodeId req \<noteq> []
    \<and> GetNode (sv_env srv 0) (hbNodeId req) d = Inr node \<and> hbEpoch req = nEpoch node
    \<and> fst (SetLastSeen (sv_redis srv) (sv_cache srv) (sv_clock srv) (nID node) r) = Inr ()")
  case False
  then have "d' = d" using assms
    by (auto simp: rpc_Heartbeat_def split: option.splits if_splits sum.splits store_error.splits
          prod.splits cache_error.splits)
  then show thesis by (rule untouched)
next
  case True
  then obtain node where lead: "requireLeader (sv_leader srv) = None" and ne: "hbNodeId req \<noteq> []"
    and node: "GetNode (sv_env srv 0) (hbNodeId req) d = Inr node" "hbEpoch req = nEpoch node"
    and seen: "fst (SetLastSeen (sv_redis srv) (sv_cache srv) (sv_clock srv) (nID node) r) = Inr ()"
    by blast
  obtain r1 where seen': "SetLastSeen (sv_redis srv) (sv_cache srv) (sv_clock srv) (nID node) r = (Inr (), r1)"
    using seen by (metis prod.collapse)
  obtain st d1 where ups: "apply_updates (sv_env srv) 0 (hbTaskUpdates req) d = (st, d1)" by fastforce
  have "d' = d1 \<or> d' = snd (recover (sv_env srv 0) node d1)"
    using assms lead ne node seen' ups
    by (auto simp: rpc_Heartbeat_def recover_def [symmetric]
          split: option.splits prod.splits sum.splits)
  with node ups show thesis by (intro updated [of node d1]) auto
qed

interpretation rpc_heartbeat: leader_rpc rpc_Heartbeat
proof (unfold_locales, goal_cases)
  case (2 srv req r d res r' d')
  then show ?case
  proof (cases rule: heartbeat_cases)
    case (updated node d1)
    then show ?thesis
      using apply_updates_contract [of d "sv_env srv" 0 "hbTaskUpdates req"]
        recover_contract [of d1 "sv_env srv 0" node]
      by (auto intro: keeps_contract_trans)
  qed simp
qed (simp add: rpc_Heartbeat_def)

end
