(* ===== verification/Grpc_Props.thy ===== *)
theory Grpc_Props
  imports Grpc_Api
begin

text \<open>
  Properties of the gRPC surface: redirects that clients can follow, heartbeats that fence stale
  workers and hand out exactly the scheduled tasks, reports whose rejection is not mistaken for a
  redirect, and submissions that can be read back.
\<close>

text \<open>An address the redirect protocol can carry.\<close>

definition plain_addr :: "string \<Rightarrow> bool" where
  "plain_addr a \<longleftrightarrow> a \<noteq> [] \<and> \<not> is_space (hd a) \<and> \<not> is_space (last a) \<and> \<not> Contains a ''unknown''"

lemma ParseLeaderAddr_redirect:
  "plain_addr a \<Longrightarrow> ParseLeaderAddr (Some (Status FailedPrecondition (FormatNotLeaderError a))) = Some a"
  unfolding plain_addr_def
  by (auto simp: ParseLeaderAddr_def FormatNotLeaderError_def notLeaderPrefix_def HasPrefix_def
        TrimPrefix_def TrimSpace_id Let_def)

text \<open>
  C32: A follower never serves a mutating request. For each of the four mutating RPCs it answers
  \<open>FailedPrecondition\<close> without touching the database or Redis, and the leader address a client parses
  from the error is the one the follower knows.
\<close>

theorem follower_redirects:
  assumes "sv_leader srv = Some \<lparr>gIsLeader = False, gLeaderAddr = a\<rparr>" and "plain_addr a"
  shows "\<exists>st. rpc_RegisterNode srv q1 (r, d) = (Inl st, r, d) \<and> rpc_Heartbeat srv q2 (r, d) = (Inl st, r, d)
    \<and> rpc_ReportTaskStatus srv q3 (r, d) = (Inl st, r, d) \<and> rpc_SubmitJob srv q4 (r, d) = (Inl st, r, d)
    \<and> ParseLeaderAddr (Some st) = Some a"
proof -
  from assms(2) have ne: "a \<noteq> []" by (simp add: plain_addr_def)
  show ?thesis
    using rpc_register.redirected [OF assms(1) ne] rpc_heartbeat.redirected [OF assms(1) ne]
      rpc_report.redirected [OF assms(1) ne] rpc_submit.redirected [OF assms(1) ne]
      ParseLeaderAddr_redirect [OF assms(2)] by blast
qed

definition sample_srv :: "LeaderGate option \<Rightarrow> (string \<Rightarrow> (string \<times> time) option) server" where
  "sample_srv g = \<lparr>sv_redis = map_redis, sv_cache = sample_cenv, sv_clock = 10 * Second,
     sv_env = (\<lambda>_. sample_env), sv_leader = g, sv_heartbeatIntervalMS = 1000\<rparr>"

definition beat :: HeartbeatRequest where
  "beat = \<lparr>hbNodeId = ''n1'', hbEpoch = 3, hbAllocated = \<lparr>nrCpuMillicores = 0, nrMemoryMb = 0\<rparr>,
     hbTaskUpdates = []\<rparr>"

theorem follower_redirects_witness:
  "\<exists>st. rpc_Heartbeat (sample_srv (Some \<lparr>gIsLeader = False, gLeaderAddr = ''s1:50051''\<rparr>)) beat
        (\<lambda>_. None, sample_db) = (Inl st, \<lambda>_. None, sample_db)
     \<and> ParseLeaderAddr (Some st) = Some ''s1:50051''"
proof -
  have "plain_addr ''s1:50051''" by (simp add: plain_addr_def is_space_def Contains_def)
  from follower_redirects [OF _ this, of "sample_srv (Some \<lparr>gIsLeader = False, gLeaderAddr = ''s1:50051''\<rparr>)"]
  show ?thesis by (force simp: sample_srv_def)
qed

text \<open>
  A worker whose epoch is not the node's current one is told so, and its heartbeat has no other
  effect: no liveness is recorded and none of its bundled task updates is applied.
\<close>

theorem heartbeat_stale_epoch:
  assumes "gate_open (sv_leader srv)" and "hbNodeId req \<noteq> []"
    and "GetNode (sv_env srv 0) (hbNodeId req) d = Inr node" and "hbEpoch req \<noteq> nEpoch node"
  shows "rpc_Heartbeat srv req (r, d)
    = (Inr \<lparr>hrNewAssignments = [], hrCancelTaskIds = [], hrEpochInvalid = True\<rparr>, r, d)"
  using assms by (simp add: rpc_Heartbeat_def requireLeader_None [THEN iffD2])

lemma sample_GetNode: "GetNode sample_env ''n1'' sample_db = Inr node_a"
  by (simp add: GetNode_def pool_query_def node_a_def)

theorem heartbeat_stale_epoch_witness:
  "rpc_Heartbeat (sample_srv None) (beat\<lparr>hbEpoch := 2\<rparr>) (\<lambda>_. None, sample_db)
    = (Inr \<lparr>hrNewAssignments = [], hrCancelTaskIds = [], hrEpochInvalid = True\<rparr>, \<lambda>_. None, sample_db)"
  by (rule heartbeat_stale_epoch [of _ _ _ node_a])
     (simp_all add: sample_srv_def beat_def sample_GetNode, simp add: node_a_def)

lemma ListScheduled_set:
  assumes "db_inv d" and "healthy env"
  shows "\<exists>ws. ListScheduledTasksForNode env nid d = Inr ws
    \<and> set (map wTask ws) = {t \<in> set (db_tasks d). tAssignedNodeID t = Some nid \<and> tStatus t = TaskStatusScheduled}
    \<and> (\<forall>w \<in> set ws. task_with_job d (wTask w) = Some w)"
proof -
  let ?ts = "filter (\<lambda>t. tAssignedNodeID t = Some nid \<and> tStatus t = TaskStatusScheduled) (db_tasks d)"
  have total: "\<exists>w. task_with_job d t = Some w \<and> wTask w = t" if "t \<in> set (db_tasks d)" for t
    using rows_ok_taskD [OF db_inv_rows [OF assms(1)] that]
    by (auto simp: task_with_job_def task_ok_def retries_ok_def dest!: find_key_exists [where key = jID])
  have "wTask ` set (List.map_filter (task_with_job d) ?ts) = set ?ts"
    using total by (force simp: List.map_filter_def image_iff task_with_job_def)
  moreover have "task_with_job d (wTask w) = Some w" if "w \<in> set (List.map_filter (task_with_job d) ?ts)" for w
    using that by (auto simp: List.map_filter_def task_with_job_def)
  ultimately show ?thesis
    using assms(2) by (auto simp: ListScheduledTasksForNode_def pool_query_def)
qed

lemma heartbeat_answer:
  assumes "db_inv d" and "\<And>i. healthy (sv_env srv i)" and "gate_open (sv_leader srv)"
    and "\<not> ce_fault (sv_cache srv) ''cache: set last seen''" and "hbNodeId req \<noteq> []"
    and "GetNode (sv_env srv 0) (hbNodeId req) d = Inr node" and "hbEpoch req = nEpoch node"
    and "apply_updates (sv_env srv) 0 (hbTaskUpdates req) d = (None, d1)"
  obtains n2 d2 ws where "recover (sv_env srv 0) node d1 = (Inr n2, d2)" and "db_inv d2"
    and "\<exists>m \<in> set (db_nodes d1). nID m = nID node"
    and "rpc_Heartbeat srv req (r, d)
      = (Inr \<lparr>hrNewAssignments = map to_assignment ws, hrCancelTaskIds = [], hrEpochInvalid = False\<rparr>,
         snd (SetLastSeen (sv_redis srv) (sv_cache srv) (sv_clock srv) (nID node) r), d2)"
    and "set (map wTask ws) = {t \<in> set (db_tasks d2). tAssignedNodeID t = Some (nID node) \<and> tStatus t = TaskStatusScheduled}"
    and "\<forall>w \<in> set ws. task_with_job d2 (wTask w) = Some w"
proof -
  have c1: "keeps_contract d d1" using apply_updates_contract [of d "sv_env srv" 0 "hbTaskUpdates req"] assms(8)
    by simp
  with assms(1) have inv1: "db_inv d1" and ep: "epochs_le (db_nodes d) (db_nodes d1)"
    by (auto simp: keeps_contract_def)
  from assms(6) have node: "node \<in> set (db_nodes d)"
    by (auto simp: GetNode_def pool_query_def split: if_splits option.splits dest: find_in_set)
  then obtain m where m: "m \<in> set (db_nodes d1)" "nID m = nID node" using ep by (auto simp: epochs_le_def)
  then have f: "find (\<lambda>n. nID n = nID node) (db_nodes d1) = Some m"
    using rows_ok_find_node [OF db_inv_rows [OF inv1]] by simp
  obtain n2 d2 where rec: "recover (sv_env srv 0) node d1 = (Inr n2, d2)"
    using UpdateNodeStatus_total [OF assms(2) f] by (fastforce simp: recover_def)
  have inv2: "db_inv d2"
    using recover_contract [of d1 "sv_env srv 0" node] rec inv1 by (simp add: keeps_contract_def)
  obtain ws where ws: "ListScheduledTasksForNode (sv_env srv 0) (nID node) d2 = Inr ws"
    "set (map wTask ws) = {t \<in> set (db_tasks d2). tAssignedNodeID t = Some (nID node) \<and> tStatus t = TaskStatusScheduled}"
    "\<forall>w \<in> set ws. task_with_job d2 (wTask w) = Some w"
    using ListScheduled_set [OF inv2 assms(2)] by blast
  have "\<exists>m \<in> set (db_nodes d1). nID m = nID node" using m by blast
  then show thesis
    by (rule that [OF rec inv2 _ _ ws(2,3)])
      (use assms(3-8) rec ws(1) in \<open>simp add: rpc_Heartbeat_def requireLeader_None [THEN iffD2] SetLastSeen_def
        SetLastSeenAt_def recover_def [symmetric]\<close>)
qed



lemma stale_report_answer:
  assumes "gate_open (sv_leader srv)" and "healthy (sv_env srv 0)"
    and "find (\<lambda>t. tID t = tsTaskId q) (db_tasks d) = Some t" and "tsTaskId q \<noteq> []"
    and "report_status (tsStatus q) \<noteq> None" and "tsNodeId q \<noteq> []"
    and "tAssignedNodeID t \<noteq> Some (tsNodeId q) \<or> tAssignedEpoch t \<noteq> Some (tsEpoch q)"
  shows "\<exists>st. rpc_ReportTaskStatus srv q (r, d) = (Inl st, r, d) \<and> stCode st = FailedPrecondition
    \<and> ParseLeaderAddr (Some st) = None"
proof -
  from assms(5) obtain s where s: "report_status (tsStatus q) = Some s" by auto
  have "UpdateTaskStatus (sv_env srv 0) (update_params q s) d = (Inl ErrStaleTaskReport, d)"
    using assms(2,3,6,7)
    by (auto simp: UpdateTaskStatus_def healthy_in_tx checkTaskReportFence_def update_params_def)
  with assms(1,4) s show ?thesis
    by (simp add: rpc_ReportTaskStatus_def requireLeader_None [THEN iffD2] applyTaskStatusUpdate_def
        ParseLeaderAddr_def HasPrefix_def notLeaderPrefix_def)
qed

text \<open>
  A fenced-off report reaches its sender as an error that is not a redirect. When the task's
  assignment does not match the report, \<open>ReportTaskStatus\<close> answers \<open>FailedPrecondition\<close> and changes nothing;
  the client's \<open>ParseLeaderAddr\<close> finds no leader address in that answer, so the report is not retried
  elsewhere.
\<close>

theorem stale_report_rpc:
  assumes "gate_open (sv_leader srv)" and "healthy (sv_env srv 0)"
    and "find (\<lambda>t. tID t = tsTaskId q) (db_tasks d) = Some t" and "tsTaskId q \<noteq> []"
    and "report_status (tsStatus q) \<noteq> None" and "tsNodeId q \<noteq> []"
    and "tAssignedNodeID t \<noteq> Some (tsNodeId q) \<or> tAssignedEpoch t \<noteq> Some (tsEpoch q)"
  shows "\<exists>st. rpc_ReportTaskStatus srv q (r, d) = (Inl st, r, d) \<and> stCode st = FailedPrecondition
    \<and> ParseLeaderAddr (Some st) = None"
  by (rule stale_report_answer [OF assms])

definition zombie_update :: TaskStatusUpdate where
  "zombie_update = \<lparr>tsTaskId = ''t1'', tsStatus = ''succeeded'', tsExitCode = 0, tsError = [],
     tsNodeId = ''n1'', tsEpoch = 2\<rparr>"

theorem stale_report_rpc_witness:
  "\<exists>st. rpc_ReportTaskStatus (sample_srv None) zombie_update (\<lambda>_. None, sample_db)
      = (Inl st, \<lambda>_. None, sample_db) \<and> stCode st = FailedPrecondition \<and> ParseLeaderAddr (Some st) = None"
  by (rule stale_report_rpc [of _ _ _ task_running])
     (simp_all add: sample_srv_def zombie_update_def report_status_def task_running_def task_row_def)

text \<open>
  C38: A submitted job can be read back. When \<open>SubmitJob\<close> answers with a job, \<open>GetJob\<close> on the new state
  returns that same job, and \<open>ListTasks\<close> of it returns exactly as many tasks as its replicas, all
  pending and unassigned.
\<close>

theorem submitted_job_visible:
  assumes "db_inv d" and "rpc_SubmitJob srv q (r, d) = (Inr j, r', d')" and "healthy env"
    and "db_uuid (sv_env srv 0) 0 \<noteq> []"
  shows "rpc_GetJob env (pjId j) d' = Inr j
    \<and> (\<exists>ts. rpc_ListTasks env (pjId j) d' = Inr ts \<and> int (length ts) = pjReplicas j
         \<and> list_all (\<lambda>t. ptJobId t = pjId j \<and> ptStatus t = ''pending'' \<and> ptAssignedNodeId t = []) ts)"
proof -
  from assms(2) obtain p job where call: "CreateJob (sv_env srv 0) p d = (Inr job, d')" and j: "j = toProtoJob job"
    by (auto simp: rpc_SubmitJob_def Let_def split: option.splits if_splits prod.splits sum.splits)
  note eff = CreateJob_effect [OF call]
  have inv': "db_inv d'" by (rule createjob.keeps_inv [OF call assms(1)])
  have id: "jID job = db_uuid (sv_env srv 0) 0" unfolding eff(1) by (simp add: new_job_def)
  have ne: "jID job \<noteq> []" using assms(4) by (simp add: id)
  have "find (\<lambda>i. jID i = jID job) (db_jobs d') = Some job"
    using rows_ok_find_job [OF db_inv_rows [OF inv']] by (simp add: eff(4))
  then have get: "rpc_GetJob env (pjId j) d' = Inr j"
    using assms(3) ne by (simp add: rpc_GetJob_def GetJob_def pool_query_def j toProtoJob_def)
  have old: "tJobID t \<noteq> jID job" if "t \<in> set (db_tasks d)" for t
    using rows_ok_taskD [OF db_inv_rows [OF assms(1)] that] eff(3)
    by (auto simp: task_ok_def retries_ok_def image_iff)
  let ?new = "map (new_task (sv_env srv 0) (jID job)) [0..<nat (cReplicas p)]"
  have mine: "filter (\<lambda>t. tJobID t = jID job) (db_tasks d') = ?new"
    unfolding eff(5) using old by (auto simp: filter_empty_conv new_task_def intro!: filter_True)
  have reps: "pjReplicas j = cReplicas p"
    unfolding j eff(1) by (simp add: toProtoJob_def new_job_def effective_params_def)
  have "rpc_ListTasks env (pjId j) d' = Inr (map toProtoTask (sort_key tCreatedAt ?new))"
    using assms(3) ne mine by (simp add: rpc_ListTasks_def ListTasks_def pool_query_def j toProtoJob_def)
  moreover have "int (length (map toProtoTask (sort_key tCreatedAt ?new))) = pjReplicas j"
    using eff(11) by (simp add: reps)
  moreover have "list_all (\<lambda>t. ptJobId t = pjId j \<and> ptStatus t = ''pending'' \<and> ptAssignedNodeId t = [])
      (map toProtoTask (sort_key tCreatedAt ?new))"
    by (auto simp: list_all_iff toProtoTask_def new_task_def j toProtoJob_def)
  ultimately show ?thesis using get by blast
qed

definition small_submit :: SubmitJobRequest where
  "small_submit = \<lparr>sjName = ''batch'', sjImage = ''busybox'', sjCommand = [''true''],
     sjRequest = Some \<lparr>nrCpuMillicores = 100, nrMemoryMb = 64\<rparr>, sjReplicas = 0, sjRetryLimit = 0,
     sjSchedulingPolicy = [], sjConstraints = []\<rparr>"

lemma small_submit_accepted:
  "\<exists>d'. rpc_SubmitJob (sample_srv None) small_submit (\<lambda>_. None, sample_db)
     = (Inr (toProtoJob (new_job sample_env (submit_params small_submit SchedulingPolicyBinPack))),
        \<lambda>_. None, d')"
  by (simp add: rpc_SubmitJob_def requireLeader_def sample_srv_def small_submit_def GetCpuMillicores_def
      GetMemoryMb_def CreateJob_def submit_params_def healthy_in_tx new_job_def job_row_ok_def in_i64_def
      in_i32_def SchedulingPolicyBinPack_def SchedulingPolicySpread_def insertEvent_def sample_env_def
      healthy_def new_task_def itoa_def nat_digits.simps sample_rows defaultReplicas_def
      defaultRetryLimit_def Let_def)

theorem submitted_job_visible_witness:
  "\<exists>j d' ts. rpc_SubmitJob (sample_srv None) small_submit (\<lambda>_. None, sample_db) = (Inr j, \<lambda>_. None, d')
     \<and> rpc_GetJob sample_env (pjId j) d' = Inr j
     \<and> rpc_ListTasks sample_env (pjId j) d' = Inr ts \<and> length ts = 1"
proof -
  let ?j = "toProtoJob (new_job sample_env (submit_params small_submit SchedulingPolicyBinPack))"
  obtain d' where call: "rpc_SubmitJob (sample_srv None) small_submit (\<lambda>_. None, sample_db)
      = (Inr ?j, \<lambda>_. None, d')"
    using small_submit_accepted by blast
  have "db_uuid (sv_env (sample_srv None) 0) 0 \<noteq> []" by (simp add: sample_srv_def sample_env_def)
  from submitted_job_visible [OF sample_inv call healthy_sample this]
  have "rpc_GetJob sample_env (pjId ?j) d' = Inr ?j
      \<and> (\<exists>ts. rpc_ListTasks sample_env (pjId ?j) d' = Inr ts \<and> int (length ts) = pjReplicas ?j)" by blast
  moreover have "pjReplicas ?j = 1"
    by (simp add: toProtoJob_def new_job_def submit_params_def small_submit_def defaultReplicas_def)
  ultimately show ?thesis using call by auto
qed

text \<open>
  A bundled update that the transition table refuses (here: success of a task that has failed) is an
  internal error, and so makes the whole heartbeat fail after the liveness was recorded.
\<close>

definition failed_db :: db where
  "failed_db = sample_db\<lparr>db_tasks := [task_running\<lparr>tStatus := TaskStatusFailed, tFinishedAt := Some 6\<rparr>]\<rparr>"

lemma refused_update_fails_heartbeat:
  "\<exists>st r'. rpc_Heartbeat (sample_srv None) (beat\<lparr>hbTaskUpdates := [zombie_update\<lparr>tsEpoch := 3\<rparr>]\<rparr>)
      (\<lambda>_. None, failed_db) = (Inl st, r', failed_db) \<and> stCode st = Internal"
  by (simp add: rpc_Heartbeat_def requireLeader_def sample_srv_def beat_def GetNode_def pool_query_def
      failed_db_def sample_db_def sample_rows SetLastSeen_def SetLastSeenAt_def sample_cenv_def
      applyTaskStatusUpdate_def zombie_update_def report_status_def update_params_def UpdateTaskStatus_def
      healthy_in_tx checkTaskReportFence_def report_terminal_def cannot_transition_def internal_def)

end
