(* ===== verification/Event_Feed.thy ===== *)
theory Event_Feed
  imports Store_Props
begin

text \<open>
  Readers that follow the audit trail by its ids. The event fanout to Redis and the polling event stream
  of the HTTP API keep the id reached and ask for the events after it, a page at a time. The locale
  \<open>event_feed\<close> is what one turn of such a reader promises; its lemma is that a run delivers exactly the
  events between where it started and where it is, each once and in order, however the trail grows
  meanwhile.
\<close>

section \<open>Windows of the trail\<close>

definition window :: "int \<Rightarrow> int \<Rightarrow> db \<Rightarrow> Event list" where
  "window a b d = filter (\<lambda>e. a < eID e \<and> eID e \<le> b) (db_events d)"

lemma take_window:
  assumes "sorted_wrt (<) (map eID xs)"
  shows "take n xs = filter (\<lambda>e. eID e \<le> (if take n xs = [] then a else eID (last (take n xs)))) xs
    \<or> take n xs = []"
proof (cases "take n xs = []")
  case False
  then obtain ys l where ys: "take n xs = ys @ [l]" by (metis rev_exhaust)
  have "sorted_wrt (\<lambda>e f. eID e < eID f) (take n xs @ drop n xs)"
    using assms by (simp add: sorted_wrt_map)
  then have s: "sorted_wrt (\<lambda>e f. eID e < eID f) ((ys @ [l]) @ drop n xs)" by (simp only: ys)
  then have "\<forall>e \<in> set (ys @ [l]). eID e \<le> eID l" by (auto simp: sorted_wrt_append)
  moreover have "\<forall>e \<in> set (drop n xs). \<not> eID e \<le> eID l"
    using s by (auto simp: sorted_wrt_append not_le)
  ultimately have "filter (\<lambda>e. eID e \<le> eID l) ((ys @ [l]) @ drop n xs) = ys @ [l]"
    by (simp add: filter_empty_conv)
  then have "filter (\<lambda>e. eID e \<le> eID l) xs = take n xs"
    by (metis append_take_drop_id ys)
  with False ys show ?thesis by simp
qed simp

lemma filter_sorted_ids:
  "sorted_wrt (<) (map eID xs) \<Longrightarrow> sorted_wrt (<) (map eID (filter P xs))"
  by (simp add: sorted_wrt_map sorted_wrt_filter)

lemma strict_sorted_ids: "sorted_wrt (<) (map eID xs) \<Longrightarrow> sort_key eID xs = xs"
  by (rule sort_key_id_if_sorted) (simp add: strict_sorted_iff)

text \<open>A page of the trail is a window, up to the id of its last event.\<close>

lemma page_window:
  assumes "events_ok d" and "0 < limit" and "ListEventsAfter env a limit d = Inr evs"
    and "b = (if evs = [] then a else eID (last evs))"
  shows "a \<le> b \<and> evs = window a b d \<and> (b = a \<or> b \<in> eID ` set (db_events d))"
proof -
  let ?new = "filter (\<lambda>e. a < eID e) (db_events d)"
  have sorted: "sorted_wrt (<) (map eID ?new)"
    using assms(1) by (auto simp: events_ok_def intro: filter_sorted_ids)
  from assms(2,3) have res: "evs = take (nat limit) ?new"
    by (auto simp: ListEventsAfter_def pool_query_def strict_sorted_ids [OF sorted] split: if_splits)
  show ?thesis
  proof (cases "evs = []")
    case True
    with assms(4) show ?thesis by (simp add: window_def)
  next
    case False
    then have last: "last evs \<in> set ?new" unfolding res by (meson in_set_takeD last_in_set)
    have "evs = filter (\<lambda>e. eID e \<le> b) ?new"
      using take_window [OF sorted, of "nat limit" a] False assms(4) by (simp add: res)
    also have "\<dots> = window a b d" by (simp add: window_def conj_commute)
    finally show ?thesis using assms(4) last False by auto
  qed
qed

lemma window_split: "a \<le> b \<Longrightarrow> b \<le> c \<Longrightarrow> sorted_wrt (<) (map eID (db_events d)) \<Longrightarrow>
    window a c d = window a b d @ window b c d"
proof -
  assume ab: "a \<le> b" and bc: "b \<le> c" and s: "sorted_wrt (<) (map eID (db_events d))"
  have "filter (\<lambda>e. a < eID e \<and> eID e \<le> c) es
      = filter (\<lambda>e. a < eID e \<and> eID e \<le> b) es @ filter (\<lambda>e. b < eID e \<and> eID e \<le> c) es"
    if "sorted_wrt (<) (map eID es)" for es
    using that
  proof (induction es)
    case (Cons e es)
    then have later: "\<forall>f \<in> set es. eID e < eID f" by simp
    show ?case
    proof (cases "eID e \<le> b")
      case True
      with Cons ab bc show ?thesis by auto
    next
      case False
      with later have "filter (\<lambda>e. a < eID e \<and> eID e \<le> b) es = []" by (fastforce simp: filter_empty_conv)
      with False Cons ab show ?thesis by auto
    qed
  qed simp
  with s show ?thesis by (simp add: window_def)
qed

lemma window_grow:
  assumes "events_grow d d'" and "events_ok d" and "b < db_event_seq d"
  shows "window a b d' = window a b d"
proof -
  from assms(1) obtain evs where evs: "db_events d' = db_events d @ evs"
    "map eID evs = map (\<lambda>i. db_event_seq d + int i) [0..<length evs]" by (auto simp: events_grow_def)
  have "db_event_seq d \<le> eID e" if "e \<in> set evs" for e
  proof -
    from that have "eID e \<in> set (map eID evs)" by simp
    then show ?thesis unfolding evs(2) by auto
  qed
  then have "filter (\<lambda>e. a < eID e \<and> eID e \<le> b) evs = []"
    using assms(3) by (fastforce simp: filter_empty_conv)
  with evs(1) show ?thesis by (simp add: window_def)
qed

text \<open>A history of database states: each well-formed, each an extension of the one before.\<close>

fun grows_from :: "db \<Rightarrow> db list \<Rightarrow> bool" where
  "grows_from d [] = True"
| "grows_from d (d' # ds) = (events_grow d d' \<and> grows_from d' ds)"

lemma grows_last:
  "events_ok x \<Longrightarrow> grows_from x ds \<Longrightarrow> events_grow x (last (x # ds)) \<and> events_ok (last (x # ds))"
proof (induction ds arbitrary: x)
  case (Cons d ds)
  then have "events_ok d" by (auto intro: events_grow_ok)
  with Cons show ?case by (auto intro: events_grow_trans)
qed simp

section \<open>Runs of a reader\<close>

fun feed_run :: "('t \<Rightarrow> int \<Rightarrow> 'o list \<times> int) \<Rightarrow> 't list \<Rightarrow> int \<Rightarrow> 'o list \<times> int" where
  "feed_run turn [] a = ([], a)"
| "feed_run turn (t # ts) a =
     (let (out, b) = turn t a; (out', c) = feed_run turn ts b in (out @ out', c))"

text \<open>\<open>seen t\<close> is the database a turn meets, \<open>fine t\<close> that nothing it writes is lost.\<close>

locale event_feed =
  fixes turn :: "'t \<Rightarrow> int \<Rightarrow> 'o list \<times> int" and seen :: "'t \<Rightarrow> db" and fine :: "'t \<Rightarrow> bool"
    and render :: "Event \<Rightarrow> 'o"
  assumes turn_window: "fine t \<Longrightarrow> events_ok (seen t) \<Longrightarrow> turn t a = (out, b) \<Longrightarrow>
    a \<le> b \<and> out = map render (window a b (seen t)) \<and> (b = a \<or> b \<in> eID ` set (db_events (seen t)))"
begin

lemma run_window:
  "events_ok d0 \<Longrightarrow> a < db_event_seq d0 \<Longrightarrow> grows_from d0 (map seen ts) \<Longrightarrow> list_all fine ts \<Longrightarrow>
   feed_run turn ts a = (out, b) \<Longrightarrow> a \<le> b \<and> out = map render (window a b (last (d0 # map seen ts)))"
proof (induction ts arbitrary: d0 a out)
  case Nil
  then show ?case by (auto simp: window_def)
next
  case (Cons t ts)
  let ?d = "seen t" and ?last = "last (seen t # map seen ts)"
  from Cons.prems have grow: "events_grow d0 ?d" and rest: "grows_from ?d (map seen ts)"
    and fine: "fine t" "list_all fine ts" by auto
  have ok: "events_ok ?d" using events_grow_ok [OF grow Cons.prems(1)] .
  obtain o1 a1 where turn: "turn t a = (o1, a1)" by fastforce
  obtain o2 where r: "feed_run turn ts a1 = (o2, b)" and out: "out = o1 @ o2"
    using Cons.prems(5) turn by (auto simp: Let_def split: prod.splits)
  note w = turn_window [OF fine(1) ok turn]
  have "db_event_seq d0 \<le> db_event_seq ?d" using grow by (auto simp: events_grow_def)
  with w Cons.prems(2) ok have a1: "a1 < db_event_seq ?d" by (auto simp: events_ok_def)
  from Cons.IH [OF ok a1 rest fine(2) r] have IH: "a1 \<le> b" "o2 = map render (window a1 b ?last)" by auto
  from grows_last [OF ok rest] have grown: "events_grow ?d ?last" "sorted_wrt (<) (map eID (db_events ?last))"
    by (auto simp: events_ok_def)
  have "window a a1 ?last = window a a1 ?d" by (rule window_grow [OF grown(1) ok a1])
  moreover have "window a b ?last = window a a1 ?last @ window a1 b ?last"
    by (rule window_split [OF _ IH(1) grown(2)]) (use w in blast)
  moreover have "last (d0 # map seen (t # ts)) = ?last" by simp
  ultimately show ?case using w IH out by (simp only: map_append) auto
qed

lemma run_once:
  assumes "events_ok d0" and "a < db_event_seq d0" and "grows_from d0 (map seen ts)" and "list_all fine ts"
    and "feed_run turn ts a = (out, b)"
  shows "a \<le> b \<and> out = map render (window a b (last (d0 # map seen ts)))
    \<and> distinct (map eID (window a b (last (d0 # map seen ts))))"
proof -
  let ?last = "last (d0 # map seen ts)"
  have "events_ok ?last" using grows_last [OF assms(1,3)] by blast
  then have "distinct (map eID (db_events ?last))" by (auto simp: events_ok_def strict_sorted_iff)
  then have "distinct (map eID (window a b ?last))" unfolding window_def by (rule distinct_map_filter)
  with run_window [OF assms] show ?thesis by blast
qed

end

end
