(* ===== verification/Event_Fanout.thy ===== *)
theory Event_Fanout
  imports Event_Feed Cache Leader_Gate
begin

text \<open>
  \<^verbatim>\<open>src/internal/eventfanout/fanout.go\<close>: the leader polls the audit trail and publishes what is new.
  \<open>pub_fault\<close> says for which event ids the publication fails. The state of the loop is the id it has
  reached. The theorem: without publication failures a run publishes every event after its starting
  point exactly once and in order, as far as it got.
\<close>

fun EntityType_text :: "EntityType \<Rightarrow> string" where
  "EntityType_text EntityTypeNode = ''node''"
| "EntityType_text EntityTypeJob = ''job''"
| "EntityType_text EntityTypeTask = ''task''"
| "EntityType_text EntityTypeLeader = ''leader''"

fun EventType_text :: "EventType \<Rightarrow> string" where
  "EventType_text EventTypeNodeRegistered = ''node_registered''"
| "EventType_text EventTypeNodeNotReady = ''node_not_ready''"
| "EventType_text EventTypeNodeRecovered = ''node_recovered''"
| "EventType_text EventTypeNodeDead = ''node_dead''"
| "EventType_text EventTypeNodeCordoned = ''node_cordoned''"
| "EventType_text EventTypeNodeScaledUp = ''node_scaled_up''"
| "EventType_text EventTypeNodeScaledDown = ''node_scaled_down''"
| "EventType_text EventTypeJobSubmitted = ''job_submitted''"
| "EventType_text EventTypeTaskScheduled = ''task_scheduled''"
| "EventType_text EventTypeTaskRunning = ''task_running''"
| "EventType_text EventTypeTaskSucceeded = ''task_succeeded''"
| "EventType_text EventTypeTaskFailed = ''task_failed''"
| "EventType_text EventTypeTaskOrphaned = ''task_orphaned''"
| "EventType_text EventTypeTaskRequeued = ''task_requeued''"
| "EventType_text EventTypeTaskRetryScheduled = ''task_retry_scheduled''"
| "EventType_text EventTypeLeaderElected = ''leader_elected''"

definition to_cluster_event :: "Event \<Rightarrow> ClusterEvent" where
  "to_cluster_event ev =
     \<lparr>ceID = eID ev, ceEntityType = EntityType_text (eEntityType ev), ceEntityID = eEntityID ev,
      ceEventType = EventType_text (eEventType ev), ceMessage = eMessage ev, ceCreatedAt = eCreatedAt ev\<rparr>"

definition fanout_interval :: duration where "fanout_interval = 500 * Millisecond"

definition fanout_start :: "dbenv \<Rightarrow> db \<Rightarrow> int" where
  "fanout_start env d =
     (case ListRecentEvents env 1 d of
        Inl e \<Rightarrow> 0
      | Inr recent \<Rightarrow> if recent = [] then 0 else eID (last recent))"

fun publish_all :: "(int \<Rightarrow> bool) \<Rightarrow> Event list \<Rightarrow> int \<Rightarrow> ClusterEvent list \<times> int" where
  "publish_all pub_fault [] afterID = ([], afterID)"
| "publish_all pub_fault (ev # evs) afterID =
     (if pub_fault (eID ev) then publish_all pub_fault evs afterID
      else (let (out, a) = publish_all pub_fault evs (eID ev) in (to_cluster_event ev # out, a)))"

definition fanout_tick ::
  "dbenv \<Rightarrow> (int \<Rightarrow> bool) \<Rightarrow> LeaderGate option \<Rightarrow> db \<Rightarrow> int \<Rightarrow> ClusterEvent list \<times> int" where
  "fanout_tick env pub_fault leader d afterID =
     (if \<not> gate_open leader then ([], afterID)
      else case ListEventsAfter env afterID 200 d of
             Inl e \<Rightarrow> ([], afterID)
           | Inr events \<Rightarrow> publish_all pub_fault events afterID)"

text \<open>The loop over the states of the database it meets, one per tick.\<close>

fun fanout_run ::
  "(dbenv \<times> (int \<Rightarrow> bool) \<times> LeaderGate option \<times> db) list \<Rightarrow> int \<Rightarrow> ClusterEvent list \<times> int" where
  "fanout_run [] afterID = ([], afterID)"
| "fanout_run ((env, pub_fault, leader, d) # ticks) afterID =
     (let (out, a) = fanout_tick env pub_fault leader d afterID;
          (out', a') = fanout_run ticks a
      in (out @ out', a'))"

interpretation fanout: gated_loop
  "\<lambda>(env, pub_fault, d) g afterID. snd (fanout_tick env pub_fault g d afterID)"
  by unfold_locales (auto simp: fanout_tick_def)

section \<open>One tick\<close>

lemma publish_all_ok:
  "(\<And>i. \<not> pub_fault i) \<Longrightarrow> publish_all pub_fault evs a
     = (map to_cluster_event evs, if evs = [] then a else eID (last evs))"
  by (induction evs arbitrary: a) (auto simp: Let_def)

definition tick_db :: "dbenv \<times> (int \<Rightarrow> bool) \<times> LeaderGate option \<times> db \<Rightarrow> db" where
  "tick_db t = snd (snd (snd t))"

definition tick_fault :: "dbenv \<times> (int \<Rightarrow> bool) \<times> LeaderGate option \<times> db \<Rightarrow> int \<Rightarrow> bool" where
  "tick_fault t = fst (snd t)"

lemma tick_sel: "tick_db (env, p, g, d) = d" "tick_fault (env, p, g, d) = p"
  by (simp_all add: tick_db_def tick_fault_def)

interpretation fanout_feed: event_feed
  "\<lambda>(env, pub_fault, leader, d). fanout_tick env pub_fault leader d" tick_db "\<lambda>t. \<forall>i. \<not> tick_fault t i"
  to_cluster_event
proof (unfold_locales, goal_cases)
  case (1 t a out b)
  obtain env p g d where t: "t = (env, p, g, d)" by (metis prod_cases4)
  show ?case
  proof (cases "gate_open g \<and> \<not> db_fault env ''store: list events after''")
    case False
    with 1(3) t show ?thesis
      by (auto simp: fanout_tick_def ListEventsAfter_def pool_query_def window_def split: if_splits)
  next
    case True
    then obtain evs where evs: "ListEventsAfter env a 200 d = Inr evs"
      by (simp add: ListEventsAfter_def pool_query_def)
    with True 1 t have "out = map to_cluster_event evs" "b = (if evs = [] then a else eID (last evs))"
      by (auto simp: fanout_tick_def publish_all_ok tick_sel)
    with page_window [OF _ _ evs] 1(2) t show ?thesis by (simp add: tick_sel)
  qed
qed

lemma fanout_run_feed:
  "fanout_run ticks a = feed_run (\<lambda>(env, pub_fault, leader, d). fanout_tick env pub_fault leader d) ticks a"
  by (induction ticks arbitrary: a) (auto simp: Let_def split: prod.splits)

section \<open>Properties\<close>


definition two_events :: db where
  "two_events = sample_db\<lparr>db_event_seq := 3, db_events :=
     [\<lparr>eID = 1, eEntityType = EntityTypeNode, eEntityID = ''n1'', eEventType = EventTypeNodeRegistered,
       eMessage = [], eCreatedAt = 1\<rparr>,
      \<lparr>eID = 2, eEntityType = EntityTypeTask, eEntityID = ''t1'', eEventType = EventTypeTaskRunning,
       eMessage = [], eCreatedAt = 2\<rparr>]\<rparr>"

lemma two_events_ok: "events_ok two_events"
  by (simp add: events_ok_def two_events_def)

lemma two_events_run:
  "fanout_run [(sample_env, \<lambda>_. False, None, two_events)] 0
     = (map to_cluster_event (db_events two_events), 2)"
  by (simp add: fanout_tick_def ListEventsAfter_def pool_query_def two_events_def Let_def)


text \<open>
  A failed publication is not repeated once a later event is published: the point reached moves past
  it, and no later tick returns it.
\<close>

lemma failed_publication_lost:
  "fanout_run [(sample_env, \<lambda>i. i = 1, None, two_events), (sample_env, \<lambda>_. False, None, two_events)] 0
     = ([to_cluster_event (db_events two_events ! 1)], 2)"
  by (simp add: fanout_tick_def ListEventsAfter_def pool_query_def two_events_def Let_def)

end
