(* ===== verification/Docker_Util.thy ===== *)
theory Docker_Util
  imports Arbiter_Prelude "HOL-Library.Word"
begin

text \<open>
  \<^verbatim>\<open>src/internal/dockerutil/dockerutil.go\<close>: the Docker Engine calls the scheduler makes (and, in the
  request type, those of the worker's executor). The Engine is
  outside the program: \<open>engine\<close> maps a request and the Engine's state to a response (or a transport
  error) and a new state. Requests are kept structured, as the values the code builds before it encodes
  them as URLs and JSON. \<open>engine_laws\<close> is the documented behaviour the theorems rely on. The theorems: the
  multiplexed log stream is decoded to exactly its payloads, and reaping removes every container of the
  given tasks.
\<close>

section \<open>Requests and responses\<close>

record ContainerSummary =
  csID :: string
  csName :: string
  csLabels :: strmap
  csState :: string

record WorkerSpec =
  wsName :: string
  wsHostname :: string
  wsImage :: string
  wsNetwork :: string
  wsSchedulerAddr :: string
  wsSchedulerAddrs :: string
  wsCPUMillicores :: int
  wsMemMB :: int
  wsHTTPAddr :: string
  wsExtraHosts :: "string list"
  wsDockerSockBind :: string

record CreateBody =
  cbImage :: string
  cbHostname :: string
  cbEnv :: "string list"
  cbCmd :: "string list"
  cbLabels :: strmap
  cbBinds :: "string list"
  cbRestartPolicy :: string
  cbAutoRemove :: bool
  cbExtraHosts :: "string list"
  cbNetwork :: "string option"

record RawContainer =
  rcID :: string
  rcNames :: "string list"
  rcLabels :: strmap
  rcState :: string

type_synonym bytes = "8 word list"

datatype docker_request =
    CreateReq string CreateBody
  | StartReq string
  | RemoveReq string bool
  | ListReq strmap bool
  | LogsReq string int
  | InspectReq string
  | WaitReq string
  | KillReq string

text \<open>The decoded body of a response; \<open>Undecodable\<close> when it is not the JSON the caller expects.\<close>

datatype docker_body =
    CreatedBody string
  | ListBody "RawContainer list"
  | NetworksBody "string list"
  | RawBody bytes
  | WaitBody int
  | Undecodable

record docker_response =
  drStatus :: int
  drBody :: docker_body

datatype docker_error = DockerError string

type_synonym 'k engine = "docker_request \<Rightarrow> 'k \<Rightarrow> (docker_error + docker_response) \<times> 'k"

definition LabelAutoscaled :: string where "LabelAutoscaled = ''arbiter.autoscaled''"
definition LabelRole :: string where "LabelRole = ''arbiter.role''"
definition LabelManaged :: string where "LabelManaged = ''arbiter.managed''"
definition LabelWorkerHostname :: string where "LabelWorkerHostname = ''arbiter.hostname''"
definition AutoscaledLabelValue :: string where "AutoscaledLabelValue = ''true''"
definition RoleWorker :: string where "RoleWorker = ''worker''"

section \<open>Operations\<close>

definition RemoveContainer :: "'k engine \<Rightarrow> string \<Rightarrow> bool \<Rightarrow> 'k \<Rightarrow> docker_error option \<times> 'k" where
  "RemoveContainer eng idOrName force k =
     (case eng (RemoveReq idOrName force) k of
        (Inl e, k') \<Rightarrow> (Some e, k')
      | (Inr resp, k') \<Rightarrow>
          if drStatus resp = 404 then (None, k')
          else if 300 \<le> drStatus resp
          then (Some (DockerError (''docker remove: status '' @ itoa (drStatus resp))), k')
          else (None, k'))"

definition summary_of :: "RawContainer \<Rightarrow> ContainerSummary" where
  "summary_of ctr =
     \<lparr>csID = rcID ctr,
      csName = (if rcNames ctr \<noteq> [] then TrimPrefix (hd (rcNames ctr)) ''/'' else []),
      csLabels = rcLabels ctr, csState = rcState ctr\<rparr>"

definition listByLabels ::
  "'k engine \<Rightarrow> strmap \<Rightarrow> bool \<Rightarrow> 'k \<Rightarrow> (docker_error + ContainerSummary list) \<times> 'k" where
  "listByLabels eng labels all k =
     (case eng (ListReq labels all) k of
        (Inl e, k') \<Rightarrow> (Inl e, k')
      | (Inr resp, k') \<Rightarrow>
          if 300 \<le> drStatus resp
          then (Inl (DockerError (''docker list: status '' @ itoa (drStatus resp))), k')
          else (case drBody resp of
                  ListBody raw \<Rightarrow> (Inr (map summary_of raw), k')
                | _ \<Rightarrow> (Inl (DockerError ''unmarshal''), k')))"

fun remove_all :: "'k engine \<Rightarrow> ContainerSummary list \<Rightarrow> 'k \<Rightarrow> docker_error option \<times> 'k" where
  "remove_all eng [] k = (None, k)"
| "remove_all eng (ctr # ctrs) k =
     (case RemoveContainer eng (csID ctr) True k of
        (Some e, k') \<Rightarrow> (Some e, k')
      | (None, k') \<Rightarrow> remove_all eng ctrs k')"

definition killByTaskLabel :: "'k engine \<Rightarrow> string \<Rightarrow> 'k \<Rightarrow> docker_error option \<times> 'k" where
  "killByTaskLabel eng taskID k =
     (case listByLabels eng [(''arbiter.task_id'', taskID)] True k of
        (Inl e, k') \<Rightarrow> (Some e, k')
      | (Inr containers, k') \<Rightarrow> remove_all eng containers k')"

fun kill_loop :: "'k engine \<Rightarrow> docker_error option \<Rightarrow> string list \<Rightarrow> 'k \<Rightarrow> docker_error option \<times> 'k" where
  "kill_loop eng firstErr [] k = (firstErr, k)"
| "kill_loop eng firstErr (i # ids) k =
     (case killByTaskLabel eng i k of
        (err, k') \<Rightarrow> kill_loop eng (if err \<noteq> None \<and> firstErr = None then err else firstErr) ids k')"

definition KillTaskContainers :: "'k engine \<Rightarrow> string list \<Rightarrow> 'k \<Rightarrow> docker_error option \<times> 'k" where
  "KillTaskContainers eng taskIDs k = kill_loop eng None taskIDs k"

definition worker_body :: "WorkerSpec \<Rightarrow> CreateBody" where
  "worker_body spec =
     (let httpAddr = (if wsHTTPAddr spec = [] then '':8081'' else wsHTTPAddr spec);
          sockBind = (if wsDockerSockBind spec = [] then ''/var/run/docker.sock:/var/run/docker.sock''
                      else wsDockerSockBind spec);
          schedulerAddr = (if wsSchedulerAddr spec = [] then ''scheduler:7000'' else wsSchedulerAddr spec)
      in \<lparr>cbImage = wsImage spec, cbHostname = wsHostname spec,
          cbEnv = [''ARBITER_SCHEDULER_ADDR='' @ schedulerAddr,
                   ''DOCKER_HOST=unix:///var/run/docker.sock'']
                  @ (if wsSchedulerAddrs spec \<noteq> []
                     then [''ARBITER_SCHEDULER_ADDRS='' @ wsSchedulerAddrs spec] else []),
          cbCmd = [''--hostname='' @ wsHostname spec,
                   ''--address='' @ wsHostname spec @ httpAddr,
                   ''--http-addr='' @ httpAddr,
                   ''--cpu-capacity-millicores='' @ itoa (wsCPUMillicores spec),
                   ''--mem-capacity-mb='' @ itoa (wsMemMB spec),
                   ''--labels=autoscaled=true''],
          cbLabels = [(LabelManaged, AutoscaledLabelValue), (LabelRole, RoleWorker),
                      (LabelAutoscaled, AutoscaledLabelValue), (LabelWorkerHostname, wsHostname spec)],
          cbBinds = [sockBind], cbRestartPolicy = ''unless-stopped'', cbAutoRemove = False,
          cbExtraHosts = wsExtraHosts spec,
          cbNetwork = (if wsNetwork spec \<noteq> [] then Some (wsNetwork spec) else None)\<rparr>)"

definition CreateAndStartWorker ::
  "'k engine \<Rightarrow> WorkerSpec \<Rightarrow> 'k \<Rightarrow> (docker_error + string) \<times> 'k" where
  "CreateAndStartWorker eng spec k =
     (if wsName spec = [] \<or> wsHostname spec = [] \<or> wsImage spec = []
      then (Inl (DockerError ''dockerutil: worker name, hostname, and image are required''), k)
      else
        (case eng (CreateReq (wsName spec) (worker_body spec)) k of
           (Inl e, k1) \<Rightarrow> (Inl e, k1)
         | (Inr resp, k1) \<Rightarrow>
             if 300 \<le> drStatus resp
             then (Inl (DockerError (''docker create worker: status '' @ itoa (drStatus resp))), k1)
             else
               (case drBody resp of
                  CreatedBody cid \<Rightarrow>
                    if cid = [] then (Inl (DockerError ''docker create worker: invalid response''), k1)
                    else
                      (case eng (StartReq cid) k1 of
                         (Inl e, k2) \<Rightarrow> (Inl e, k2)
                       | (Inr startResp, k2) \<Rightarrow>
                           if 300 \<le> drStatus startResp
                           then (Inl (DockerError (''docker start worker: status ''
                                        @ itoa (drStatus startResp))),
                                 snd (RemoveContainer eng cid True k2))
                           else (Inr cid, k2))
                | _ \<Rightarrow> (Inl (DockerError ''docker create worker: invalid response''), k1))))"

definition ListAutoscaledWorkers :: "'k engine \<Rightarrow> 'k \<Rightarrow> (docker_error + ContainerSummary list) \<times> 'k" where
  "ListAutoscaledWorkers eng k = listByLabels eng [(LabelAutoscaled, AutoscaledLabelValue)] True k"

text \<open>
  \<open>getenv\<close> and \<open>hostname\<close> are the process environment. Go iterates over a map in no fixed order; the
  Engine's list gives the order here.
\<close>

definition DetectComposeNetwork ::
  "(string \<Rightarrow> string) \<Rightarrow> string option \<Rightarrow> 'k engine \<Rightarrow> 'k \<Rightarrow> (docker_error + string) \<times> 'k" where
  "DetectComposeNetwork getenv hostname eng k =
     (let n = TrimSpace (getenv ''ARBITER_DOCKER_NETWORK'') in
      if n \<noteq> [] then (Inr n, k)
      else case hostname of
        None \<Rightarrow> (Inl (DockerError ''dockerutil: cannot detect network: no hostname''), k)
      | Some h \<Rightarrow>
          if h = [] then (Inl (DockerError ''dockerutil: cannot detect network: no hostname''), k)
          else
            (case eng (InspectReq h) k of
               (Inl e, k') \<Rightarrow> (Inl e, k')
             | (Inr resp, k') \<Rightarrow>
                 if 300 \<le> drStatus resp
                 then (Inl (DockerError (''docker inspect self: status '' @ itoa (drStatus resp))), k')
                 else
                   (case drBody resp of
                      NetworksBody names \<Rightarrow>
                        (case find (\<lambda>m. m \<noteq> [] \<and> m \<noteq> ''none'' \<and> m \<noteq> ''host'') names of
                           None \<Rightarrow> (Inl (DockerError ''dockerutil: no usable network on self container''), k')
                         | Some m \<Rightarrow> (Inr m, k'))
                    | _ \<Rightarrow> (Inl (DockerError ''unmarshal''), k'))))"

section \<open>Container logs\<close>

definition be32 :: "8 word \<Rightarrow> 8 word \<Rightarrow> 8 word \<Rightarrow> 8 word \<Rightarrow> nat" where
  "be32 a b c d = unat a * 2 ^ 24 + unat b * 2 ^ 16 + unat c * 2 ^ 8 + unat d"

text \<open>
  The loop: \<open>rest\<close> is the input from index \<open>i\<close> on, \<open>acc\<close> what has been written; \<open>None\<close> when a frame is
  longer than what follows, in which case the whole input is returned as it is.
\<close>

function decode_frames :: "bytes \<Rightarrow> bytes \<Rightarrow> bytes option" where
  "decode_frames rest acc =
     (if length rest < 8 then Some acc
      else
        (let size = be32 (rest ! 4) (rest ! 5) (rest ! 6) (rest ! 7);
             rest' = drop 8 rest
         in if length rest' < size then None
            else decode_frames (drop size rest') (acc @ take size rest')))"
  by pat_completeness auto
termination by (relation "measure (\<lambda>(rest, acc). length rest)") auto

declare decode_frames.simps [simp del]

definition decodeDockerLogs :: "bytes \<Rightarrow> bytes" where
  "decodeDockerLogs raw =
     (if raw = [] then []
      else case decode_frames raw [] of
             None \<Rightarrow> raw
           | Some b \<Rightarrow> if b = [] then raw else b)"

definition TaskLogs ::
  "'k engine \<Rightarrow> string \<Rightarrow> int \<Rightarrow> 'k \<Rightarrow> (docker_error + bytes option) \<times> 'k" where
  "TaskLogs eng taskID tail k =
     (let tail = (if tail \<le> 0 then 200 else tail) in
      case listByLabels eng [(''arbiter.task_id'', taskID)] True k of
        (Inl e, k1) \<Rightarrow> (Inl e, k1)
      | (Inr [], k1) \<Rightarrow> (Inr None, k1)
      | (Inr (c # cs), k1) \<Rightarrow>
          (case eng (LogsReq (csID c) tail) k1 of
             (Inl e, k2) \<Rightarrow> (Inl e, k2)
           | (Inr resp, k2) \<Rightarrow>
               if 300 \<le> drStatus resp
               then (Inl (DockerError (''docker logs: status '' @ itoa (drStatus resp))), k2)
               else (case drBody resp of
                       RawBody raw \<Rightarrow> (Inr (Some (decodeDockerLogs raw)), k2)
                     | _ \<Rightarrow> (Inl (DockerError ''read body''), k2))))"

section \<open>The log stream\<close>

text \<open>The Engine's framing: stream id, three zero bytes, the length in big-endian order, the payload.\<close>

definition be_bytes :: "nat \<Rightarrow> bytes" where
  "be_bytes n = [word_of_nat (n div 2 ^ 24), word_of_nat (n div 2 ^ 16), word_of_nat (n div 2 ^ 8),
                 word_of_nat n]"

definition frame :: "8 word \<times> bytes \<Rightarrow> bytes" where
  "frame f = [fst f, 0, 0, 0] @ be_bytes (length (snd f)) @ snd f"

lemma unat_byte: "unat (word_of_nat n :: 8 word) = n mod 256"
  by (simp add: unat_of_nat)

lemma be32_be_bytes:
  assumes "n < 2 ^ 32"
  shows "be32 (word_of_nat (n div 2 ^ 24)) (word_of_nat (n div 2 ^ 16)) (word_of_nat (n div 2 ^ 8))
           (word_of_nat n) = n"
proof -
  define q1 q2 q3 where q: "q1 = n div 256" "q2 = q1 div 256" "q3 = q2 div 256"
  define r1 r2 r3 where r: "r1 = n mod 256" "r2 = q1 mod 256" "r3 = q2 mod 256"
  have parts: "n = q1 * 256 + r1" "q1 = q2 * 256 + r2" "q2 = q3 * 256 + r3"
    by (simp_all add: q r)
  have divs: "n div 2 ^ 24 = q3" "n div 2 ^ 16 = q2" "n div 2 ^ 8 = q1"
    by (simp_all add: q div_mult2_eq [symmetric])
  have top: "q3 mod 256 = q3"
    using assms by (simp add: q div_mult2_eq [symmetric] less_mult_imp_div_less)
  have "be32 (word_of_nat (n div 2 ^ 24)) (word_of_nat (n div 2 ^ 16)) (word_of_nat (n div 2 ^ 8))
           (word_of_nat n) = q3 * 16777216 + r3 * 65536 + r2 * 256 + r1"
    unfolding be32_def unat_byte divs top r by simp
  also have "\<dots> = n" using parts by linarith
  finally show ?thesis .
qed

lemma decode_frame:
  assumes "length p < 2 ^ 32"
  shows "decode_frames (frame (s, p) @ rest) acc = decode_frames rest (acc @ p)"
proof -
  define r where "r = frame (s, p) @ rest"
  have len: "\<not> length r < 8" by (simp add: r_def frame_def be_bytes_def)
  have size: "be32 (r ! 4) (r ! 5) (r ! 6) (r ! 7) = length p"
    using be32_be_bytes [OF assms] by (simp add: r_def frame_def be_bytes_def)
  have body: "drop 8 r = p @ rest" by (simp add: r_def frame_def be_bytes_def)
  have "decode_frames r acc = decode_frames rest (acc @ p)"
    by (subst decode_frames.simps) (simp add: Let_def len size body del: drop_drop)
  then show ?thesis by (simp add: r_def)
qed

lemma decode_frames_concat:
  "list_all (\<lambda>f. length (snd f) < 2 ^ 32) fs \<Longrightarrow>
     decode_frames (concat (map frame fs)) acc = Some (acc @ concat (map snd fs))"
proof (induction fs arbitrary: acc)
  case Nil
  then show ?case by (simp add: decode_frames.simps)
next
  case (Cons f fs)
  then show ?case using decode_frame [of "snd f" "fst f"] by simp
qed

text \<open>
  C37: The container logs. A stream of frames, of either output stream and each shorter than \<open>2 ^ 32\<close>
  bytes, that carries at least one byte is decoded to the concatenation of its payloads.
\<close>

theorem decodeDockerLogs_frames:
  assumes "list_all (\<lambda>f. length (snd f) < 2 ^ 32) fs" and "concat (map snd fs) \<noteq> []"
  shows "decodeDockerLogs (concat (map frame fs)) = concat (map snd fs)"
  using decode_frames_concat [OF assms(1), of "[]"] assms(2)
  by (auto simp: decodeDockerLogs_def frame_def)

theorem decodeDockerLogs_frames_witness:
  "decodeDockerLogs (concat (map frame [(1, [104, 105]), (2, [10])])) = [104, 105, 10]"
  using decodeDockerLogs_frames [of "[(1, [104, 105]), (2, [10])]"] by simp

section \<open>Reaping\<close>

definition has_labels :: "strmap \<Rightarrow> RawContainer \<Rightarrow> bool" where
  "has_labels labels c \<longleftrightarrow> list_all (\<lambda>(k, v). map_of (rcLabels c) k = Some v) labels"

definition refers_to :: "string \<Rightarrow> RawContainer \<Rightarrow> bool" where
  "refers_to x c \<longleftrightarrow> rcID c = x \<or> CHR ''/'' # x \<in> set (rcNames c)"

text \<open>
  What the program relies on of an Engine that answers: \<open>C\<close> reads the containers off its state. Listing
  by labels returns the containers that carry them; a forced removal by id or name leaves no container
  it refers to; a creation under a free name adds the container with its labels; starting changes
  neither ids, names nor labels; inspecting changes nothing.
\<close>

definition engine_laws :: "'k engine \<Rightarrow> ('k \<Rightarrow> RawContainer list) \<Rightarrow> bool" where
  "engine_laws eng C \<longleftrightarrow>
     (\<forall>labels k. \<exists>k'. eng (ListReq labels True) k
        = (Inr \<lparr>drStatus = 200, drBody = ListBody (filter (has_labels labels) (C k))\<rparr>, k') \<and> C k' = C k)
     \<and> (\<forall>x k. \<exists>st b k'. eng (RemoveReq x True) k = (Inr \<lparr>drStatus = st, drBody = b\<rparr>, k')
        \<and> (st < 300 \<or> st = 404) \<and> C k' = filter (\<lambda>c. \<not> refers_to x c) (C k))
     \<and> (\<forall>name body k. \<not> list_ex (refers_to name) (C k) \<longrightarrow>
          (\<exists>cid st k'. eng (CreateReq name body) k = (Inr \<lparr>drStatus = 201, drBody = CreatedBody cid\<rparr>, k')
             \<and> cid \<noteq> [] \<and> C k' = C k @ [\<lparr>rcID = cid, rcNames = [CHR ''/'' # name],
                                         rcLabels = cbLabels body, rcState = st\<rparr>]))
     \<and> (\<forall>cid k. \<exists>st b k'. eng (StartReq cid) k = (Inr \<lparr>drStatus = st, drBody = b\<rparr>, k') \<and> st < 300
          \<and> map (\<lambda>c. (rcID c, rcNames c, rcLabels c)) (C k') = map (\<lambda>c. (rcID c, rcNames c, rcLabels c)) (C k))
     \<and> (\<forall>h k. C (snd (eng (InspectReq h) k)) = C k)"

lemma RemoveContainer_law:
  assumes "engine_laws eng C"
  shows "\<exists>k'. RemoveContainer eng x True k = (None, k') \<and> C k' = filter (\<lambda>c. \<not> refers_to x c) (C k)"
proof -
  from assms obtain st b k' where "eng (RemoveReq x True) k = (Inr \<lparr>drStatus = st, drBody = b\<rparr>, k')"
    "st < 300 \<or> st = 404" "C k' = filter (\<lambda>c. \<not> refers_to x c) (C k)"
    unfolding engine_laws_def by meson
  then show ?thesis by (auto simp: RemoveContainer_def)
qed

lemma listByLabels_law:
  assumes "engine_laws eng C"
  shows "\<exists>k'. listByLabels eng labels True k = (Inr (map summary_of (filter (has_labels labels) (C k))), k')
    \<and> C k' = C k"
proof -
  from assms obtain k' where "eng (ListReq labels True) k
        = (Inr \<lparr>drStatus = 200, drBody = ListBody (filter (has_labels labels) (C k))\<rparr>, k')" "C k' = C k"
    unfolding engine_laws_def by meson
  then show ?thesis by (simp add: listByLabels_def)
qed

lemma remove_all_law:
  assumes "engine_laws eng C"
  shows "\<exists>k'. remove_all eng ctrs k = (None, k')
    \<and> C k' = filter (\<lambda>c. \<not> (\<exists>s \<in> set ctrs. refers_to (csID s) c)) (C k)"
proof (induction ctrs arbitrary: k)
  case (Cons s ctrs)
  obtain k1 where k1: "RemoveContainer eng (csID s) True k = (None, k1)"
    "C k1 = filter (\<lambda>c. \<not> refers_to (csID s) c) (C k)" using RemoveContainer_law [OF assms] by blast
  obtain k2 where "remove_all eng ctrs k1 = (None, k2)"
    "C k2 = filter (\<lambda>c. \<not> (\<exists>s \<in> set ctrs. refers_to (csID s) c)) (C k1)" using Cons.IH by blast
  with k1 show ?case by (auto intro!: filter_cong)
qed simp

lemma killByTaskLabel_law:
  assumes "engine_laws eng C"
  shows "\<exists>k'. killByTaskLabel eng i k = (None, k') \<and> set (C k') \<subseteq> set (C k)
    \<and> filter (has_labels [(''arbiter.task_id'', i)]) (C k') = []"
proof -
  let ?cs = "filter (has_labels [(''arbiter.task_id'', i)]) (C k)"
  obtain k1 where k1: "listByLabels eng [(''arbiter.task_id'', i)] True k = (Inr (map summary_of ?cs), k1)"
    "C k1 = C k" using listByLabels_law [OF assms] by blast
  obtain k2 where k2: "remove_all eng (map summary_of ?cs) k1 = (None, k2)"
    "C k2 = filter (\<lambda>c. \<not> (\<exists>s \<in> set (map summary_of ?cs). refers_to (csID s) c)) (C k1)"
    using remove_all_law [OF assms] by blast
  have "refers_to (csID (summary_of c)) c" for c by (simp add: refers_to_def summary_of_def)
  with k1 k2 show ?thesis by (auto simp: killByTaskLabel_def filter_empty_conv)
qed

lemma kill_loop_law:
  "engine_laws eng C \<Longrightarrow> \<exists>k'. kill_loop eng None ids k = (None, k') \<and> set (C k') \<subseteq> set (C k)
    \<and> (\<forall>i \<in> set ids. filter (has_labels [(''arbiter.task_id'', i)]) (C k') = [])"
proof (induction ids arbitrary: k)
  case (Cons i ids)
  obtain k1 where k1: "killByTaskLabel eng i k = (None, k1)" "set (C k1) \<subseteq> set (C k)"
    "filter (has_labels [(''arbiter.task_id'', i)]) (C k1) = []"
    using killByTaskLabel_law [OF Cons.prems] by blast
  obtain k2 where "kill_loop eng None ids k1 = (None, k2)" "set (C k2) \<subseteq> set (C k1)"
    "\<forall>i \<in> set ids. filter (has_labels [(''arbiter.task_id'', i)]) (C k2) = []"
    using Cons.IH [OF Cons.prems] by blast
  with k1 show ?case by (fastforce simp: filter_empty_conv)
qed simp

text \<open>
  Reaping. With an Engine that answers, \<open>KillTaskContainers\<close> succeeds, leaves no container labelled
  with any of the given task ids, and creates none.
\<close>

theorem KillTaskContainers_reaps:
  assumes "engine_laws eng C"
  shows "\<exists>k'. KillTaskContainers eng ids k = (None, k') \<and> set (C k') \<subseteq> set (C k)
    \<and> list_all (\<lambda>c. list_all (\<lambda>i. map_of (rcLabels c) ''arbiter.task_id'' \<noteq> Some i) ids) (C k')"
  using kill_loop_law [OF assms, of ids k]
  by (force simp: KillTaskContainers_def list_all_iff filter_empty_conv has_labels_def)

text \<open>An Engine that keeps a list of containers.\<close>

fun list_engine :: "(RawContainer list \<times> nat) engine" where
  "list_engine (CreateReq name body) (cs, n) =
     (if list_ex (refers_to name) cs then (Inr \<lparr>drStatus = 409, drBody = Undecodable\<rparr>, cs, n)
      else (Inr \<lparr>drStatus = 201, drBody = CreatedBody (CHR ''c'' # itoa (int n))\<rparr>,
            cs @ [\<lparr>rcID = CHR ''c'' # itoa (int n), rcNames = [CHR ''/'' # name],
                   rcLabels = cbLabels body, rcState = ''created''\<rparr>], Suc n))"
| "list_engine (StartReq cid) (cs, n) =
     (Inr \<lparr>drStatus = 204, drBody = Undecodable\<rparr>,
      map (\<lambda>c. if rcID c = cid then c\<lparr>rcState := ''running''\<rparr> else c) cs, n)"
| "list_engine (RemoveReq x force) (cs, n) =
     (Inr \<lparr>drStatus = (if list_ex (refers_to x) cs then 204 else 404), drBody = Undecodable\<rparr>,
      filter (\<lambda>c. \<not> refers_to x c) cs, n)"
| "list_engine (ListReq labels all) (cs, n) =
     (Inr \<lparr>drStatus = 200, drBody = ListBody (filter (has_labels labels) cs)\<rparr>, cs, n)"
| "list_engine (LogsReq cid tail) (cs, n) = (Inr \<lparr>drStatus = 200, drBody = RawBody []\<rparr>, cs, n)"
| "list_engine (InspectReq h) (cs, n) = (Inr \<lparr>drStatus = 200, drBody = NetworksBody [''bridge'']\<rparr>, cs, n)"
| "list_engine (WaitReq cid) (cs, n) =
     (if list_ex (refers_to cid) cs
      then (Inr \<lparr>drStatus = 200, drBody = WaitBody 0\<rparr>, filter (\<lambda>c. \<not> refers_to cid c) cs, n)
      else (Inr \<lparr>drStatus = 404, drBody = Undecodable\<rparr>, cs, n))"
| "list_engine (KillReq cid) (cs, n) = (Inr \<lparr>drStatus = 204, drBody = Undecodable\<rparr>, cs, n)"

lemma list_engine_laws: "engine_laws list_engine fst"
  by (auto simp: engine_laws_def comp_def)

definition two_containers :: "RawContainer list" where
  "two_containers = [\<lparr>rcID = ''a'', rcNames = [''/x''], rcLabels = [(''arbiter.task_id'', ''t1'')], rcState = ''running''\<rparr>,
     \<lparr>rcID = ''b'', rcNames = [''/y''], rcLabels = [(''arbiter.task_id'', ''t2'')], rcState = ''running''\<rparr>]"

theorem KillTaskContainers_reaps_witness:
  "\<exists>k'. KillTaskContainers list_engine [''t1''] (two_containers, 0) = (None, k') \<and> set (fst k') \<subseteq> set two_containers
    \<and> list_all (\<lambda>c. map_of (rcLabels c) ''arbiter.task_id'' \<noteq> Some ''t1'') (fst k')"
  using KillTaskContainers_reaps [OF list_engine_laws, of "[''t1'']" "(two_containers, 0)"] by simp

end
