(* ===== verification/Dialer.thy ===== *)
theory Dialer
  imports Grpc_Props
begin

text \<open>
  The scheduler connection of a worker, in \<^verbatim>\<open>src/cmd/worker/main.go\<close>: the dialer that follows redirects
  and rotates over the configured replicas, and the two retry loops built on it. \<open>dial\<close> is
  \<^verbatim>\<open>grpc.NewClient\<close>, which connects lazily and fails only on an address it cannot parse; a client is
  identified by the address it talks to, and \<open>call a w\<close> is the RPC to the replica at \<open>a\<close> in world \<open>w\<close>.
  The locale \<open>routed_rpc\<close> extends the contract of the mutating handlers by what makes retrying sound: an
  answer of the leader is never taken for a redirect. From it follows that a worker reaches the leader.
\<close>

section \<open>The dialer\<close>

record schedulerDialer =
  dlAddrs :: "string list"
  dlIdx :: nat
  dlAddr :: string
  dlConn :: bool

datatype call_error = DialError string | RpcError Status | CtxDone

text \<open>\<open>None\<close> is the panic of \<open>addrs[0]\<close> on an empty list.\<close>

definition newSchedulerDialer :: "string list \<Rightarrow> schedulerDialer option" where
  "newSchedulerDialer addrs =
     (case addrs of [] \<Rightarrow> None
      | a # _ \<Rightarrow> Some \<lparr>dlAddrs = addrs, dlIdx = 0, dlAddr = a, dlConn = False\<rparr>)"

fun first_index :: "string \<Rightarrow> nat \<Rightarrow> string list \<Rightarrow> nat option" where
  "first_index addr i [] = None"
| "first_index addr i (a # as) = (if a = addr then Some i else first_index addr (Suc i) as)"

definition redialLocked ::
  "(string \<Rightarrow> string option) \<Rightarrow> string \<Rightarrow> schedulerDialer \<Rightarrow> (call_error + string) \<times> schedulerDialer" where
  "redialLocked dial addr d =
     (case dial addr of
        Some e \<Rightarrow> (Inl (DialError e), d)
      | None \<Rightarrow>
          (Inr addr, d\<lparr>dlAddr := addr, dlConn := True,
                       dlIdx := (case first_index addr 0 (dlAddrs d) of None \<Rightarrow> dlIdx d | Some i \<Rightarrow> i)\<rparr>))"

definition Client ::
  "(string \<Rightarrow> string option) \<Rightarrow> schedulerDialer \<Rightarrow> (call_error + string) \<times> schedulerDialer" where
  "Client dial d = (if dlConn d then (Inr (dlAddr d), d) else redialLocked dial (dlAddr d) d)"

definition FollowRedirect ::
  "(string \<Rightarrow> string option) \<Rightarrow> Status \<Rightarrow> schedulerDialer \<Rightarrow> bool \<times> schedulerDialer" where
  "FollowRedirect dial err d =
     (case ParseLeaderAddr (Some err) of
        None \<Rightarrow> (False, d)
      | Some addr \<Rightarrow>
          if addr = dlAddr d \<and> dlConn d then (True, d)
          else (case redialLocked dial addr d of (Inl _, d') \<Rightarrow> (False, d') | (Inr _, d') \<Rightarrow> (True, d')))"

definition RecoverFromUnavailable ::
  "(string \<Rightarrow> string option) \<Rightarrow> Status \<Rightarrow> schedulerDialer \<Rightarrow> bool \<times> schedulerDialer" where
  "RecoverFromUnavailable dial err d =
     (if stCode err \<noteq> Unavailable then (False, d)
      else if dlAddrs d = [] then (False, d)
      else
        (let i = (dlIdx d + 1) mod length (dlAddrs d) in
         case redialLocked dial (dlAddrs d ! i) (d\<lparr>dlIdx := i\<rparr>) of
           (Inl _, d') \<Rightarrow> (False, d')
         | (Inr _, d') \<Rightarrow> (True, d')))"

definition Close :: "schedulerDialer \<Rightarrow> schedulerDialer" where
  "Close d = (if dlConn d then d\<lparr>dlConn := False\<rparr> else d)"

section \<open>The retry loops\<close>

type_synonym ('w, 'a) rpc_call = "string \<Rightarrow> 'w \<Rightarrow> (Status + 'a) \<times> 'w"

text \<open>\<open>FollowRedirect(err) || RecoverFromUnavailable(err)\<close>.\<close>

definition recover_dialer ::
  "(string \<Rightarrow> string option) \<Rightarrow> Status \<Rightarrow> schedulerDialer \<Rightarrow> bool \<times> schedulerDialer" where
  "recover_dialer dial err d =
     (case FollowRedirect dial err d of
        (True, d') \<Rightarrow> (True, d')
      | (False, d') \<Rightarrow> RecoverFromUnavailable dial err d')"

fun retry_loop ::
  "(string \<Rightarrow> string option) \<Rightarrow> ('w, 'a) rpc_call \<Rightarrow> nat \<Rightarrow> schedulerDialer \<Rightarrow> 'w
     \<Rightarrow> (call_error + 'a) \<times> schedulerDialer \<times> 'w" where
  "retry_loop dial call 0 d w =
     (case Client dial d of
        (Inl e, d1) \<Rightarrow> (Inl e, d1, w)
      | (Inr a, d1) \<Rightarrow>
          (case call a w of (Inl st, w') \<Rightarrow> (Inl (RpcError st), d1, w') | (Inr x, w') \<Rightarrow> (Inr x, d1, w')))"
| "retry_loop dial call (Suc n) d w =
     (case Client dial d of
        (Inl e, d1) \<Rightarrow> (Inl e, d1, w)
      | (Inr a, d1) \<Rightarrow>
          (case call a w of
             (Inr x, w') \<Rightarrow> (Inr x, d1, w')
           | (Inl st, w') \<Rightarrow>
               (case recover_dialer dial st d1 of
                  (True, d2) \<Rightarrow> retry_loop dial call n d2 w'
                | (False, d2) \<Rightarrow> (Inl (RpcError st), d2, w'))))"

definition withLeaderRetry ::
  "(string \<Rightarrow> string option) \<Rightarrow> ('w, 'a) rpc_call \<Rightarrow> schedulerDialer \<Rightarrow> 'w
     \<Rightarrow> (call_error + 'a) \<times> schedulerDialer \<times> 'w" where
  "withLeaderRetry dial call d w = retry_loop dial call 8 d w"

definition registerMaxAttempts :: nat where "registerMaxAttempts = 15"

text \<open>
  \<open>canceled n\<close>: whether the context ends during the pause with \<open>n\<close> attempts left. \<open>lastErr\<close> is nil before the
  first failure.
\<close>

fun register_loop ::
  "(string \<Rightarrow> string option) \<Rightarrow> ('w, 'a) rpc_call \<Rightarrow> (nat \<Rightarrow> bool) \<Rightarrow> nat \<Rightarrow> call_error option
     \<Rightarrow> schedulerDialer \<Rightarrow> 'w \<Rightarrow> (call_error option + 'a) \<times> schedulerDialer \<times> 'w" where
  "register_loop dial call canceled 0 lastErr d w = (Inl lastErr, d, w)"
| "register_loop dial call canceled (Suc n) lastErr d w =
     (case Client dial d of
        (Inl e, d1) \<Rightarrow>
          if canceled n then (Inl (Some CtxDone), d1, w)
          else register_loop dial call canceled n (Some e) d1 w
      | (Inr a, d1) \<Rightarrow>
          (case call a w of
             (Inr x, w') \<Rightarrow> (Inr x, d1, w')
           | (Inl st, w') \<Rightarrow>
               (case recover_dialer dial st d1 of
                  (True, d2) \<Rightarrow> register_loop dial call canceled n (Some (RpcError st)) d2 w'
                | (False, d2) \<Rightarrow>
                    if canceled n then (Inl (Some CtxDone), d2, w')
                    else register_loop dial call canceled n (Some (RpcError st)) d2 w')))"

definition registerWithRetry ::
  "(string \<Rightarrow> string option) \<Rightarrow> ('w, 'a) rpc_call \<Rightarrow> (nat \<Rightarrow> bool)
     \<Rightarrow> schedulerDialer \<Rightarrow> 'w \<Rightarrow> (call_error option + 'a) \<times> schedulerDialer \<times> 'w" where
  "registerWithRetry dial call canceled d w = register_loop dial call canceled registerMaxAttempts None d w"

section \<open>Moves of the dialer\<close>

lemma first_index_None: "first_index addr i as = None \<longleftrightarrow> addr \<notin> set as"
  by (induction as arbitrary: i) auto

lemma first_index_distinct:
  "distinct as \<Longrightarrow> j < length as \<Longrightarrow> first_index (as ! j) i as = Some (i + j)"
proof (induction as arbitrary: i j)
  case (Cons a as)
  then show ?case by (cases j) auto
qed simp

lemma first_index_less: "first_index addr i as = Some j \<Longrightarrow> j < i + length as"
  by (induction as arbitrary: i) (fastforce split: if_splits)+

text \<open>
  Well-formed: the configured addresses are distinct and the index is the position of the current
  address whenever that is a configured one.
\<close>

definition dialer_ok :: "schedulerDialer \<Rightarrow> bool" where
  "dialer_ok d \<longleftrightarrow> distinct (dlAddrs d) \<and> dlIdx d < length (dlAddrs d)
     \<and> (dlAddr d \<in> set (dlAddrs d) \<longrightarrow> dlAddrs d ! dlIdx d = dlAddr d)"

abbreviation dial_all :: "string \<Rightarrow> string option" where
  "dial_all \<equiv> \<lambda>_. None"

lemma newSchedulerDialer_ok: "distinct addrs \<Longrightarrow> newSchedulerDialer addrs = Some d \<Longrightarrow> dialer_ok d"
  by (auto simp: newSchedulerDialer_def dialer_ok_def split: list.splits)

lemma redial_ok:
  assumes "dialer_ok d" and "redialLocked dial_all addr d = (res, d')"
  shows "res = Inr addr" "dialer_ok d'" "dlAddr d' = addr" "dlConn d'" "dlAddrs d' = dlAddrs d"
proof -
  from assms(1) have dist: "distinct (dlAddrs d)" by (simp add: dialer_ok_def)
  have "dialer_ok d'"
  proof (cases "addr \<in> set (dlAddrs d)")
    case True
    then obtain j where "j < length (dlAddrs d)" "dlAddrs d ! j = addr" by (auto simp: in_set_conv_nth)
    with first_index_distinct [OF dist, of j 0] assms show ?thesis
      by (auto simp: dialer_ok_def redialLocked_def)
  next
    case False
    then have "first_index addr 0 (dlAddrs d) = None" by (simp add: first_index_None)
    with False assms show ?thesis by (auto simp: dialer_ok_def redialLocked_def)
  qed
  with assms(2) show "res = Inr addr" "dialer_ok d'" "dlAddr d' = addr" "dlConn d'" "dlAddrs d' = dlAddrs d"
    by (auto simp: redialLocked_def)
qed

lemma Client_ok:
  assumes "dialer_ok d"
  shows "Client dial_all d = (Inr (dlAddr d), d\<lparr>dlConn := True\<rparr>)"
proof (cases "first_index (dlAddr d) 0 (dlAddrs d)")
  case None
  then show ?thesis by (simp add: Client_def redialLocked_def)
next
  case (Some j)
  then have "dlAddr d \<in> set (dlAddrs d)" using first_index_None [of "dlAddr d" 0 "dlAddrs d"] by auto
  with assms have "dlAddrs d ! dlIdx d = dlAddr d" "distinct (dlAddrs d)" "dlIdx d < length (dlAddrs d)"
    by (auto simp: dialer_ok_def)
  with first_index_distinct [of "dlAddrs d" "dlIdx d" 0] Some have "j = dlIdx d" by simp
  with Some show ?thesis by (simp add: Client_def redialLocked_def)
qed

lemma connected_ok: "dialer_ok d \<Longrightarrow> dialer_ok (d\<lparr>dlConn := c\<rparr>)"
  by (simp add: dialer_ok_def)

text \<open>A redirect moves the dialer to the address it names.\<close>

lemma recover_redirect:
  assumes "dialer_ok d" and "plain_addr a"
  obtains d' where "recover_dialer dial_all (Status FailedPrecondition (FormatNotLeaderError a)) d = (True, d')"
    "dialer_ok d'" "dlAddr d' = a" "dlAddrs d' = dlAddrs d"
proof (cases "a = dlAddr d \<and> dlConn d")
  case True
  with assms show thesis
    by (intro that [of d]) (simp_all add: recover_dialer_def FollowRedirect_def ParseLeaderAddr_redirect)
next
  case False
  obtain res d' where r: "redialLocked dial_all a d = (res, d')" by fastforce
  from redial_ok [OF assms(1) r] r False assms show thesis
    by (intro that [of d'])
       (auto simp: recover_dialer_def FollowRedirect_def ParseLeaderAddr_redirect)
qed

text \<open>An unreachable replica moves it to the next configured address.\<close>

lemma recover_unavailable:
  assumes "dialer_ok d"
  shows "recover_dialer dial_all (Status Unavailable m) d
    = (True, d\<lparr>dlIdx := (dlIdx d + 1) mod length (dlAddrs d),
               dlAddr := dlAddrs d ! ((dlIdx d + 1) mod length (dlAddrs d)), dlConn := True\<rparr>)"
    and "dialer_ok (d\<lparr>dlIdx := (dlIdx d + 1) mod length (dlAddrs d),
               dlAddr := dlAddrs d ! ((dlIdx d + 1) mod length (dlAddrs d)), dlConn := True\<rparr>)"
proof -
  let ?i = "(dlIdx d + 1) mod length (dlAddrs d)"
  from assms have d: "distinct (dlAddrs d)" "?i < length (dlAddrs d)" "dlAddrs d \<noteq> []"
    by (auto simp: dialer_ok_def intro!: mod_less_divisor)
  then show "dialer_ok (d\<lparr>dlIdx := ?i, dlAddr := dlAddrs d ! ?i, dlConn := True\<rparr>)"
    by (simp add: dialer_ok_def)
  have "first_index (dlAddrs d ! ?i) 0 (dlAddrs d) = Some ?i" using first_index_distinct [OF d(1,2), of 0] by simp
  with d(3) show "recover_dialer dial_all (Status Unavailable m) d
    = (True, d\<lparr>dlIdx := ?i, dlAddr := dlAddrs d ! ?i, dlConn := True\<rparr>)"
    by (simp add: recover_dialer_def FollowRedirect_def ParseLeaderAddr_def RecoverFromUnavailable_def
          redialLocked_def Let_def)
qed

section \<open>Reaching the leader\<close>

text \<open>
  A call in a cluster whose leader is at \<open>L\<close> and known to every live replica: \<open>L\<close> answers for good, the
  other live replicas redirect to \<open>L\<close>, the rest cannot be reached.
\<close>

definition led_call :: "string \<Rightarrow> (string \<Rightarrow> bool) \<Rightarrow> ('w, 'a) rpc_call \<Rightarrow> bool" where
  "led_call L live call \<longleftrightarrow> plain_addr L \<and> live L
     \<and> (\<forall>w st w'. call L w = (Inl st, w') \<longrightarrow> ParseLeaderAddr (Some st) = None \<and> stCode st \<noteq> Unavailable)
     \<and> (\<forall>a w. live a \<and> a \<noteq> L \<longrightarrow> call a w = (Inl (Status FailedPrecondition (FormatNotLeaderError L)), w))
     \<and> (\<forall>a w. \<not> live a \<longrightarrow> (\<exists>m. call a w = (Inl (Status Unavailable m), w)))"

text \<open>Steps from the current address to the next live configured one, when the current one is not live.\<close>

definition live_within :: "nat \<Rightarrow> (string \<Rightarrow> bool) \<Rightarrow> schedulerDialer \<Rightarrow> bool" where
  "live_within m live d \<longleftrightarrow> live (dlAddr d)
     \<or> (\<exists>j. 0 < j \<and> j \<le> m \<and> live (dlAddrs d ! ((dlIdx d + j) mod length (dlAddrs d))))"

lemma live_within_all:
  assumes "dialer_ok d" and "a \<in> set (dlAddrs d)" and "live a"
  shows "live_within (length (dlAddrs d)) live d"
proof -
  let ?n = "length (dlAddrs d)"
  obtain j where j: "j < ?n" "dlAddrs d ! j = a" using assms(2) by (auto simp: in_set_conv_nth)
  have i: "dlIdx d < ?n" using assms(1) by (simp add: dialer_ok_def)
  define m where "m = (if dlIdx d < j then j - dlIdx d else j + ?n - dlIdx d)"
  have "0 < m" "m \<le> ?n" "(dlIdx d + m) mod ?n = j" using i j(1) by (auto simp: m_def)
  with j(2) assms(3) show ?thesis unfolding live_within_def by blast
qed

lemma live_within_rotate:
  assumes "live_within (Suc m) live d" and "\<not> live (dlAddr d)"
  shows "live_within m live (d\<lparr>dlIdx := (dlIdx d + 1) mod length (dlAddrs d),
               dlAddr := dlAddrs d ! ((dlIdx d + 1) mod length (dlAddrs d)), dlConn := True\<rparr>)"
proof -
  let ?n = "length (dlAddrs d)"
  from assms obtain j where j: "0 < j" "j \<le> Suc m" "live (dlAddrs d ! ((dlIdx d + j) mod ?n))"
    by (auto simp: live_within_def)
  show ?thesis
  proof (cases "j = 1")
    case True
    with j show ?thesis by (simp add: live_within_def)
  next
    case False
    have "((dlIdx d + 1) mod ?n + (j - 1)) mod ?n = (dlIdx d + j) mod ?n"
      by (subst mod_add_left_eq) (use j(1) in simp)
    with False j show ?thesis unfolding live_within_def
      by (intro disjI2 exI [of _ "j - 1"]) auto
  qed
qed

lemma recover_final:
  "ParseLeaderAddr (Some st) = None \<Longrightarrow> stCode st \<noteq> Unavailable \<Longrightarrow> recover_dialer dial st d = (False, d)"
  by (simp add: recover_dialer_def FollowRedirect_def RecoverFromUnavailable_def)

text \<open>One failed attempt: the dialer is at the leader, or nearer to a live replica.\<close>

lemma attempt_moves:
  assumes "led_call L live call" and "dialer_ok d" and "dlAddr d \<noteq> L" and "live_within m live d"
  obtains st d2 where "call (dlAddr d) w = (Inl st, w)" "recover_dialer dial_all st (d\<lparr>dlConn := True\<rparr>) = (True, d2)"
    "dialer_ok d2" "dlAddrs d2 = dlAddrs d" "dlAddr d2 = L \<or> (\<exists>m' < m. live_within m' live d2)"
proof -
  let ?d = "d\<lparr>dlConn := True\<rparr>"
  have ok: "dialer_ok ?d" using assms(2) by (rule connected_ok)
  show thesis
  proof (cases "live (dlAddr d)")
    case True
    with assms(1,3) have c: "call (dlAddr d) w = (Inl (Status FailedPrecondition (FormatNotLeaderError L)), w)"
      and L: "plain_addr L" by (auto simp: led_call_def)
    obtain d2 where "recover_dialer dial_all (Status FailedPrecondition (FormatNotLeaderError L)) ?d = (True, d2)"
      "dialer_ok d2" "dlAddr d2 = L" "dlAddrs d2 = dlAddrs ?d" using recover_redirect [OF ok L] by blast
    with c show thesis by (intro that [of _ d2]) simp_all
  next
    case False
    with assms(4) have "m \<noteq> 0" by (auto simp: live_within_def)
    then obtain m' where m: "m = Suc m'" by (cases m) auto
    obtain msg where c: "call (dlAddr d) w = (Inl (Status Unavailable msg), w)"
      using False assms(1) unfolding led_call_def by blast
    let ?d2 = "?d\<lparr>dlIdx := (dlIdx ?d + 1) mod length (dlAddrs ?d),
               dlAddr := dlAddrs ?d ! ((dlIdx ?d + 1) mod length (dlAddrs ?d)), dlConn := True\<rparr>"
    have "live_within m' live ?d2"
      using live_within_rotate [of m' live ?d] assms(4) False m by (simp add: live_within_def)
    with m have "\<exists>m' < m. live_within m' live ?d2" by blast
    with c recover_unavailable [OF ok] show thesis by (intro that [of _ ?d2]) simp_all
  qed
qed

lemma retry_reaches:
  assumes "led_call L live call" and "call L w = (res, w')"
  shows "dialer_ok d \<Longrightarrow> dlAddr d = L \<or> (\<exists>m < n. live_within m live d) \<Longrightarrow>
    \<exists>d'. retry_loop dial_all call n d w = (case res of Inl st \<Rightarrow> Inl (RpcError st) | Inr x \<Rightarrow> Inr x, d', w')
       \<and> dialer_ok d' \<and> dlAddr d' = L \<and> dlConn d' \<and> dlAddrs d' = dlAddrs d"
proof (induction n arbitrary: d)
  case 0
  then show ?case using assms(2) by (auto simp: Client_ok connected_ok split: sum.splits)
next
  case (Suc n)
  show ?case
  proof (cases "dlAddr d = L")
    case True
    have "recover_dialer dial_all st (d\<lparr>dlConn := True\<rparr>) = (False, d\<lparr>dlConn := True\<rparr>)" if "res = Inl st" for st
      using assms that by (intro recover_final) (auto simp: led_call_def)
    with True Suc.prems(1) assms(2) show ?thesis by (cases res) (auto simp: Client_ok connected_ok)
  next
    case False
    with Suc.prems obtain m where m: "m < Suc n" "live_within m live d" by blast
    obtain st d2 where "call (dlAddr d) w = (Inl st, w)"
      "recover_dialer dial_all st (d\<lparr>dlConn := True\<rparr>) = (True, d2)"
      "dialer_ok d2" "dlAddrs d2 = dlAddrs d" "dlAddr d2 = L \<or> (\<exists>m' < m. live_within m' live d2)"
      by (rule attempt_moves [OF assms(1) Suc.prems(1) False m(2)])
    moreover from this(5) m(1) have "dlAddr d2 = L \<or> (\<exists>m' < n. live_within m' live d2)" by fastforce
    ultimately show ?thesis using Suc.IH [of d2] Suc.prems(1) by (simp add: Client_ok)
  qed
qed

lemma register_reaches:
  assumes "led_call L live call" and "call L w = (Inr x, w')"
  shows "dialer_ok d \<Longrightarrow> dlAddr d = L \<or> (\<exists>m < n. live_within m live d) \<Longrightarrow>
    \<exists>d'. register_loop dial_all call canceled (Suc n) err d w = (Inr x, d', w')
       \<and> dialer_ok d' \<and> dlAddr d' = L \<and> dlConn d' \<and> dlAddrs d' = dlAddrs d"
proof (induction n arbitrary: d err)
  case 0
  then show ?case using assms(2) by (auto simp: Client_ok connected_ok)
next
  case (Suc n)
  show ?case
  proof (cases "dlAddr d = L")
    case True
    with Suc.prems(1) assms(2) show ?thesis by (auto simp: Client_ok connected_ok)
  next
    case False
    with Suc.prems obtain m where m: "m < Suc n" "live_within m live d" by blast
    obtain st d2 where a: "call (dlAddr d) w = (Inl st, w)"
      "recover_dialer dial_all st (d\<lparr>dlConn := True\<rparr>) = (True, d2)"
      "dialer_ok d2" "dlAddrs d2 = dlAddrs d" "dlAddr d2 = L \<or> (\<exists>m' < m. live_within m' live d2)"
      by (rule attempt_moves [OF assms(1) Suc.prems(1) False m(2)])
    moreover from this(5) m(1) have "dlAddr d2 = L \<or> (\<exists>m' < n. live_within m' live d2)" by fastforce
    ultimately show ?thesis using Suc.IH [of d2 "Some (RpcError st)"] Suc.prems(1)
      by (subst register_loop.simps) (simp add: Client_ok del: register_loop.simps)
  qed
qed

section \<open>The contract\<close>

text \<open>The RPC of a handler in a cluster: \<open>srvs a\<close> is the server at \<open>a\<close>; replicas that are not live do not answer.\<close>

definition cluster_call ::
  "('r server \<Rightarrow> 'q \<Rightarrow> 'w \<Rightarrow> (Status + 'a) \<times> 'w) \<Rightarrow> (string \<Rightarrow> 'r server) \<Rightarrow> (string \<Rightarrow> bool) \<Rightarrow> 'q
     \<Rightarrow> ('w, 'a) rpc_call" where
  "cluster_call handler srvs live req a w =
     (if live a then handler (srvs a) req w else (Inl (Status Unavailable ''connection refused''), w))"

text \<open>The leader is at \<open>L\<close>, and every live replica knows it.\<close>

definition led_by :: "string \<Rightarrow> (string \<Rightarrow> 'r server) \<Rightarrow> (string \<Rightarrow> bool) \<Rightarrow> bool" where
  "led_by L srvs live \<longleftrightarrow> plain_addr L \<and> live L \<and> gate_open (sv_leader (srvs L))
     \<and> (\<forall>a. live a \<and> a \<noteq> L \<longrightarrow> sv_leader (srvs a) = Some \<lparr>gIsLeader = False, gLeaderAddr = L\<rparr>)"

locale routed_rpc = leader_rpc handler
  for handler :: "'r server \<Rightarrow> 'q \<Rightarrow> 'r \<times> db \<Rightarrow> (Status + 'a) \<times> 'r \<times> db" +
  assumes leader_final: "gate_open (sv_leader srv) \<Longrightarrow> handler srv req (r, d) = (Inl st, r', d') \<Longrightarrow>
    ParseLeaderAddr (Some st) = None \<and> stCode st \<noteq> Unavailable"
begin

lemma led:
  assumes "led_by L srvs live"
  shows "led_call L live (cluster_call handler srvs live req)"
proof -
  from assms have L: "L \<noteq> []" "plain_addr L" "live L" "gate_open (sv_leader (srvs L))"
    by (auto simp: led_by_def plain_addr_def)
  have "ParseLeaderAddr (Some st) = None \<and> stCode st \<noteq> Unavailable"
    if "cluster_call handler srvs live req L w = (Inl st, w')" for w st w'
    using that L leader_final by (cases w; cases w') (auto simp: cluster_call_def)
  moreover have "cluster_call handler srvs live req a w
      = (Inl (Status FailedPrecondition (FormatNotLeaderError L)), w)" if "live a" "a \<noteq> L" for a w
    using that assms redirected [OF _ L(1)] by (cases w) (auto simp: cluster_call_def led_by_def)
  ultimately show ?thesis using L by (auto simp: led_call_def cluster_call_def)
qed

text \<open>Up to seven configured replicas, one of them live: the retries reach the leader.\<close>

lemma reaches_leader:
  assumes "led_by L srvs live" and "dialer_ok dl" and "length (dlAddrs dl) \<le> 7"
    and "dlAddr dl = L \<or> list_ex live (dlAddrs dl)"
    and "handler (srvs L) req w = (res, w')"
  shows "\<exists>dl'. withLeaderRetry dial_all (cluster_call handler srvs live req) dl w
      = (case res of Inl st \<Rightarrow> Inl (RpcError st) | Inr x \<Rightarrow> Inr x, dl', w')
    \<and> dialer_ok dl' \<and> dlAddr dl' = L \<and> dlConn dl' \<and> dlAddrs dl' = dlAddrs dl"
proof -
  have "cluster_call handler srvs live req L w = (res, w')"
    using assms by (simp add: cluster_call_def led_by_def)
  moreover have "dlAddr dl = L \<or> (\<exists>m < 8. live_within m live dl)"
    using assms(2,3,4) live_within_all [of dl _ live]
    by (auto simp: list_ex_iff intro!: exI [of _ "length (dlAddrs dl)"])
  ultimately show ?thesis
    unfolding withLeaderRetry_def by (intro retry_reaches [OF led [OF assms(1)] _ assms(2)])
qed

end

lemma stale_not_redirect:
  "ParseLeaderAddr (Some (Status FailedPrecondition
     ''stale task status report (epoch/node mismatch); fencing rejected update'')) = None"
  by (simp add: ParseLeaderAddr_def HasPrefix_def notLeaderPrefix_def)

lemma other_not_redirect: "c \<noteq> FailedPrecondition \<Longrightarrow> ParseLeaderAddr (Some (Status c m)) = None"
  by (simp add: ParseLeaderAddr_def)

lemma update_final:
  "applyTaskStatusUpdate env u d = (Some st, d') \<Longrightarrow> ParseLeaderAddr (Some st) = None \<and> stCode st \<noteq> Unavailable"
  by (auto simp: applyTaskStatusUpdate_def internal_def stale_not_redirect other_not_redirect
      split: if_splits option.splits prod.splits sum.splits store_error.splits)

lemma updates_final:
  "apply_updates env i us d = (Some st, d') \<Longrightarrow> ParseLeaderAddr (Some st) = None \<and> stCode st \<noteq> Unavailable"
  by (induction us arbitrary: i d) (auto split: prod.splits option.splits if_splits dest: update_final)

interpretation routed_report: routed_rpc rpc_ReportTaskStatus
proof (unfold_locales, goal_cases)
  case (1 srv req r d st r' d')
  then show ?case
    by (auto simp: rpc_ReportTaskStatus_def requireLeader_None [THEN iffD2] split: prod.splits option.splits
        dest: update_final)
qed

interpretation routed_register: routed_rpc rpc_RegisterNode
proof (unfold_locales, goal_cases)
  case (1 srv req r d st r' d')
  then show ?case
    by (auto simp: rpc_RegisterNode_def requireLeader_None [THEN iffD2] internal_def other_not_redirect
        split: prod.splits sum.splits if_splits cache_error.splits)
qed

interpretation routed_submit: routed_rpc rpc_SubmitJob
proof (unfold_locales, goal_cases)
  case (1 srv req r d st r' d')
  then show ?case
    by (auto simp: rpc_SubmitJob_def requireLeader_None [THEN iffD2] internal_def other_not_redirect Let_def
        split: prod.splits sum.splits if_splits)
qed

interpretation routed_heartbeat: routed_rpc rpc_Heartbeat
proof (unfold_locales, goal_cases)
  case (1 srv req r d st r' d')
  then show ?case
    by (auto simp: rpc_Heartbeat_def requireLeader_None [THEN iffD2] internal_def other_not_redirect
        split: prod.splits sum.splits if_splits cache_error.splits store_error.splits option.splits
        dest: updates_final)
qed

text \<open>
  C20: a worker's reports reach the leader. With up to seven distinct configured replicas, at least one of
  them live (or the dialer on the leader already), and a leader that all live replicas know, the report is
  applied by the leader exactly once, whatever mix of dead replicas and followers the dialer meets; the
  worker gets the leader's own answer and stays connected to it.
\<close>

theorem report_reaches_leader:
  assumes "led_by L srvs live" and "dialer_ok dl" and "length (dlAddrs dl) \<le> 7"
    and "dlAddr dl = L \<or> list_ex live (dlAddrs dl)"
    and "rpc_ReportTaskStatus (srvs L) u w = (res, w')"
  shows "\<exists>dl'. withLeaderRetry dial_all (cluster_call rpc_ReportTaskStatus srvs live u) dl w
      = (case res of Inl st \<Rightarrow> Inl (RpcError st) | Inr x \<Rightarrow> Inr x, dl', w')
    \<and> dialer_ok dl' \<and> dlAddr dl' = L \<and> dlConn dl' \<and> dlAddrs dl' = dlAddrs dl"
  by (rule routed_report.reaches_leader [OF assms])

definition three_replicas :: "string \<Rightarrow> (string \<Rightarrow> (string \<times> time) option) server" where
  "three_replicas a = sample_srv (if a = ''s3:7000'' then None
     else Some \<lparr>gIsLeader = False, gLeaderAddr = ''s3:7000''\<rparr>)"

definition fresh_dialer :: schedulerDialer where
  "fresh_dialer = \<lparr>dlAddrs = [''s1:7000'', ''s2:7000'', ''s3:7000''], dlIdx = 0, dlAddr = ''s1:7000'', dlConn = False\<rparr>"

lemma three_replicas_led: "led_by ''s3:7000'' three_replicas (\<lambda>a. a \<noteq> ''s1:7000'')"
  by (auto simp: led_by_def three_replicas_def sample_srv_def plain_addr_def is_space_def Contains_def)

theorem report_reaches_leader_witness:
  "\<exists>dl' st. withLeaderRetry dial_all (cluster_call rpc_ReportTaskStatus three_replicas (\<lambda>a. a \<noteq> ''s1:7000'') zombie_update)
      fresh_dialer (\<lambda>_. None, sample_db) = (Inl (RpcError st), dl', \<lambda>_. None, sample_db)
    \<and> dlAddr dl' = ''s3:7000'' \<and> stCode st = FailedPrecondition"
proof -
  have "\<exists>st. rpc_ReportTaskStatus (three_replicas ''s3:7000'') zombie_update (\<lambda>_. None, sample_db)
      = (Inl st, \<lambda>_. None, sample_db) \<and> stCode st = FailedPrecondition \<and> ParseLeaderAddr (Some st) = None"
    by (rule stale_report_answer [of _ _ _ task_running])
       (simp_all add: three_replicas_def sample_srv_def zombie_update_def report_status_def task_running_def task_row_def)
  then obtain st where st: "rpc_ReportTaskStatus (three_replicas ''s3:7000'') zombie_update (\<lambda>_. None, sample_db)
      = (Inl st, \<lambda>_. None, sample_db)" "stCode st = FailedPrecondition" by blast
  have "dialer_ok fresh_dialer" by (simp add: dialer_ok_def fresh_dialer_def)
  from report_reaches_leader [OF three_replicas_led this _ _ st(1)] st(2) show ?thesis
    by (auto simp: fresh_dialer_def)
qed

text \<open>
  A repeated address stops the rotation: the index goes back to its first position, and the addresses
  after the repetition are never tried.
\<close>

lemma repeated_address_blocks_rotation:
  "snd (recover_dialer dial_all (Status Unavailable m)
      \<lparr>dlAddrs = [''a'', ''a'', ''b''], dlIdx = 0, dlAddr = ''a'', dlConn = True\<rparr>)
   = \<lparr>dlAddrs = [''a'', ''a'', ''b''], dlIdx = 0, dlAddr = ''a'', dlConn = True\<rparr>"
  by (simp add: recover_dialer_def FollowRedirect_def ParseLeaderAddr_def RecoverFromUnavailable_def
      redialLocked_def)

end
