(* ===== verification/Executor.thy ===== *)
theory Executor
  imports Docker_Util Step_System "HOL-Library.Multiset"
begin

text \<open>
  \<^verbatim>\<open>src/internal/executor/executor.go\<close>: the worker's containers. A \<open>Start\<close> claims the task's slot under the
  mutex, creates and starts the container, and leaves a goroutine that waits for its exit; \<open>finish\<close> gives
  the slot back and calls the worker's \<open>onDone\<close>. The goroutines are explicit: \<open>xWaits\<close> holds the pending
  waits, and \<open>exec_step\<close> interleaves the atomic parts of any number of calls. The theorems: every accepted
  start yields exactly one result, and a container the executor has started is one that the scheduler's
  reaper finds.
\<close>

section \<open>State\<close>

record TaskSpec =
  esTaskID :: string
  esImage :: string
  esCommand :: "string list"
  esCPURequestMillicores :: int
  esMemRequestMB :: int

record Result =
  reTaskID :: string
  reRunID :: string
  reStatus :: string
  reExitCode :: int
  reError :: string

record wait =
  waContainerID :: string
  waTaskID :: string
  waRunID :: string

text \<open>\<open>xRunning\<close>: the tracked tasks, each with whether its \<open>cancel\<close> function has been called.\<close>

record Executor =
  xRunning :: "(string \<times> bool) list"
  xWaits :: "wait list"

definition New_Executor :: Executor where
  "New_Executor = \<lparr>xRunning = [], xWaits = []\<rparr>"

definition IsRunning :: "string \<Rightarrow> Executor \<Rightarrow> bool" where
  "IsRunning taskID x \<longleftrightarrow> taskID \<in> fst ` set (xRunning x)"

definition AllocatedResources :: "(string \<times> TaskSpec) list \<Rightarrow> Executor \<Rightarrow> int \<times> int" where
  "AllocatedResources specs x =
     fold (\<lambda>(i, _) (cpu, mem).
             case map_of specs i of
               Some spec \<Rightarrow> (i64 (cpu + esCPURequestMillicores spec), i64 (mem + esMemRequestMB spec))
             | None \<Rightarrow> (cpu, mem))
       (xRunning x) (0, 0)"

section \<open>Engine calls\<close>

definition hex_digit :: "nat \<Rightarrow> char" where
  "hex_digit n = ''0123456789abcdef'' ! n"

text \<open>\<open>b\<close> is what \<^verbatim>\<open>rand.Read\<close> filled in.\<close>

definition newRunID :: "bytes \<Rightarrow> string" where
  "newRunID b = concat (map (\<lambda>w. [hex_digit (unat w div 16), hex_digit (unat w mod 16)]) b)"

definition containerName :: "string \<Rightarrow> string" where
  "containerName taskID = ''arbiter-task-'' @ taskID"

text \<open>Every caller ignores the error of \<open>removeContainer\<close> and \<open>killContainer\<close>, so only their effect counts.\<close>

definition removeContainer :: "'k engine \<Rightarrow> string \<Rightarrow> 'k \<Rightarrow> 'k" where
  "removeContainer eng name k = snd (eng (RemoveReq name True) k)"

definition killContainer :: "'k engine \<Rightarrow> string \<Rightarrow> 'k \<Rightarrow> 'k" where
  "killContainer eng cid k = snd (eng (KillReq cid) k)"

definition task_body :: "TaskSpec \<Rightarrow> string \<Rightarrow> CreateBody" where
  "task_body spec runID =
     \<lparr>cbImage = esImage spec, cbHostname = [],
      cbEnv = [''ARBITER_TASK_ID='' @ esTaskID spec, ''ARBITER_RUN_ID='' @ runID],
      cbCmd = esCommand spec,
      cbLabels = [(''arbiter.task_id'', esTaskID spec), (''arbiter.run_id'', runID),
                  (''arbiter.managed'', ''true''),
                  (''arbiter.cpu_request_mc'', itoa (esCPURequestMillicores spec)),
                  (''arbiter.mem_request_mb'', itoa (esMemRequestMB spec))],
      cbBinds = [], cbRestartPolicy = [], cbAutoRemove = True, cbExtraHosts = [], cbNetwork = None\<rparr>"

definition createAndStart ::
  "'k engine \<Rightarrow> bytes \<Rightarrow> TaskSpec \<Rightarrow> 'k \<Rightarrow> (docker_error + string \<times> string) \<times> 'k" where
  "createAndStart eng b spec k =
     (let runID = newRunID b;
          name = containerName (esTaskID spec) @ ''-'' @ take 8 runID;
          create = CreateReq name (task_body spec runID)
      in case eng create (removeContainer eng name k) of
           (Inl e, k1) \<Rightarrow> (Inl e, k1)
         | (Inr resp1, k1) \<Rightarrow>
             (case (if drStatus resp1 = 409 then eng create (removeContainer eng name k1)
                    else (Inr resp1, k1)) of
                (Inl e, k2) \<Rightarrow> (Inl e, k2)
              | (Inr resp, k2) \<Rightarrow>
                  if 300 \<le> drStatus resp
                  then (Inl (DockerError (''docker create: status '' @ itoa (drStatus resp))), k2)
                  else
                    (case drBody resp of
                       CreatedBody cid \<Rightarrow>
                         if cid = [] then (Inl (DockerError ''docker create: invalid response''), k2)
                         else
                           (case eng (StartReq cid) k2 of
                              (Inl e, k3) \<Rightarrow> (Inl e, removeContainer eng cid k3)
                            | (Inr startResp, k3) \<Rightarrow>
                                if 300 \<le> drStatus startResp
                                then (Inl (DockerError (''docker start: status '' @ itoa (drStatus startResp))),
                                      removeContainer eng cid k3)
                                else (Inr (cid, runID), k3))
                     | _ \<Rightarrow> (Inl (DockerError ''docker create: invalid response''), k2))))"

text \<open>
  The Engine answers the wait when the container exits; \<open>canceled\<close> is whether the goroutine's context has
  been cancelled when the call returns an error. A body without a \<open>StatusCode\<close> reads as 0.
\<close>

definition waitForExit :: "'k engine \<Rightarrow> bool \<Rightarrow> string \<Rightarrow> string \<Rightarrow> string \<Rightarrow> 'k \<Rightarrow> Result \<times> 'k" where
  "waitForExit eng canceled cid taskID runID k =
     (let result = (\<lambda>st code err.
            \<lparr>reTaskID = taskID, reRunID = runID, reStatus = st, reExitCode = code, reError = err\<rparr>)
      in case eng (WaitReq cid) k of
           (Inl (DockerError e), k') \<Rightarrow>
             if canceled then (result ''failed'' 137 ''canceled'', killContainer eng cid k')
             else (result ''failed'' 1 e, k')
         | (Inr resp, k') \<Rightarrow>
             (let exit = i32 (case drBody resp of WaitBody n \<Rightarrow> n | _ \<Rightarrow> 0)
              in if exit \<noteq> 0 then (result ''failed'' exit (''exit code '' @ itoa exit), k')
                 else (result ''succeeded'' 0 [], k')))"

section \<open>Operations\<close>

text \<open>\<open>finish\<close>: the slot is given back; the result is what \<open>onDone\<close> is called with.\<close>

definition finish :: "string \<Rightarrow> Executor \<Rightarrow> Executor" where
  "finish taskID x = x\<lparr>xRunning := filter (\<lambda>p. fst p \<noteq> taskID) (xRunning x)\<rparr>"

text \<open>The part of \<open>Start\<close> under the mutex; \<open>None\<close> when the task is tracked already.\<close>

definition start_claim :: "TaskSpec \<Rightarrow> Executor \<Rightarrow> Executor option" where
  "start_claim spec x =
     (if IsRunning (esTaskID spec) x then None
      else Some (x\<lparr>xRunning := xRunning x @ [(esTaskID spec, False)]\<rparr>))"

text \<open>The rest of \<open>Start\<close>: the error returned, the result delivered to \<open>onDone\<close>, the new state.\<close>

definition start_run ::
  "'k engine \<Rightarrow> bytes \<Rightarrow> TaskSpec \<Rightarrow> Executor \<times> 'k \<Rightarrow> docker_error option \<times> Result option \<times> Executor \<times> 'k" where
  "start_run eng b spec = (\<lambda>(x, k).
     case createAndStart eng b spec k of
       (Inl (DockerError e), k') \<Rightarrow>
         (Some (DockerError e),
          Some \<lparr>reTaskID = esTaskID spec, reRunID = [], reStatus = ''failed'', reExitCode = 1, reError = e\<rparr>,
          finish (esTaskID spec) x, k')
     | (Inr (cid, runID), k') \<Rightarrow>
         (None, None,
          x\<lparr>xWaits := xWaits x @ [\<lparr>waContainerID = cid, waTaskID = esTaskID spec, waRunID = runID\<rparr>]\<rparr>, k'))"

definition Start ::
  "'k engine \<Rightarrow> bytes \<Rightarrow> TaskSpec \<Rightarrow> Executor \<times> 'k \<Rightarrow> docker_error option \<times> Result option \<times> Executor \<times> 'k" where
  "Start eng b spec = (\<lambda>(x, k).
     case start_claim spec x of
       None \<Rightarrow> (None, None, x, k)
     | Some x' \<Rightarrow> start_run eng b spec (x', k))"

text \<open>The goroutine that \<open>Start\<close> leaves behind, when its wait returns.\<close>

definition wait_done :: "'k engine \<Rightarrow> wait \<Rightarrow> Executor \<times> 'k \<Rightarrow> Result \<times> Executor \<times> 'k" where
  "wait_done eng w = (\<lambda>(x, k).
     case waitForExit eng ((waTaskID w, True) \<in> set (xRunning x)) (waContainerID w) (waTaskID w) (waRunID w) k of
       (res, k') \<Rightarrow> (res, finish (waTaskID w) (x\<lparr>xWaits := remove1 w (xWaits x)\<rparr>), k'))"

definition StopAll :: "'k engine \<Rightarrow> Executor \<times> 'k \<Rightarrow> Executor \<times> 'k" where
  "StopAll eng = (\<lambda>(x, k).
     (x\<lparr>xRunning := map (\<lambda>(i, _). (i, True)) (xRunning x)\<rparr>,
      fold (\<lambda>(i, _). removeContainer eng (containerName i)) (xRunning x) k))"

section \<open>Interleavings\<close>

text \<open>
  \<open>xsStarting\<close> are the \<open>Start\<close> calls between their claim and their return; \<open>xsAccepted\<close> and \<open>xsDone\<close> record
  the accepted starts and the results delivered.
\<close>

record 'k exec_state =
  xsExec :: Executor
  xsEngine :: 'k
  xsStarting :: "TaskSpec list"
  xsAccepted :: "string list"
  xsDone :: "Result list"

definition exec_init :: "'k exec_state \<Rightarrow> bool" where
  "exec_init s \<longleftrightarrow> xsExec s = New_Executor \<and> xsStarting s = [] \<and> xsAccepted s = [] \<and> xsDone s = []"

inductive exec_step :: "'k engine \<Rightarrow> 'k exec_state \<Rightarrow> 'k exec_state \<Rightarrow> bool" for eng where
  claim: "start_claim spec (xsExec s) = Some x \<Longrightarrow>
    exec_step eng s (s\<lparr>xsExec := x, xsStarting := spec # xsStarting s,
                       xsAccepted := esTaskID spec # xsAccepted s\<rparr>)"
| run: "spec \<in> set (xsStarting s) \<Longrightarrow>
    start_run eng b spec (xsExec s, xsEngine s) = (err, res, x, k) \<Longrightarrow>
    exec_step eng s (s\<lparr>xsExec := x, xsEngine := k, xsStarting := remove1 spec (xsStarting s),
                       xsDone := (case res of None \<Rightarrow> xsDone s | Some r \<Rightarrow> r # xsDone s)\<rparr>)"
| exited: "w \<in> set (xWaits (xsExec s)) \<Longrightarrow>
    wait_done eng w (xsExec s, xsEngine s) = (r, x, k) \<Longrightarrow>
    exec_step eng s (s\<lparr>xsExec := x, xsEngine := k, xsDone := r # xsDone s\<rparr>)"
| stop: "StopAll eng (xsExec s, xsEngine s) = (x, k) \<Longrightarrow>
    exec_step eng s (s\<lparr>xsExec := x, xsEngine := k\<rparr>)"
| elsewhere: "exec_step eng s (s\<lparr>xsEngine := k\<rparr>)"

definition exec_inv :: "'k exec_state \<Rightarrow> bool" where
  "exec_inv s \<longleftrightarrow>
     distinct (map fst (xRunning (xsExec s)))
     \<and> mset (map fst (xRunning (xsExec s)))
       = mset (map esTaskID (xsStarting s)) + mset (map waTaskID (xWaits (xsExec s)))
     \<and> mset (xsAccepted s) = mset (map reTaskID (xsDone s)) + mset (map fst (xRunning (xsExec s)))"

lemma mset_finish:
  assumes "distinct (map fst (xRunning x))" and "t \<in># mset (map fst (xRunning x))"
  shows "mset (map fst (xRunning (finish t x))) = mset (map fst (xRunning x)) - {#t#}"
    and "distinct (map fst (xRunning (finish t x)))"
proof -
  have "map fst (filter (\<lambda>p. fst p \<noteq> t) ps) = filter (\<lambda>i. i \<noteq> t) (map fst ps)" for ps :: "(string \<times> bool) list"
    by (induction ps) auto
  moreover have "filter (\<lambda>i. i \<noteq> t) (map fst (xRunning x)) = remove1 t (map fst (xRunning x))"
    using distinct_remove1_removeAll [OF assms(1), of t] by (simp add: removeAll_filter_not_eq eq_commute)
  ultimately have eq: "map fst (xRunning (finish t x)) = remove1 t (map fst (xRunning x))"
    by (simp add: finish_def)
  show "mset (map fst (xRunning (finish t x))) = mset (map fst (xRunning x)) - {#t#}"
    by (simp only: eq mset_remove1)
  show "distinct (map fst (xRunning (finish t x)))"
    by (simp only: eq assms(1) distinct_remove1)
qed

lemma mset_map_remove1: "x \<in> set xs \<Longrightarrow> mset (map f (remove1 x xs)) = mset (map f xs) - {#f x#}"
  by (induction xs) auto

lemma waitForExit_task: "waitForExit eng c cid t run k = (r, k') \<Longrightarrow> reTaskID r = t"
  by (auto simp: waitForExit_def Let_def split: sum.splits prod.splits docker_error.splits if_splits)

lemma finish_waits [simp]: "xWaits (finish t x) = xWaits x"
  by (simp add: finish_def)

text \<open>The three kinds of step that move a task: in, from starting to waiting, and out.\<close>

lemma inv_out:
  fixes A R S W D :: "string multiset"
  assumes "t \<in># S" and "R = S + W" and "A = D + R"
  shows "R - {#t#} = (S - {#t#}) + W" and "A = add_mset t D + (R - {#t#})"
  using assms by (auto simp: multiset_eq_iff)

lemma inv_move:
  fixes R S W :: "string multiset"
  assumes "t \<in># S" and "R = S + W"
  shows "R = (S - {#t#}) + (W + {#t#})"
  using assms by (auto simp: multiset_eq_iff)

lemma exec_inv_run:
  assumes "exec_inv s" and "spec \<in> set (xsStarting s)"
    and "start_run eng b spec (xsExec s, xsEngine s) = (err, res, x, k)"
  shows "exec_inv (s\<lparr>xsExec := x, xsEngine := k, xsStarting := remove1 spec (xsStarting s),
                     xsDone := (case res of None \<Rightarrow> xsDone s | Some r \<Rightarrow> r # xsDone s)\<rparr>)"
proof -
  let ?x = "xsExec s" and ?t = "esTaskID spec"
  have inv: "distinct (map fst (xRunning ?x))"
    "mset (map fst (xRunning ?x)) = mset (map esTaskID (xsStarting s)) + mset (map waTaskID (xWaits ?x))"
    "mset (xsAccepted s) = mset (map reTaskID (xsDone s)) + mset (map fst (xRunning ?x))"
    using assms(1) by (auto simp: exec_inv_def)
  have t: "?t \<in># mset (map esTaskID (xsStarting s))" using assms(2) by auto
  then have r: "?t \<in># mset (map fst (xRunning ?x))" using inv(2) by (metis union_iff)
  have left: "mset (map esTaskID (remove1 spec (xsStarting s))) = mset (map esTaskID (xsStarting s)) - {#?t#}"
    using assms(2) by (rule mset_map_remove1)
  show ?thesis
  proof (cases "createAndStart eng b spec (xsEngine s)")
    case (Pair o' k')
    show ?thesis
    proof (cases o')
      case (Inl e)
      with Pair assms(3) have x: "x = finish ?t ?x" "map_option reTaskID res = Some ?t"
        by (auto simp: start_run_def split: docker_error.splits)
      then obtain re where re: "res = Some re" "reTaskID re = ?t" by (cases res) auto
      show ?thesis unfolding exec_inv_def
        using mset_finish [OF inv(1) r] inv_out [OF t inv(2,3)] left by (simp add: x(1) re)
    next
      case (Inr c)
      obtain cid run where c: "c = (cid, run)" by (cases c)
      with Inr Pair assms(3) have x: "x = ?x\<lparr>xWaits := xWaits ?x @ [\<lparr>waContainerID = cid, waTaskID = ?t, waRunID = run\<rparr>]\<rparr>"
        "res = None" by (auto simp: start_run_def)
      show ?thesis unfolding exec_inv_def
        using inv inv_move [OF t inv(2)] left by (simp add: x)
    qed
  qed
qed

lemma exec_inv_exited:
  assumes "exec_inv s" and "w \<in> set (xWaits (xsExec s))"
    and "wait_done eng w (xsExec s, xsEngine s) = (r, x, k)"
  shows "exec_inv (s\<lparr>xsExec := x, xsEngine := k, xsDone := r # xsDone s\<rparr>)"
proof -
  let ?x = "xsExec s" and ?t = "waTaskID w"
  let ?y = "?x\<lparr>xWaits := remove1 w (xWaits ?x)\<rparr>"
  have inv: "distinct (map fst (xRunning ?x))"
    "mset (map fst (xRunning ?x)) = mset (map waTaskID (xWaits ?x)) + mset (map esTaskID (xsStarting s))"
    "mset (xsAccepted s) = mset (map reTaskID (xsDone s)) + mset (map fst (xRunning ?x))"
    using assms(1) by (auto simp: exec_inv_def)
  have t: "?t \<in># mset (map waTaskID (xWaits ?x))" using assms(2) by auto
  then have "?t \<in># mset (map fst (xRunning ?y))" using inv(2) by (simp del: set_mset_mset)
  note fin = mset_finish [OF _ this]
  have left: "mset (map waTaskID (remove1 w (xWaits ?x))) = mset (map waTaskID (xWaits ?x)) - {#?t#}"
    using assms(2) by (rule mset_map_remove1)
  from assms(3) have x: "x = finish ?t ?y" and r: "reTaskID r = ?t"
    by (auto simp: wait_done_def split: prod.splits dest: waitForExit_task)
  show ?thesis unfolding exec_inv_def
    using fin inv(1) inv_out [OF t inv(2,3)] left by (simp add: x r)
qed

interpretation executions: step_system exec_init "exec_step eng" exec_inv
  for eng :: "'k engine"
proof
  fix s :: "'k exec_state"
  assume "exec_init s"
  then show "exec_inv s" by (simp add: exec_init_def exec_inv_def New_Executor_def)
next
  fix s s' :: "'k exec_state"
  assume "exec_step eng s s'" and inv: "exec_inv s"
  then show "exec_inv s'"
  proof (cases rule: exec_step.cases)
    case (claim spec x)
    with inv show ?thesis
      by (auto simp: exec_inv_def start_claim_def IsRunning_def split: if_splits)
  next
    case (run spec b err res x k)
    with inv show ?thesis using exec_inv_run [OF inv] by simp
  next
    case (exited w r x k)
    with inv show ?thesis using exec_inv_exited [OF inv] by simp
  next
    case (stop x k)
    then have "map fst (xRunning x) = map fst (xRunning (xsExec s))" "xWaits x = xWaits (xsExec s)"
      by (auto simp: StopAll_def)
    with inv show ?thesis by (simp add: stop(1) exec_inv_def)
  next
    case (elsewhere k)
    with inv show ?thesis by (simp add: exec_inv_def)
  qed
qed

lemma length_filter_count: "length (filter (\<lambda>y. f y = t) ys) = count (mset (map f ys)) t"
  by (induction ys) auto

text \<open>
  C19: results are delivered exactly once. However concurrent starts, exits and stops interleave and
  whatever the Engine answers, for every task the accepted starts are as many as the delivered results,
  plus one while the task is tracked; at most one start or wait is in flight for it.
\<close>

theorem results_exactly_once:
  assumes "reachable_by exec_init (exec_step eng) s"
  shows "length (filter (\<lambda>i. i = t) (xsAccepted s))
      = length (filter (\<lambda>r. reTaskID r = t) (xsDone s)) + (if IsRunning t (xsExec s) then 1 else 0)
    \<and> length (filter (\<lambda>sp. esTaskID sp = t) (xsStarting s))
      + length (filter (\<lambda>w. waTaskID w = t) (xWaits (xsExec s))) = (if IsRunning t (xsExec s) then 1 else 0)"
proof -
  from executions.inv_reachable [OF assms] have inv: "exec_inv s" .
  from inv have "distinct (map fst (xRunning (xsExec s)))" by (simp add: exec_inv_def)
  then have "count (mset (map fst (xRunning (xsExec s)))) t
      = (if t \<in> set (map fst (xRunning (xsExec s))) then 1 else 0)"
    by (simp only: distinct_count_atmost_1)
  then have "count (mset (map fst (xRunning (xsExec s)))) t = (if IsRunning t (xsExec s) then 1 else 0)"
    by (simp only: IsRunning_def set_map)
  with inv show ?thesis
    by (simp add: exec_inv_def length_filter_count length_filter_count [where f = "\<lambda>i. i"] del: mset_map)
qed

section \<open>Containers\<close>

lemma createAndStart_law:
  assumes "engine_laws eng C"
  shows "\<exists>cid c k'. createAndStart eng b spec k = (Inr (cid, newRunID b), k') \<and> c \<in> set (C k') \<and> rcID c = cid
    \<and> rcLabels c = cbLabels (task_body spec (newRunID b))"
proof -
  let ?name = "containerName (esTaskID spec) @ ''-'' @ take 8 (newRunID b)"
  let ?body = "task_body spec (newRunID b)"
  define k0 where "k0 = removeContainer eng ?name k"
  have "\<exists>st b' k'. eng (RemoveReq ?name True) k = (Inr \<lparr>drStatus = st, drBody = b'\<rparr>, k')
      \<and> C k' = filter (\<lambda>c. \<not> refers_to ?name c) (C k)"
    using assms unfolding engine_laws_def by meson
  then have "\<not> list_ex (refers_to ?name) (C k0)" by (auto simp: k0_def removeContainer_def list_ex_iff)
  with assms obtain cid st k1 where k1: "eng (CreateReq ?name ?body) k0
      = (Inr \<lparr>drStatus = 201, drBody = CreatedBody cid\<rparr>, k1)" "cid \<noteq> []"
      "C k1 = C k0 @ [\<lparr>rcID = cid, rcNames = [CHR ''/'' # ?name], rcLabels = cbLabels ?body, rcState = st\<rparr>]"
    unfolding engine_laws_def by meson
  from assms obtain st' b' k2 where k2: "eng (StartReq cid) k1 = (Inr \<lparr>drStatus = st', drBody = b'\<rparr>, k2)" "st' < 300"
      "map (\<lambda>c. (rcID c, rcNames c, rcLabels c)) (C k2) = map (\<lambda>c. (rcID c, rcNames c, rcLabels c)) (C k1)"
    unfolding engine_laws_def by meson
  have "(cid, [CHR ''/'' # ?name], cbLabels ?body) \<in> set (map (\<lambda>c. (rcID c, rcNames c, rcLabels c)) (C k2))"
    unfolding k2(3) k1(3) by simp
  then obtain c where "c \<in> set (C k2)" "rcID c = cid" "rcLabels c = cbLabels ?body" by auto
  moreover have "createAndStart eng b spec k = (Inr (cid, newRunID b), k2)"
    using k1(1) [unfolded k0_def] k1(2) k2 by (simp add: createAndStart_def Let_def)
  ultimately show ?thesis by blast
qed

text \<open>
  The executor's containers are reapable. With an Engine that answers, \<open>Start\<close> of an untracked task
  succeeds and leaves a container that carries the task's label; a later \<open>KillTaskContainers\<close> for the task,
  by the failure detector on the same Engine, removes that container.
\<close>

theorem started_container_reapable:
  assumes "engine_laws eng C" and "\<not> IsRunning (esTaskID spec) x"
  shows "\<exists>w k1 k2. Start eng b spec (x, k)
      = (None, None, x\<lparr>xRunning := xRunning x @ [(esTaskID spec, False)], xWaits := xWaits x @ [w]\<rparr>, k1)
    \<and> waTaskID w = esTaskID spec
    \<and> list_ex (\<lambda>c. rcID c = waContainerID w \<and> map_of (rcLabels c) ''arbiter.task_id'' = Some (esTaskID spec)) (C k1)
    \<and> KillTaskContainers eng [esTaskID spec] k1 = (None, k2)
    \<and> \<not> list_ex (\<lambda>c. map_of (rcLabels c) ''arbiter.task_id'' = Some (esTaskID spec)) (C k2)"
proof -
  obtain cid c k1 where k1: "createAndStart eng b spec k = (Inr (cid, newRunID b), k1)" "c \<in> set (C k1)"
    "rcID c = cid" "rcLabels c = cbLabels (task_body spec (newRunID b))"
    using createAndStart_law [OF assms(1)] by blast
  let ?w = "\<lparr>waContainerID = cid, waTaskID = esTaskID spec, waRunID = newRunID b\<rparr>"
  obtain k2 where k2: "kill_loop eng None [esTaskID spec] k1 = (None, k2)"
    "\<forall>i \<in> set [esTaskID spec]. filter (has_labels [(''arbiter.task_id'', i)]) (C k2) = []"
    using kill_loop_law [OF assms(1)] by blast
  have "list_ex (\<lambda>c. rcID c = cid \<and> map_of (rcLabels c) ''arbiter.task_id'' = Some (esTaskID spec)) (C k1)"
    using k1 by (auto simp: list_ex_iff task_body_def)
  moreover have "\<not> list_ex (\<lambda>c. map_of (rcLabels c) ''arbiter.task_id'' = Some (esTaskID spec)) (C k2)"
    using k2(2) by (auto simp: list_ex_iff filter_empty_conv has_labels_def)
  moreover have "Start eng b spec (x, k)
      = (None, None, x\<lparr>xRunning := xRunning x @ [(esTaskID spec, False)], xWaits := xWaits x @ [?w]\<rparr>, k1)"
    using assms(2) k1(1) by (simp add: Start_def start_claim_def start_run_def)
  ultimately show ?thesis using k2(1) by (intro exI [of _ ?w] exI [of _ k1] exI [of _ k2]) (simp add: KillTaskContainers_def)
qed

definition task_t9 :: TaskSpec where
  "task_t9 = \<lparr>esTaskID = ''t9'', esImage = ''busybox'', esCommand = [''true''],
     esCPURequestMillicores = 100, esMemRequestMB = 64\<rparr>"

theorem started_container_reapable_witness:
  "\<exists>w k1 k2. Start list_engine [0, 1, 2, 3, 4, 5, 6, 7] task_t9 (New_Executor, (two_containers, 0))
      = (None, None, \<lparr>xRunning = [(''t9'', False)], xWaits = [w]\<rparr>, k1)
    \<and> list_ex (\<lambda>c. rcID c = waContainerID w) (fst k1)
    \<and> KillTaskContainers list_engine [''t9''] k1 = (None, k2)
    \<and> \<not> list_ex (\<lambda>c. map_of (rcLabels c) ''arbiter.task_id'' = Some ''t9'') (fst k2)"
proof -
  have "\<not> IsRunning (esTaskID task_t9) New_Executor" by (simp add: IsRunning_def New_Executor_def)
  from started_container_reapable [OF list_engine_laws this, of "[0, 1, 2, 3, 4, 5, 6, 7]" "(two_containers, 0)"]
  show ?thesis by (auto simp: New_Executor_def task_t9_def list_ex_iff)
qed

definition one_start :: "(RawContainer list \<times> nat) exec_state" where
  "one_start = \<lparr>xsExec = \<lparr>xRunning = [(''t9'', False)], xWaits = []\<rparr>, xsEngine = ([], 0),
     xsStarting = [task_t9], xsAccepted = [''t9''], xsDone = []\<rparr>"

theorem results_exactly_once_witness:
  "length (filter (\<lambda>i. i = ''t9'') (xsAccepted one_start))
     = length (filter (\<lambda>r. reTaskID r = ''t9'') (xsDone one_start)) + 1"
proof -
  define s :: "(RawContainer list \<times> nat) exec_state" where
    "s = \<lparr>xsExec = New_Executor, xsEngine = ([], 0), xsStarting = [], xsAccepted = [], xsDone = []\<rparr>"
  have "exec_step list_engine s (s\<lparr>xsExec := xsExec one_start, xsStarting := task_t9 # xsStarting s,
      xsAccepted := esTaskID task_t9 # xsAccepted s\<rparr>)"
    by (rule exec_step.claim)
       (simp add: s_def start_claim_def IsRunning_def New_Executor_def one_start_def task_t9_def)
  then have "exec_step list_engine s one_start" by (simp add: s_def one_start_def task_t9_def)
  moreover have "exec_init s" by (simp add: s_def exec_init_def)
  ultimately have "reachable_by exec_init (exec_step list_engine) one_start"
    by (auto simp: reachable_by_def)
  from results_exactly_once [OF this, of "''t9''"] show ?thesis by (simp add: one_start_def IsRunning_def)
qed

text \<open>
  \<open>StopAll\<close> removes \<open>containerName\<close> of each task, but the containers are named with a suffix taken from the
  run id: the container survives the removal, and is killed only when the cancelled wait returns.
\<close>

lemma StopAll_misses_container:
  "\<exists>x k. Start list_engine [0, 1, 2, 3, 4, 5, 6, 7] task_t9 (New_Executor, ([], 0)) = (None, None, x, k)
    \<and> fst k \<noteq> [] \<and> fst (snd (StopAll list_engine (x, k))) = fst k"
  by (simp add: Start_def start_claim_def start_run_def New_Executor_def IsRunning_def task_t9_def createAndStart_def
      removeContainer_def newRunID_def hex_digit_def containerName_def task_body_def refers_to_def itoa_def
      nat_digits.simps StopAll_def Let_def)

text \<open>
  \<open>waitForExit\<close> does not look at the status of the response: when the container has been removed before
  the wait arrives (it exited at once, and the Engine removes exited containers), the Engine answers 404
  and the task is reported as succeeded whatever its exit code was.
\<close>

lemma vanished_container_succeeds:
  "\<exists>r. waitForExit list_engine False ''c0'' ''t9'' ''r'' ([], 0) = (r, [], 0) \<and> reStatus r = ''succeeded''"
  by (simp add: waitForExit_def i32_def)

text \<open>
  \<^verbatim>\<open>doJSON\<close> cancels the request's context when it returns, so the body of the answer may be lost before it is read.
  A container that was created is then reported as a failed start and left behind: it is neither started nor removed.
\<close>

lemma lost_body_leaks_container:
  assumes "eng (CreateReq (containerName (esTaskID spec) @ ''-'' @ take 8 (newRunID b)) (task_body spec (newRunID b)))
      (removeContainer eng (containerName (esTaskID spec) @ ''-'' @ take 8 (newRunID b)) k)
      = (Inr \<lparr>drStatus = 201, drBody = Undecodable\<rparr>, k1)"
  shows "start_run eng b spec (x, k)
    = (Some (DockerError ''docker create: invalid response''),
       Some \<lparr>reTaskID = esTaskID spec, reRunID = [], reStatus = ''failed'', reExitCode = 1,
             reError = ''docker create: invalid response''\<rparr>,
       finish (esTaskID spec) x, k1)"
  using assms by (simp add: start_run_def createAndStart_def Let_def)

end
