(* ===== verification/Worker.thy ===== *)
theory Worker
  imports Dialer Executor
begin

text \<open>
  The worker process, \<^verbatim>\<open>src/cmd/worker/main.go\<close>: its flags, its agent with the handlers of
  assignments and finished tasks, and one turn of the heartbeat loop. \<open>rpcs\<close> are the RPCs to the
  replica at an address; they become those of the model's own handlers in the theorems. The handlers
  run to completion one at a time here; the executor's concurrency is the subject of \<open>Executor\<close>.
\<close>

section \<open>Flags\<close>

fun parse_parts :: "string list \<Rightarrow> strmap \<Rightarrow> string + strmap" where
  "parse_parts [] out = Inr out"
| "parse_parts (p # ps) out =
     (let part = TrimSpace p in
      if part = [] then parse_parts ps out
      else (case Cut CHR ''='' part of
              (key, val, ok) \<Rightarrow>
                if \<not> ok \<or> key = []
                then Inl (''invalid label '' @ quoted part @ '' (want key=value)'')
                else parse_parts ps (mput key val out)))"

definition parseLabels :: "string \<Rightarrow> string + strmap" where
  "parseLabels raw = (if raw = [] then Inr [] else parse_parts (Split CHR '','' raw) [])"

definition parseAddrList :: "string \<Rightarrow> string list" where
  "parseAddrList raw = filter (\<lambda>p. p \<noteq> []) (map TrimSpace (Split CHR '','' raw))"

definition containsAddr :: "string list \<Rightarrow> string \<Rightarrow> bool" where
  "containsAddr addrs addr = list_ex (\<lambda>a. a = addr) addrs"

text \<open>The replicas \<open>main\<close> hands to the dialer.\<close>

definition scheduler_addrs :: "string \<Rightarrow> string \<Rightarrow> string list" where
  "scheduler_addrs schedulerAddr schedulerAddrs =
     (let addrs = parseAddrList schedulerAddrs in
      if addrs = [] then [schedulerAddr]
      else if \<not> containsAddr addrs schedulerAddr then schedulerAddr # addrs
      else addrs)"

section \<open>The agent\<close>

record 'w rpcs =
  cRegister :: "RegisterNodeRequest \<Rightarrow> ('w, RegisterNodeResponse) rpc_call"
  cHeartbeat :: "HeartbeatRequest \<Rightarrow> ('w, HeartbeatResponse) rpc_call"
  cReport :: "TaskStatusUpdate \<Rightarrow> ('w, unit) rpc_call"

text \<open>\<open>agRunningGauge\<close> and \<open>agObserved\<close>: the two metrics the agent keeps.\<close>

record workerAgent =
  agDialer :: schedulerDialer
  agExec :: Executor
  agSpecs :: "(string \<times> TaskSpec) list"
  agNodeID :: string
  agEpoch :: int
  agRunningGauge :: int
  agObserved :: "string list"

definition setIdentity :: "string \<Rightarrow> int \<Rightarrow> workerAgent \<Rightarrow> workerAgent" where
  "setIdentity nodeID epoch a = a\<lparr>agNodeID := nodeID, agEpoch := epoch\<rparr>"

definition send_report ::
  "'w rpcs \<Rightarrow> (string \<Rightarrow> string option) \<Rightarrow> TaskStatusUpdate \<Rightarrow> workerAgent \<times> 'w \<Rightarrow> workerAgent \<times> 'w" where
  "send_report rpcs dial u = (\<lambda>(a, w).
     case withLeaderRetry dial (cReport rpcs u) (agDialer a) w of
       (_, dl, w') \<Rightarrow> (a\<lparr>agDialer := dl\<rparr>, w'))"

definition handleTaskDone ::
  "'w rpcs \<Rightarrow> (string \<Rightarrow> string option) \<Rightarrow> Result \<Rightarrow> workerAgent \<times> 'w \<Rightarrow> workerAgent \<times> 'w" where
  "handleTaskDone rpcs dial result = (\<lambda>(a, w).
     send_report rpcs dial
       \<lparr>tsTaskId = reTaskID result, tsStatus = reStatus result, tsExitCode = reExitCode result,
        tsError = reError result, tsNodeId = agNodeID a, tsEpoch = agEpoch a\<rparr>
       (a\<lparr>agSpecs := mdelete (reTaskID result) (agSpecs a), agRunningGauge := agRunningGauge a - 1,
          agObserved := agObserved a @ [reStatus result]\<rparr>, w))"

definition assignment_spec :: "TaskAssignment \<Rightarrow> TaskSpec" where
  "assignment_spec t =
     \<lparr>esTaskID = taTaskId t, esImage = taImage t, esCommand = taCommand t,
      esCPURequestMillicores = nrCpuMillicores (taRequest t), esMemRequestMB = nrMemoryMb (taRequest t)\<rparr>"

text \<open>The loop of \<open>handleAssignments\<close>; the list is the \<open>startAssignedTask\<close> goroutines it spawns, in order.\<close>

fun assign_loop :: "int \<Rightarrow> TaskAssignment list \<Rightarrow> workerAgent \<Rightarrow> TaskSpec list \<times> workerAgent" where
  "assign_loop epoch [] a = ([], a)"
| "assign_loop epoch (t # ts) a =
     (if IsRunning (taTaskId t) (agExec a) then assign_loop epoch ts a
      else if taAssignedEpoch t \<noteq> epoch then assign_loop epoch ts a
      else
        (let spec = assignment_spec t in
         if esTaskID spec \<in> fst ` set (agSpecs a) then assign_loop epoch ts a
         else (case assign_loop epoch ts (a\<lparr>agSpecs := mput (esTaskID spec) spec (agSpecs a)\<rparr>) of
                 (launched, a') \<Rightarrow> (spec # launched, a'))))"

definition handleAssignments :: "TaskAssignment list \<Rightarrow> workerAgent \<Rightarrow> TaskSpec list \<times> workerAgent" where
  "handleAssignments assignments a = assign_loop (agEpoch a) assignments a"

definition startAssignedTask ::
  "'w rpcs \<Rightarrow> (string \<Rightarrow> string option) \<Rightarrow> 'k engine \<Rightarrow> bytes \<Rightarrow> TaskSpec \<Rightarrow> workerAgent \<times> 'k \<times> 'w
     \<Rightarrow> workerAgent \<times> 'k \<times> 'w" where
  "startAssignedTask rpcs dial eng b spec = (\<lambda>(a, k, w).
     case send_report rpcs dial
            \<lparr>tsTaskId = esTaskID spec, tsStatus = ''running'', tsExitCode = 0, tsError = [],
             tsNodeId = agNodeID a, tsEpoch = agEpoch a\<rparr> (a, w) of
       (a1, w1) \<Rightarrow>
         (case Start eng b spec (agExec a1, k) of
            (err, res, x, k') \<Rightarrow>
              (case (case res of
                       None \<Rightarrow> (a1\<lparr>agExec := x\<rparr>, w1)
                     | Some r \<Rightarrow> handleTaskDone rpcs dial r (a1\<lparr>agExec := x\<rparr>, w1)) of
                 (a2, w2) \<Rightarrow>
                   if err \<noteq> None
                   then (a2\<lparr>agSpecs := mdelete (esTaskID spec) (agSpecs a2),
                            agObserved := agObserved a2 @ [''failed'']\<rparr>, k', w2)
                   else (a2\<lparr>agRunningGauge := agRunningGauge a2 + 1\<rparr>, k', w2))))"

text \<open>The goroutine the executor leaves behind, when its container has exited.\<close>

definition task_exited ::
  "'w rpcs \<Rightarrow> (string \<Rightarrow> string option) \<Rightarrow> 'k engine \<Rightarrow> wait \<Rightarrow> workerAgent \<times> 'k \<times> 'w \<Rightarrow> workerAgent \<times> 'k \<times> 'w" where
  "task_exited rpcs dial eng wt = (\<lambda>(a, k, w).
     case wait_done eng wt (agExec a, k) of
       (r, x, k') \<Rightarrow>
         (case handleTaskDone rpcs dial r (a\<lparr>agExec := x\<rparr>, w) of (a', w') \<Rightarrow> (a', k', w')))"

text \<open>One tick of \<open>runHeartbeatLoop\<close>; the list is the goroutines it spawns.\<close>

definition heartbeat_turn ::
  "'w rpcs \<Rightarrow> (string \<Rightarrow> string option) \<Rightarrow> 'k engine \<Rightarrow> (nat \<Rightarrow> bool) \<Rightarrow> RegisterNodeRequest
     \<Rightarrow> workerAgent \<times> 'k \<times> 'w \<Rightarrow> TaskSpec list \<times> workerAgent \<times> 'k \<times> 'w" where
  "heartbeat_turn rpcs dial eng canceled registerReq = (\<lambda>(a, k, w).
     case AllocatedResources (agSpecs a) (agExec a) of
       (cpu, mem) \<Rightarrow>
         (case withLeaderRetry dial
                 (cHeartbeat rpcs
                    \<lparr>hbNodeId = agNodeID a, hbEpoch = agEpoch a,
                     hbAllocated = \<lparr>nrCpuMillicores = cpu, nrMemoryMb = mem\<rparr>, hbTaskUpdates = []\<rparr>)
                 (agDialer a) w of
            (Inl _, dl, w1) \<Rightarrow> ([], a\<lparr>agDialer := dl\<rparr>, k, w1)
          | (Inr resp, dl, w1) \<Rightarrow>
              if hrEpochInvalid resp
              then
                (case StopAll eng (agExec a, k) of
                   (x, k1) \<Rightarrow>
                     (case registerWithRetry dial (cRegister rpcs registerReq) canceled dl w1 of
                        (Inl _, dl2, w2) \<Rightarrow>
                          ([], a\<lparr>agExec := x, agSpecs := [], agDialer := dl2\<rparr>, k1, w2)
                      | (Inr r, dl2, w2) \<Rightarrow>
                          ([], setIdentity (rrNodeId r) (rrEpoch r)
                                 (a\<lparr>agExec := x, agSpecs := [], agDialer := dl2\<rparr>), k1, w2)))
              else
                (case handleAssignments (hrNewAssignments resp) (a\<lparr>agDialer := dl\<rparr>) of
                   (launched, a2) \<Rightarrow> (launched, a2, k, w1))))"

section \<open>Flags: properties\<close>

text \<open>Labels the flag syntax can carry.\<close>

definition label_text :: "string \<times> string \<Rightarrow> string" where
  "label_text kv = fst kv @ CHR ''='' # snd kv"

definition plain_label :: "string \<times> string \<Rightarrow> bool" where
  "plain_label kv \<longleftrightarrow> fst kv \<noteq> [] \<and> CHR '','' \<notin> set (fst kv) \<and> CHR ''='' \<notin> set (fst kv) \<and> CHR '','' \<notin> set (snd kv)
     \<and> \<not> is_space (hd (fst kv)) \<and> \<not> is_space (last (CHR ''='' # snd kv))"

lemma parse_labels_parts:
  "list_all plain_label kvs \<Longrightarrow> distinct (map fst kvs) \<Longrightarrow>
     \<exists>m. parse_parts (map label_text kvs) out = Inr m \<and> map_of m = map_of out ++ map_of kvs"
proof (induction kvs arbitrary: out)
  case (Cons kv kvs)
  from Cons.prems have kv: "plain_label kv" by simp
  then have trim: "TrimSpace (label_text kv) = label_text kv"
    by (intro TrimSpace_id) (auto simp: plain_label_def label_text_def)
  have cut: "Cut CHR ''='' (label_text kv) = (fst kv, snd kv, True)"
    using kv by (simp add: plain_label_def label_text_def Cut_append)
  obtain m where m: "parse_parts (map label_text kvs) (mput (fst kv) (snd kv) out) = Inr m"
    "map_of m = map_of (mput (fst kv) (snd kv) out) ++ map_of kvs" using Cons by fastforce
  have "(map_of out)(fst kv \<mapsto> snd kv) ++ map_of kvs = map_of out ++ map_of (kv # kvs)"
    using Cons.prems(2) by (auto simp: map_add_def fun_eq_iff split: option.splits dest!: map_of_SomeD)
      (metis image_eqI fst_conv)
  moreover have "label_text kv \<noteq> []" "fst kv \<noteq> []" using kv by (auto simp: label_text_def plain_label_def)
  ultimately have "parse_parts (map label_text (kv # kvs)) out = Inr m"
    "map_of m = map_of out ++ map_of (kv # kvs)" using m by (simp_all only: list.map parse_parts.simps trim cut
      Let_def prod.case if_False not_True_eq_False map_of_mput simp_thms)
  then show ?case by blast
qed simp

text \<open>
  The labels flag. Labels with plain keys and values, printed as \<open>key=value\<close> pairs joined by commas, are
  parsed back to the same map.
\<close>

theorem parseLabels_roundtrip:
  assumes "list_all plain_label kvs" and "distinct (map fst kvs)"
  shows "\<exists>m. parseLabels (Join CHR '','' (map label_text kvs)) = Inr m \<and> map_of m = map_of kvs"
proof (cases "kvs = []")
  case False
  have "list_all (\<lambda>p. CHR '','' \<notin> set p) (map label_text kvs)"
    using assms(1) by (auto simp: list_all_iff plain_label_def label_text_def)
  then have split: "Split CHR '','' (Join CHR '','' (map label_text kvs)) = map label_text kvs"
    using False by (intro Split_Join) auto
  then have "Join CHR '','' (map label_text kvs) \<noteq> []"
    using False assms(1) by (cases kvs) (auto simp: label_text_def)
  with parse_labels_parts [OF assms, of "[]"] split show ?thesis by (simp add: parseLabels_def)
qed (simp add: parseLabels_def)

theorem parseLabels_roundtrip_witness:
  "\<exists>m. parseLabels ''zone=a,gpu=true'' = Inr m \<and> map_of m = map_of [(''zone'', ''a''), (''gpu'', ''true'')]"
proof -
  have "list_all plain_label [(''zone'', ''a''), (''gpu'', ''true'')]" by (simp add: plain_label_def is_space_def)
  from parseLabels_roundtrip [OF this] show ?thesis by (simp add: label_text_def)
qed

section \<open>Assignments\<close>

text \<open>The tasks the agent must start: assigned under its epoch and not tracked yet.\<close>

definition wanted :: "int \<Rightarrow> workerAgent \<Rightarrow> TaskAssignment list \<Rightarrow> string set" where
  "wanted e a ts = {taTaskId t | t. t \<in> set ts \<and> taAssignedEpoch t = e
     \<and> \<not> IsRunning (taTaskId t) (agExec a) \<and> taTaskId t \<notin> fst ` set (agSpecs a)}"

lemma wanted_skip:
  "IsRunning (taTaskId t) (agExec a) \<or> taAssignedEpoch t \<noteq> e \<or> taTaskId t \<in> fst ` set (agSpecs a) \<Longrightarrow>
     wanted e a (t # ts) = wanted e a ts"
  unfolding wanted_def by (rule Collect_cong) (metis set_ConsD list.set_intros(2))

lemma wanted_take:
  assumes "\<not> IsRunning (taTaskId t) (agExec a)" and "taAssignedEpoch t = e" and "taTaskId t \<notin> fst ` set (agSpecs a)"
  shows "wanted e a (t # ts)
    = insert (taTaskId t) (wanted e (a\<lparr>agSpecs := mput (taTaskId t) sp (agSpecs a)\<rparr>) ts)"
proof (intro set_eqI iffI)
  fix x
  assume "x \<in> wanted e a (t # ts)"
  then show "x \<in> insert (taTaskId t) (wanted e (a\<lparr>agSpecs := mput (taTaskId t) sp (agSpecs a)\<rparr>) ts)"
    by (auto simp: wanted_def)
next
  fix x
  assume "x \<in> insert (taTaskId t) (wanted e (a\<lparr>agSpecs := mput (taTaskId t) sp (agSpecs a)\<rparr>) ts)"
  then show "x \<in> wanted e a (t # ts)" using assms by (auto simp: wanted_def)
qed

lemma wanted_fresh: "wanted e a ts \<inter> fst ` set (agSpecs a) = {}"
  unfolding wanted_def by blast

lemma assign_loop_effect:
  "assign_loop e ts a = (ls, a') \<Longrightarrow> agExec a' = agExec a \<and> agEpoch a' = agEpoch a
     \<and> fst ` set (agSpecs a') = fst ` set (agSpecs a) \<union> wanted e a ts
     \<and> distinct (map esTaskID ls) \<and> esTaskID ` set ls = wanted e a ts"
proof (induction ts arbitrary: a ls)
  case (Cons t ts)
  show ?case
  proof (cases "IsRunning (taTaskId t) (agExec a) \<or> taAssignedEpoch t \<noteq> e \<or> taTaskId t \<in> fst ` set (agSpecs a)")
    case True
    then have "assign_loop e ts a = (ls, a')" using Cons.prems
      by (auto simp: assignment_spec_def Let_def split: if_splits)
    from Cons.IH [OF this] show ?thesis by (simp add: wanted_skip [OF True])
  next
    case False
    let ?b = "a\<lparr>agSpecs := mput (taTaskId t) (assignment_spec t) (agSpecs a)\<rparr>"
    have id: "esTaskID (assignment_spec t) = taTaskId t" by (simp add: assignment_spec_def)
    from False Cons.prems obtain ls' where ls: "assign_loop e ts ?b = (ls', a')" "ls = assignment_spec t # ls'"
      by (auto simp: Let_def id split: prod.splits)
    have w: "wanted e a (t # ts) = insert (taTaskId t) (wanted e ?b ts)"
      using False by (intro wanted_take) auto
    from Cons.IH [OF ls(1)] wanted_fresh [of e ?b ts] show ?thesis
      by (auto simp: w ls(2) id)
  qed
qed (simp add: wanted_def)

lemma assign_loop_idle: "wanted e a ts = {} \<Longrightarrow> assign_loop e ts a = ([], a)"
  by (induction ts) (auto simp: wanted_def Let_def assignment_spec_def)

text \<open>
  Assignments are started once. Of the assignments a heartbeat returns, the agent starts exactly those
  made under its own epoch for tasks it does not track, each task once however often it is listed; it
  tracks them from then on, so handling the same assignments again starts nothing.
\<close>

theorem assignments_started_once:
  assumes "handleAssignments ts a = (launched, a')"
  shows "distinct (map esTaskID launched)
    \<and> set (map esTaskID launched) = {taTaskId t | t. t \<in> set ts \<and> taAssignedEpoch t = agEpoch a
         \<and> \<not> IsRunning (taTaskId t) (agExec a) \<and> taTaskId t \<notin> fst ` set (agSpecs a)}
    \<and> handleAssignments ts a' = ([], a')"
proof -
  note eff = assign_loop_effect [OF assms [unfolded handleAssignments_def]]
  have "wanted (agEpoch a) a' ts = {}" using eff by (auto simp: wanted_def)
  from assign_loop_idle [OF this] eff show ?thesis by (simp add: handleAssignments_def wanted_def)
qed

definition idle_agent :: workerAgent where
  "idle_agent = \<lparr>agDialer = fresh_dialer, agExec = New_Executor, agSpecs = [], agNodeID = ''n2'', agEpoch = 1,
     agRunningGauge = 0, agObserved = []\<rparr>"

definition assign_t2 :: TaskAssignment where
  "assign_t2 = \<lparr>taTaskId = ''t2'', taImage = ''nginx'', taCommand = [],
     taRequest = \<lparr>nrCpuMillicores = 500, nrMemoryMb = 256\<rparr>, taAssignedEpoch = 1\<rparr>"

theorem assignments_started_once_witness:
  "\<exists>a'. handleAssignments [assign_t2, assign_t2\<lparr>taTaskId := ''t9'', taAssignedEpoch := 0\<rparr>, assign_t2] idle_agent
       = ([assignment_spec assign_t2], a')
     \<and> handleAssignments [assign_t2, assign_t2\<lparr>taTaskId := ''t9'', taAssignedEpoch := 0\<rparr>, assign_t2] a' = ([], a')"
proof -
  let ?ts = "[assign_t2, assign_t2\<lparr>taTaskId := ''t9'', taAssignedEpoch := 0\<rparr>, assign_t2]"
  obtain a' where a': "handleAssignments ?ts idle_agent = ([assignment_spec assign_t2], a')"
    by (simp add: handleAssignments_def idle_agent_def assign_t2_def assignment_spec_def IsRunning_def
        New_Executor_def mput_def Let_def)
  from assignments_started_once [OF a'] a' show ?thesis by blast
qed

end
