(* ===== verification/Worker_Props.thy ===== *)
theory Worker_Props
  imports Worker
begin

text \<open>
  Properties of a worker against the model's own schedulers: its RPCs are those of the gRPC handlers at
  the replicas' addresses, all working on the same database and Redis. A worker whose epoch is stale
  re-registers and continues under the new one; an assigned task is recorded as running and has a
  container.
\<close>

definition cluster_rpcs :: "(string \<Rightarrow> 'r server) \<Rightarrow> (string \<Rightarrow> bool) \<Rightarrow> ('r \<times> db) rpcs" where
  "cluster_rpcs srvs live =
     \<lparr>cRegister = cluster_call rpc_RegisterNode srvs live,
      cHeartbeat = cluster_call rpc_Heartbeat srvs live,
      cReport = cluster_call rpc_ReportTaskStatus srvs live\<rparr>"

text \<open>The agent can reach the leader at \<open>L\<close>, which has a healthy database and Redis.\<close>

definition well_connected ::
  "string \<Rightarrow> (string \<Rightarrow> 'r server) \<Rightarrow> (string \<Rightarrow> bool) \<Rightarrow> schedulerDialer \<Rightarrow> bool" where
  "well_connected L srvs live dl \<longleftrightarrow> led_by L srvs live \<and> dialer_ok dl \<and> length (dlAddrs dl) \<le> 7
     \<and> (dlAddr dl = L \<or> list_ex live (dlAddrs dl)) \<and> healthy (sv_env (srvs L) 0)
     \<and> \<not> ce_fault (sv_cache (srvs L)) ''cache: set last seen''"

lemma well_connectedD:
  assumes "well_connected L srvs live dl"
  shows "led_by L srvs live" "dialer_ok dl" "length (dlAddrs dl) \<le> 7"
    "dlAddr dl = L \<or> list_ex live (dlAddrs dl)" "healthy (sv_env (srvs L) 0)"
    "\<not> ce_fault (sv_cache (srvs L)) ''cache: set last seen''" "gate_open (sv_leader (srvs L))" "live L"
  using assms by (auto simp: well_connected_def led_by_def)

lemma well_connected_at_leader:
  "well_connected L srvs live dl \<Longrightarrow> dialer_ok dl' \<Longrightarrow> dlAddr dl' = L \<Longrightarrow> dlAddrs dl' = dlAddrs dl \<Longrightarrow>
     well_connected L srvs live dl'"
  by (simp add: well_connected_def)

section \<open>Rejoining\<close>

lemma host_unique:
  assumes "db_inv d" and "n \<in> set (db_nodes d)" and "rHostname p = nHostname n" and "rAddress p = nAddress n"
  shows "find (same_host p) (db_nodes d) = Some n"
proof -
  have "distinct (map host_key (db_nodes d))" using db_inv_rows [OF assms(1)] by (simp add: rows_ok_def)
  moreover have "same_host p = (\<lambda>m. host_key m = host_key n)"
    using assms(3,4) by (auto simp: same_host_def host_key_def fun_eq_iff)
  ultimately show ?thesis using assms(2) by (simp add: find_key_SomeI)
qed

definition valid_register :: "RegisterNodeRequest \<Rightarrow> bool" where
  "valid_register req \<longleftrightarrow> rnHostname req \<noteq> [] \<and> rnAddress req \<noteq> []
     \<and> 0 < GetCpuMillicores (rnCapacity req) \<and> in_i64 (GetCpuMillicores (rnCapacity req))
     \<and> 0 < GetMemoryMb (rnCapacity req) \<and> in_i64 (GetMemoryMb (rnCapacity req))"

lemma rpc_register_again:
  assumes "db_inv d" and "healthy (sv_env srv 0)" and "gate_open (sv_leader srv)"
    and "\<not> ce_fault (sv_cache srv) ''cache: set last seen''" and "valid_register req"
    and "n \<in> set (db_nodes d)" and "rnHostname req = nHostname n" and "rnAddress req = nAddress n"
  shows "\<exists>resp r' d'. rpc_RegisterNode srv req (r, d) = (Inr resp, r', d') \<and> rrNodeId resp = nID n
    \<and> rrEpoch resp = nEpoch n + 1 \<and> db_tasks d' = db_tasks d
    \<and> (\<exists>m \<in> set (db_nodes d'). nID m = nID n \<and> nEpoch m = nEpoch n + 1 \<and> nStatus m = NodeStatusReady)"
proof -
  let ?p = "\<lparr>rHostname = rnHostname req, rAddress = rnAddress req,
             rCPUCapacityMillicores = GetCpuMillicores (rnCapacity req),
             rMemCapacityMB = GetMemoryMb (rnCapacity req), rLabels = rnLabels req\<rparr>"
  have "find (same_host ?p) (db_nodes d) = Some n" by (rule host_unique [OF assms(1,6)]) (simp_all add: assms)
  then obtain m d' where "RegisterNode (sv_env srv 0) ?p d = (Inr m, d')" "nID m = nID n" "nEpoch m = nEpoch n + 1"
    "nStatus m = NodeStatusReady" "m \<in> set (db_nodes d')" "db_tasks d' = db_tasks d"
    using RegisterNode_again [OF assms(2), of ?p d n] assms(5) by (auto simp: valid_register_def)
  then show ?thesis using assms(3-5)
    by (auto simp: rpc_RegisterNode_def requireLeader_None [THEN iffD2] valid_register_def SetLastSeen_def
        SetLastSeenAt_def)
qed

lemma register_reaches_leader:
  assumes "well_connected L srvs live dl" and "rpc_RegisterNode (srvs L) req w = (Inr resp, w')"
  shows "\<exists>dl'. registerWithRetry dial_all (cluster_call rpc_RegisterNode srvs live req) canceled dl w
      = (Inr resp, dl', w') \<and> dialer_ok dl' \<and> dlAddr dl' = L \<and> dlAddrs dl' = dlAddrs dl"
proof -
  note wc = well_connectedD [OF assms(1)]
  have "dlAddr dl = L \<or> (\<exists>m < 14. live_within m live dl)"
    using wc(2-4) live_within_all [of dl _ live]
    by (auto simp: list_ex_iff intro!: exI [of _ "length (dlAddrs dl)"])
  moreover have "cluster_call rpc_RegisterNode srvs live req L w = (Inr resp, w')"
    using wc(8) assms(2) by (simp add: cluster_call_def)
  ultimately have "\<exists>dl'. register_loop dial_all (cluster_call rpc_RegisterNode srvs live req) canceled (Suc 14) None dl w
      = (Inr resp, dl', w') \<and> dialer_ok dl' \<and> dlAddr dl' = L \<and> dlConn dl' \<and> dlAddrs dl' = dlAddrs dl"
    by (intro register_reaches [OF routed_register.led [OF wc(1)] _ wc(2)])
  moreover have "registerMaxAttempts = Suc 14" by (simp add: registerMaxAttempts_def)
  ultimately show ?thesis unfolding registerWithRetry_def by auto
qed

text \<open>
  C17: a fenced-off worker rejoins. When the node's epoch in the database is not the one the worker has
  (it was declared dead, or registered again), the worker's next heartbeat makes it cancel every
  tracked task and forget its specs, register again, and continue under the epoch the database
  now has for the node, which is ready; no task row changes.
\<close>

theorem fenced_worker_rejoins:
  assumes "db_inv d" and "well_connected L srvs live (agDialer a)" and "node \<in> set (db_nodes d)"
    and "agNodeID a = nID node" and "agNodeID a \<noteq> []" and "agEpoch a \<noteq> nEpoch node"
    and "valid_register req" and "rnHostname req = nHostname node" and "rnAddress req = nAddress node"
  shows "\<exists>a' k' r' d'. heartbeat_turn (cluster_rpcs srvs live) dial_all eng canceled req (a, k, r, d)
      = ([], a', k', r', d')
    \<and> agSpecs a' = [] \<and> list_all snd (xRunning (agExec a'))
    \<and> agNodeID a' = nID node \<and> agEpoch a' = nEpoch node + 1 \<and> db_tasks d' = db_tasks d
    \<and> (\<exists>m \<in> set (db_nodes d'). nID m = agNodeID a' \<and> nEpoch m = agEpoch a' \<and> nStatus m = NodeStatusReady)"
proof -
  note wc = well_connectedD [OF assms(2)]
  obtain cpu mem where alloc: "AllocatedResources (agSpecs a) (agExec a) = (cpu, mem)" by fastforce
  let ?hb = "\<lparr>hbNodeId = agNodeID a, hbEpoch = agEpoch a,
     hbAllocated = \<lparr>nrCpuMillicores = cpu, nrMemoryMb = mem\<rparr>, hbTaskUpdates = []\<rparr>"
  let ?resp = "\<lparr>hrNewAssignments = [], hrCancelTaskIds = [], hrEpochInvalid = True\<rparr>"
  have "find (\<lambda>n. nID n = agNodeID a) (db_nodes d) = Some node"
    using rows_ok_find_node [OF db_inv_rows [OF assms(1)]] assms(3,4) by simp
  then have "GetNode (sv_env (srvs L) 0) (agNodeID a) d = Inr node"
    using wc(5) by (simp add: GetNode_def pool_query_def)
  then have "rpc_Heartbeat (srvs L) ?hb (r, d) = (Inr ?resp, r, d)"
    using wc(7) assms(5,6) by (simp add: rpc_Heartbeat_def requireLeader_None [THEN iffD2])
  from routed_heartbeat.reaches_leader [OF wc(1-4) this] obtain dl1 where hb:
    "withLeaderRetry dial_all (cluster_call rpc_Heartbeat srvs live ?hb) (agDialer a) (r, d) = (Inr ?resp, dl1, r, d)"
    "dialer_ok dl1" "dlAddr dl1 = L" "dlAddrs dl1 = dlAddrs (agDialer a)" by auto
  obtain resp r' d' where reg: "rpc_RegisterNode (srvs L) req (r, d) = (Inr resp, r', d')" "rrNodeId resp = nID node"
    "rrEpoch resp = nEpoch node + 1" "db_tasks d' = db_tasks d"
    "\<exists>m \<in> set (db_nodes d'). nID m = nID node \<and> nEpoch m = nEpoch node + 1 \<and> nStatus m = NodeStatusReady"
    using rpc_register_again [OF assms(1) wc(5,7,6) assms(7,3,8,9)] by blast
  obtain dl2 where dl2: "registerWithRetry dial_all (cluster_call rpc_RegisterNode srvs live req) canceled dl1 (r, d)
      = (Inr resp, dl2, r', d')"
    using register_reaches_leader [OF well_connected_at_leader [OF assms(2) hb(2-4)] reg(1)] by blast
  obtain x k' where stop: "StopAll eng (agExec a, k) = (x, k')" by fastforce
  then have "list_all snd (xRunning x)" by (auto simp: StopAll_def list_all_iff)
  with alloc hb(1) dl2 stop reg show ?thesis
    by (simp add: heartbeat_turn_def cluster_rpcs_def setIdentity_def)
qed

definition alpha_request :: RegisterNodeRequest where
  "alpha_request = \<lparr>rnHostname = ''alpha'', rnAddress = ''10.0.0.1:7000'',
     rnCapacity = Some \<lparr>nrCpuMillicores = 4000, nrMemoryMb = 8192\<rparr>, rnLabels = None\<rparr>"

lemma fresh_dialer_connected:
  "well_connected ''s3:7000'' three_replicas (\<lambda>a. a \<noteq> ''s1:7000'') fresh_dialer"
  using three_replicas_led
  by (simp add: well_connected_def dialer_ok_def fresh_dialer_def) (simp add: three_replicas_def sample_srv_def sample_cenv_def)

theorem fenced_worker_rejoins_witness:
  "\<exists>a' k' r' d'. heartbeat_turn (cluster_rpcs three_replicas (\<lambda>a. a \<noteq> ''s1:7000'')) dial_all list_engine (\<lambda>_. False)
      alpha_request (idle_agent\<lparr>agNodeID := ''n1'', agEpoch := 2\<rparr>, ([], 0), \<lambda>_. None, sample_db) = ([], a', k', r', d')
    \<and> agNodeID a' = ''n1'' \<and> agEpoch a' = 4"
proof -
  have "well_connected ''s3:7000'' three_replicas (\<lambda>a. a \<noteq> ''s1:7000'') (agDialer (idle_agent\<lparr>agNodeID := ''n1'', agEpoch := 2\<rparr>))"
    using fresh_dialer_connected by (simp add: idle_agent_def)
  from fenced_worker_rejoins [OF sample_inv this, of node_a alpha_request list_engine "\<lambda>_. False" "([], 0)" "\<lambda>_. None"]
  show ?thesis
    by (auto simp: node_a_def valid_register_def alpha_request_def in_i64_def GetCpuMillicores_def GetMemoryMb_def)
qed

section \<open>Running a task\<close>

lemma rpc_report_applied:
  assumes "db_inv d" and "healthy (sv_env srv 0)" and "gate_open (sv_leader srv)"
    and "t \<in> set (db_tasks d)" and "tID t = tsTaskId u" and "tsTaskId u \<noteq> []" and "tsNodeId u \<noteq> []"
    and "tAssignedNodeID t = Some (tsNodeId u)" and "tAssignedEpoch t = Some (tsEpoch u)"
    and "report_status (tsStatus u) = Some st" and "job_limit d t = Some limit"
    and "report_table (sv_env srv 0) limit (update_params u st) t = Some row"
  shows "\<exists>d'. rpc_ReportTaskStatus srv u (r, d) = (Inr (), r, d') \<and> db_inv d'
    \<and> db_tasks d' = update_where (\<lambda>v. tID v = tsTaskId u) (\<lambda>v. row) (db_tasks d)"
proof -
  let ?p = "update_params u st"
  have p: "uTaskID ?p = tsTaskId u" "uNodeID ?p = tsNodeId u" "uEpoch ?p = tsEpoch u"
    by (simp_all add: update_params_def)
  have f: "find (\<lambda>v. tID v = uTaskID ?p) (db_tasks d) = Some t"
    using rows_ok_find_task [OF db_inv_rows [OF assms(1)]] assms(4,5) p by simp
  have g: "checkTaskReportFence t (uNodeID ?p) (uEpoch ?p) = None"
    using assms(8,9) by (simp add: checkTaskReportFence_def p)
  from report_applied [OF assms(1,2) f g assms(11)] assms(12) obtain d' where
    up: "UpdateTaskStatus (sv_env srv 0) ?p d = (Inr row, d')"
    and "db_tasks d' = update_where (\<lambda>v. tID v = tsTaskId u) (\<lambda>v. row) (db_tasks d)" by (auto simp: p)
  moreover have "db_inv d'"
    using UpdateTaskStatus_contract [of d "sv_env srv 0" ?p] up assms(1) by (simp add: keeps_contract_def)
  ultimately show ?thesis using assms(3,6,10)
    by (auto simp: rpc_ReportTaskStatus_def requireLeader_None [THEN iffD2] applyTaskStatusUpdate_def)
qed

lemma send_report_leader:
  assumes "well_connected L srvs live (agDialer a)" and "rpc_ReportTaskStatus (srvs L) u w = (res, w')"
  obtains dl where "send_report (cluster_rpcs srvs live) dial_all u (a, w) = (a\<lparr>agDialer := dl\<rparr>, w')"
    "well_connected L srvs live dl"
proof -
  note wc = well_connectedD [OF assms(1)]
  from routed_report.reaches_leader [OF wc(1-4) assms(2)] obtain x dl where
    "withLeaderRetry dial_all (cluster_call rpc_ReportTaskStatus srvs live u) (agDialer a) w = (x, dl, w')"
    "dialer_ok dl" "dlAddr dl = L" "dlAddrs dl = dlAddrs (agDialer a)" by blast
  with well_connected_at_leader [OF assms(1)] show thesis
    by (intro that [of dl]) (simp_all add: send_report_def cluster_rpcs_def)
qed

text \<open>
  Starting a task that is scheduled on the agent's node under its epoch: the row is running afterwards, the agent
  tracks the task and waits for its container, which carries the task's label.
\<close>

lemma task_started:
  assumes "db_inv d" and "well_connected L srvs live (agDialer a)" and "engine_laws eng C"
    and "t \<in> set (db_tasks d)" and "tID t = esTaskID spec" and "tStatus t = TaskStatusScheduled"
    and "tAssignedNodeID t = Some (agNodeID a)" and "tAssignedEpoch t = Some (agEpoch a)"
    and "esTaskID spec \<noteq> []" and "agNodeID a \<noteq> []" and "\<not> IsRunning (esTaskID spec) (agExec a)"
  obtains a' k' d' wt where "startAssignedTask (cluster_rpcs srvs live) dial_all eng b spec (a, k, r, d) = (a', k', r, d')"
    and "db_inv d'"
    and "db_tasks d' = update_where (\<lambda>v. tID v = esTaskID spec) (\<lambda>v. running_row (sv_env (srvs L) 0) t) (db_tasks d)"
    and "agExec a' = agExec a\<lparr>xRunning := xRunning (agExec a) @ [(esTaskID spec, False)], xWaits := xWaits (agExec a) @ [wt]\<rparr>"
    and "waTaskID wt = esTaskID spec" and "agNodeID a' = agNodeID a" and "agEpoch a' = agEpoch a"
    and "agRunningGauge a' = agRunningGauge a + 1" and "well_connected L srvs live (agDialer a')"
    and "list_ex (\<lambda>c. rcID c = waContainerID wt \<and> map_of (rcLabels c) ''arbiter.task_id'' = Some (esTaskID spec)) (C k')"
proof -
  note wc = well_connectedD [OF assms(2)]
  let ?u = "\<lparr>tsTaskId = esTaskID spec, tsStatus = ''running'', tsExitCode = 0, tsError = [],
             tsNodeId = agNodeID a, tsEpoch = agEpoch a\<rparr>"
  let ?row = "running_row (sv_env (srvs L) 0) t"
  obtain limit where lim: "job_limit d t = Some limit" using job_limit_total [OF assms(1,4)] .
  have "report_table (sv_env (srvs L) 0) limit (update_params ?u TaskStatusRunning) t = Some ?row"
    using assms(6) by (simp add: report_table_def update_params_def Let_def)
  then obtain d' where d': "rpc_ReportTaskStatus (srvs L) ?u (r, d) = (Inr (), r, d')" "db_inv d'"
    "db_tasks d' = update_where (\<lambda>v. tID v = esTaskID spec) (\<lambda>v. ?row) (db_tasks d)"
    using rpc_report_applied [OF assms(1) wc(5,7) assms(4), of ?u TaskStatusRunning limit ?row] lim assms(5,7-10)
    by (auto simp: report_status_def)
  obtain dl where rep: "send_report (cluster_rpcs srvs live) dial_all ?u (a, r, d) = (a\<lparr>agDialer := dl\<rparr>, r, d')"
    "well_connected L srvs live dl" by (rule send_report_leader [OF assms(2) d'(1)])
  obtain cid c k' where c: "createAndStart eng b spec k = (Inr (cid, newRunID b), k')" "c \<in> set (C k')" "rcID c = cid"
    "rcLabels c = cbLabels (task_body spec (newRunID b))" using createAndStart_law [OF assms(3)] by blast
  let ?wt = "\<lparr>waContainerID = cid, waTaskID = esTaskID spec, waRunID = newRunID b\<rparr>"
  let ?x = "agExec a\<lparr>xRunning := xRunning (agExec a) @ [(esTaskID spec, False)], xWaits := xWaits (agExec a) @ [?wt]\<rparr>"
  show thesis
  proof (rule that [of "a\<lparr>agDialer := dl, agExec := ?x, agRunningGauge := agRunningGauge a + 1\<rparr>" k' d' ?wt])
    show "startAssignedTask (cluster_rpcs srvs live) dial_all eng b spec (a, k, r, d)
        = (a\<lparr>agDialer := dl, agExec := ?x, agRunningGauge := agRunningGauge a + 1\<rparr>, k', r, d')"
      using rep(1) c(1) assms(11) by (simp add: startAssignedTask_def Start_def start_claim_def start_run_def)
  qed (use d' rep(2) c in \<open>auto simp: list_ex_iff task_body_def intro!: bexI [of _ c]\<close>)
qed

text \<open>
  A start that fails is counted twice as failed, and lowers the gauge of running tasks that it never
  raised: \<open>Start\<close> itself delivers the failed result to \<open>handleTaskDone\<close>.
\<close>

lemma failed_start_counted_twice:
  assumes "createAndStart eng b spec k = (Inl (DockerError e), k')"
    and "\<not> IsRunning (esTaskID spec) (agExec a)" and "startAssignedTask rpcs dial eng b spec (a, k, w) = (a', k'', w')"
  shows "agObserved a' = agObserved a @ [''failed'', ''failed''] \<and> agRunningGauge a' = agRunningGauge a - 1"
  using assms
  by (auto simp: startAssignedTask_def Start_def start_claim_def start_run_def handleTaskDone_def send_report_def
      IsRunning_def split: prod.splits)

end
