(* ===== verification/Net_Addr.thy ===== *)
theory Net_Addr
  imports Arbiter_Prelude
begin

text \<open>
  Host and port of an address: what the commands use of Go's \<^verbatim>\<open>net\<close> package, \<^verbatim>\<open>SplitHostPort\<close> (\<open>None\<close> when it
  returns an error) and \<^verbatim>\<open>JoinHostPort\<close>, and the environment defaults \<open>cmd_envOr\<close>. Joining and splitting are
  inverse.
\<close>

fun last_index :: "char \<Rightarrow> string \<Rightarrow> nat option" where
  "last_index c [] = None"
| "last_index c (x # xs) =
     (case last_index c xs of
        Some i \<Rightarrow> Some (Suc i)
      | None \<Rightarrow> if x = c then Some 0 else None)"

fun char_index :: "char \<Rightarrow> string \<Rightarrow> nat option" where
  "char_index c [] = None"
| "char_index c (x # xs) = (if x = c then Some 0 else map_option Suc (char_index c xs))"

text \<open>
  The port starts after the last colon; a host with colons is in brackets, the closing one just before
  the last colon.
\<close>

definition SplitHostPort :: "string \<Rightarrow> (string \<times> string) option" where
  "SplitHostPort hostport =
     (case last_index CHR '':'' hostport of
        None \<Rightarrow> None
      | Some i \<Rightarrow>
          if hd hostport = CHR ''['' then
            (case char_index CHR '']'' hostport of
               None \<Rightarrow> None
             | Some e \<Rightarrow>
                 if e + 1 \<noteq> i then None
                 else if CHR ''['' \<in> set (drop 1 hostport) \<or> CHR '']'' \<in> set (drop (e + 1) hostport) then None
                 else Some (drop 1 (take e hostport), drop (i + 1) hostport))
          else
            (let host = take i hostport in
             if CHR '':'' \<in> set host \<or> CHR ''['' \<in> set hostport \<or> CHR '']'' \<in> set hostport then None
             else Some (host, drop (i + 1) hostport)))"

definition JoinHostPort :: "string \<Rightarrow> string \<Rightarrow> string" where
  "JoinHostPort host port =
     (if CHR '':'' \<in> set host then ''['' @ host @ '']:'' @ port else host @ '':'' @ port)"

text \<open>\<open>getenv\<close> is the environment; an unset variable reads as the empty string.\<close>

definition cmd_envOr :: "(string \<Rightarrow> string) \<Rightarrow> string \<Rightarrow> string \<Rightarrow> string" where
  "cmd_envOr getenv key fallback = (let v = getenv key in if v \<noteq> [] then v else fallback)"

lemma last_index_append: "c \<notin> set ys \<Longrightarrow> last_index c (xs @ c # ys) = Some (length xs)"
proof -
  assume "c \<notin> set ys"
  then have "last_index c ys = None" by (induction ys) auto
  then show ?thesis by (induction xs) auto
qed

lemma char_index_append: "c \<notin> set xs \<Longrightarrow> char_index c (xs @ c # ys) = Some (length xs)"
  by (induction xs) auto

abbreviation no_bracket :: "string \<Rightarrow> bool" where
  "no_bracket s \<equiv> CHR ''['' \<notin> set s \<and> CHR '']'' \<notin> set s"

lemma split_join:
  assumes "no_bracket host" and "no_bracket port" and "CHR '':'' \<notin> set port"
  shows "SplitHostPort (JoinHostPort host port) = Some (host, port)"
proof (cases "CHR '':'' \<in> set host")
  case True
  let ?s = "''['' @ host @ '']:'' @ port"
  have "last_index CHR '':'' ((''['' @ host @ '']'') @ CHR '':'' # port) = Some (length (''['' @ host @ '']''))"
    by (rule last_index_append) (rule assms(3))
  then have l: "last_index CHR '':'' ?s = Some (length host + 2)" by simp
  have "char_index CHR '']'' ((''['' @ host) @ CHR '']'' # '':'' @ port) = Some (length (''['' @ host))"
    using assms(1) by (intro char_index_append) simp
  then have c: "char_index CHR '']'' ?s = Some (length host + 1)" by simp
  show ?thesis using True assms l c by (simp add: SplitHostPort_def JoinHostPort_def)
next
  case False
  have "last_index CHR '':'' (host @ CHR '':'' # port) = Some (length host)"
    by (rule last_index_append) (rule assms(3))
  moreover have "hd (host @ CHR '':'' # port) \<noteq> CHR ''[''" using assms(1) by (cases host) auto
  ultimately show ?thesis using False assms by (simp add: SplitHostPort_def JoinHostPort_def)
qed

lemma join_split:
  assumes "SplitHostPort s = Some (host, port)" and "hd s \<noteq> CHR ''[''"
  shows "s = host @ '':'' @ port \<and> no_bracket host \<and> no_bracket port \<and> CHR '':'' \<notin> set host"
proof -
  have l: "last_index c xs = Some i \<Longrightarrow> xs = take i xs @ c # drop (Suc i) xs" for c xs i
    by (induction xs arbitrary: i) (auto split: option.splits if_splits)
  from assms obtain i where i: "last_index CHR '':'' s = Some i" "host = take i s" "port = drop (i + 1) s"
    "CHR '':'' \<notin> set host" "no_bracket s"
    by (auto simp: SplitHostPort_def Let_def split: option.splits if_splits)
  have s: "s = host @ '':'' @ port" using l [OF i(1)] by (simp add: i(2,3))
  from i(5) have "no_bracket (host @ '':'' @ port)" unfolding s [symmetric] .
  then have "no_bracket host" "no_bracket port" by auto
  with s i(4) show ?thesis by blast
qed

end
