(* ===== verification/Worker_Main.thy ===== *)
theory Worker_Main
  imports Worker_Props Net_Addr
begin

text \<open>
  The start of a worker, \<open>main\<close> of \<^verbatim>\<open>src/cmd/worker/main.go\<close>: its flags, what it calls itself, its first
  registration, and the identity and interval its heartbeat loop begins with. \<open>osHostname\<close> is what
  \<^verbatim>\<open>os.Hostname\<close> gives. The theorem: a worker that can reach the leader joins the cluster as a ready node under
  the identity it keeps.
\<close>

section \<open>Start-up\<close>

record workerFlags =
  wfSchedulerAddr :: string
  wfSchedulerAddrs :: string
  wfHostname :: string
  wfAddress :: string
  wfCpuCapacityMillicores :: int
  wfMemCapacityMB :: int
  wfHttpAddr :: string
  wfLabels :: string

definition default_workerFlags :: "(string \<Rightarrow> string) \<Rightarrow> workerFlags" where
  "default_workerFlags getenv =
     \<lparr>wfSchedulerAddr = cmd_envOr getenv ''ARBITER_SCHEDULER_ADDR'' ''localhost:7000'',
      wfSchedulerAddrs = cmd_envOr getenv ''ARBITER_SCHEDULER_ADDRS'' [],
      wfHostname = [], wfAddress = [], wfCpuCapacityMillicores = 1000, wfMemCapacityMB = 512,
      wfHttpAddr = '':8081'', wfLabels = []\<rparr>"

definition worker_hostname :: "workerFlags \<Rightarrow> string option \<Rightarrow> string" where
  "worker_hostname f osHostname =
     (if wfHostname f = [] then (case osHostname of Some h \<Rightarrow> h | None \<Rightarrow> ''unknown'') else wfHostname f)"

definition worker_address :: "workerFlags \<Rightarrow> string option \<Rightarrow> string" where
  "worker_address f osHostname =
     (if wfAddress f = [] then worker_hostname f osHostname @ wfHttpAddr f else wfAddress f)"

definition worker_register_request :: "workerFlags \<Rightarrow> string option \<Rightarrow> strmap \<Rightarrow> RegisterNodeRequest" where
  "worker_register_request f osHostname labels =
     \<lparr>rnHostname = worker_hostname f osHostname, rnAddress = worker_address f osHostname,
      rnCapacity = Some \<lparr>nrCpuMillicores = wfCpuCapacityMillicores f, nrMemoryMb = wfMemCapacityMB f\<rparr>,
      rnLabels = Some labels\<rparr>"

definition defaultHeartbeatInterval :: duration where "defaultHeartbeatInterval = 500 * Millisecond"

definition heartbeat_interval :: "RegisterNodeResponse \<Rightarrow> duration" where
  "heartbeat_interval initial =
     (let interval = rrHeartbeatIntervalMs initial * Millisecond in
      if interval \<le> 0 then defaultHeartbeatInterval else interval)"

text \<open>
  How a start ends: the exits of \<open>main\<close>, or the agent with which the heartbeat loop runs and its interval.
  \<open>NoAddress\<close> is the panic of the dialer on an empty list.
\<close>

datatype boot_error = InvalidLabels string | NoAddress | NotRegistered "call_error option"

definition worker_boot ::
  "'w rpcs \<Rightarrow> (string \<Rightarrow> string option) \<Rightarrow> (nat \<Rightarrow> bool) \<Rightarrow> workerFlags \<Rightarrow> string option \<Rightarrow> 'w
     \<Rightarrow> (boot_error + workerAgent \<times> duration) \<times> 'w" where
  "worker_boot rpcs dial canceled f osHostname w =
     (case parseLabels (wfLabels f) of
        Inl e \<Rightarrow> (Inl (InvalidLabels e), w)
      | Inr labels \<Rightarrow>
          (case newSchedulerDialer (scheduler_addrs (wfSchedulerAddr f) (wfSchedulerAddrs f)) of
             None \<Rightarrow> (Inl NoAddress, w)
           | Some dialer \<Rightarrow>
               (case registerWithRetry dial (cRegister rpcs (worker_register_request f osHostname labels)) canceled
                       dialer w of
                  (Inl e, dl, w') \<Rightarrow> (Inl (NotRegistered e), w')
                | (Inr regResp, dl, w') \<Rightarrow>
                    (Inr (setIdentity (rrNodeId regResp) (rrEpoch regResp)
                            \<lparr>agDialer = dl, agExec = New_Executor, agSpecs = [], agNodeID = [], agEpoch = 0,
                             agRunningGauge = 0, agObserved = []\<rparr>,
                          heartbeat_interval regResp), w'))))"

section \<open>Lemmas\<close>

text \<open>The dialer never starts on an empty list.\<close>

lemma scheduler_addrs_dialer:
  "\<exists>dl. newSchedulerDialer (scheduler_addrs a as) = Some dl \<and> dlAddrs dl = scheduler_addrs a as"
  by (auto simp: newSchedulerDialer_def scheduler_addrs_def Let_def split: list.split)

text \<open>A registration the leader accepts gives the row it answers with.\<close>

lemma rpc_register_row:
  assumes "healthy (sv_env srv 0)" and "gate_open (sv_leader srv)"
    and "\<not> ce_fault (sv_cache srv) ''cache: set last seen''" and "valid_register req"
    and "db_uuid (sv_env srv 0) 0 \<notin> nID ` set (db_nodes d)"
  shows "\<exists>resp r' d' n. rpc_RegisterNode srv req (r, d) = (Inr resp, r', d') \<and> db_tasks d' = db_tasks d
    \<and> n \<in> set (db_nodes d') \<and> nID n = rrNodeId resp \<and> nEpoch n = rrEpoch resp \<and> nStatus n = NodeStatusReady
    \<and> nHostname n = rnHostname req \<and> nAddress n = rnAddress req
    \<and> nCPUCapacityMillicores n = GetCpuMillicores (rnCapacity req) \<and> nMemCapacityMB n = GetMemoryMb (rnCapacity req)
    \<and> nLabels n = Some (case rnLabels req of None \<Rightarrow> [] | Some m \<Rightarrow> m)
    \<and> rrHeartbeatIntervalMs resp = sv_heartbeatIntervalMS srv"
proof -
  let ?p = "\<lparr>rHostname = rnHostname req, rAddress = rnAddress req,
             rCPUCapacityMillicores = GetCpuMillicores (rnCapacity req),
             rMemCapacityMB = GetMemoryMb (rnCapacity req), rLabels = rnLabels req\<rparr>"
  obtain n d' where call: "RegisterNode (sv_env srv 0) ?p d = (Inr n, d')"
    using RegisterNode_total [OF assms(1) _ _ assms(5), of ?p] assms(4) by (auto simp: valid_register_def)
  note eff = RegisterNode_effect [OF call]
  have row: "n \<in> set (db_nodes d') \<and> nStatus n = NodeStatusReady \<and> nHostname n = rnHostname req \<and> nAddress n = rnAddress req
    \<and> nCPUCapacityMillicores n = GetCpuMillicores (rnCapacity req) \<and> nMemCapacityMB n = GetMemoryMb (rnCapacity req)
    \<and> nLabels n = Some (case rnLabels req of None \<Rightarrow> [] | Some m \<Rightarrow> m)"
  proof (cases "find (same_host ?p) (db_nodes d)")
    case None
    with eff(7) show ?thesis by (auto simp: new_node_def)
  next
    case (Some n0)
    with find_in_set [OF Some] eff(7) show ?thesis
      by (auto simp: reregister_node_def same_host_def set_update_where)
  qed
  with call eff(3) assms(2-4) show ?thesis
    by (auto simp: rpc_RegisterNode_def requireLeader_None [THEN iffD2] valid_register_def SetLastSeen_def
        SetLastSeenAt_def)
qed

section \<open>Joining\<close>

text \<open>
  C18: a worker joins. When its labels parse, its name, address and capacities are usable and it can reach the leader, the
  worker starts: the database has a ready node with the worker's host, address, capacities and labels, under
  the id and epoch the agent goes on with; the agent tracks no task, is connected to the leader, and beats at the
  interval the leader asks for. No task changes.
\<close>

theorem worker_joins:
  assumes "parseLabels (wfLabels f) = Inr labels"
    and "newSchedulerDialer (scheduler_addrs (wfSchedulerAddr f) (wfSchedulerAddrs f)) = Some dl"
    and "well_connected L srvs live dl" and "valid_register (worker_register_request f osHostname labels)"
    and "db_uuid (sv_env (srvs L) 0) 0 \<notin> nID ` set (db_nodes d)" and "0 < sv_heartbeatIntervalMS (srvs L)"
  shows "\<exists>a n r' d'. worker_boot (cluster_rpcs srvs live) dial_all canceled f osHostname (r, d)
      = (Inr (a, sv_heartbeatIntervalMS (srvs L) * Millisecond), r', d')
    \<and> n \<in> set (db_nodes d') \<and> nID n = agNodeID a \<and> nEpoch n = agEpoch a \<and> nStatus n = NodeStatusReady
    \<and> nHostname n = worker_hostname f osHostname \<and> nAddress n = worker_address f osHostname
    \<and> nCPUCapacityMillicores n = wfCpuCapacityMillicores f \<and> nMemCapacityMB n = wfMemCapacityMB f
    \<and> nLabels n = Some labels
    \<and> agSpecs a = [] \<and> agExec a = New_Executor \<and> dlAddr (agDialer a) = L
    \<and> well_connected L srvs live (agDialer a) \<and> db_tasks d' = db_tasks d"
proof -
  let ?req = "worker_register_request f osHostname labels"
  note wc = well_connectedD [OF assms(3)]
  obtain resp r' d' n where reg: "rpc_RegisterNode (srvs L) ?req (r, d) = (Inr resp, r', d')" "db_tasks d' = db_tasks d"
    "n \<in> set (db_nodes d')" "nID n = rrNodeId resp" "nEpoch n = rrEpoch resp" "nStatus n = NodeStatusReady"
    "nHostname n = rnHostname ?req" "nAddress n = rnAddress ?req"
    "nCPUCapacityMillicores n = GetCpuMillicores (rnCapacity ?req)" "nMemCapacityMB n = GetMemoryMb (rnCapacity ?req)"
    "nLabels n = Some (case rnLabels ?req of None \<Rightarrow> [] | Some m \<Rightarrow> m)"
    "rrHeartbeatIntervalMs resp = sv_heartbeatIntervalMS (srvs L)"
    using rpc_register_row [OF wc(5,7,6) assms(4,5)] by metis
  from register_reaches_leader [OF assms(3) reg(1)] obtain dl' where dl':
    "registerWithRetry dial_all (cluster_call rpc_RegisterNode srvs live ?req) canceled dl (r, d) = (Inr resp, dl', r', d')"
    "dialer_ok dl'" "dlAddr dl' = L" "dlAddrs dl' = dlAddrs dl" by blast
  have interval: "heartbeat_interval resp = sv_heartbeatIntervalMS (srvs L) * Millisecond"
    using assms(6) reg(12) by (simp add: heartbeat_interval_def Millisecond_def)
  define a where "a = setIdentity (rrNodeId resp) (rrEpoch resp)
      \<lparr>agDialer = dl', agExec = New_Executor, agSpecs = [], agNodeID = [], agEpoch = 0, agRunningGauge = 0,
       agObserved = []\<rparr>"
  have boot: "worker_boot (cluster_rpcs srvs live) dial_all canceled f osHostname (r, d)
      = (Inr (a, sv_heartbeatIntervalMS (srvs L) * Millisecond), r', d')"
    using assms(1,2) dl'(1) interval by (simp add: worker_boot_def cluster_rpcs_def a_def)
  have a: "agNodeID a = nID n" "agEpoch a = nEpoch n" "agSpecs a = []" "agExec a = New_Executor" "agDialer a = dl'"
    using reg(4,5) by (simp_all add: a_def setIdentity_def)
  have "well_connected L srvs live dl'" by (rule well_connected_at_leader [OF assms(3) dl'(2-4)])
  moreover have "nCPUCapacityMillicores n = wfCpuCapacityMillicores f" "nMemCapacityMB n = wfMemCapacityMB f"
    "nHostname n = worker_hostname f osHostname" "nAddress n = worker_address f osHostname" "nLabels n = Some labels"
    using reg(7-11) by (simp_all add: worker_register_request_def GetCpuMillicores_def GetMemoryMb_def)
  ultimately show ?thesis
    using boot a reg(2,3,6) dl'(3)
    by (intro exI [of _ a] exI [of _ n] exI [of _ r'] exI [of _ d']) simp
qed

definition gamma_flags :: workerFlags where
  "gamma_flags = \<lparr>wfSchedulerAddr = ''s1:7000'', wfSchedulerAddrs = ''s1:7000, s2:7000, s3:7000'', wfHostname = ''gamma'',
     wfAddress = [], wfCpuCapacityMillicores = 1000, wfMemCapacityMB = 512, wfHttpAddr = '':8081'', wfLabels = ''zone=b''\<rparr>"

lemma gamma_flags_parse:
  "parseLabels (wfLabels gamma_flags) = Inr [(''zone'', ''b'')]"
  "newSchedulerDialer (scheduler_addrs (wfSchedulerAddr gamma_flags) (wfSchedulerAddrs gamma_flags)) = Some fresh_dialer"
  by (simp_all add: gamma_flags_def parseLabels_def TrimSpace_def is_space_def mput_def scheduler_addrs_def
      parseAddrList_def containsAddr_def newSchedulerDialer_def fresh_dialer_def)

theorem worker_joins_witness:
  "\<exists>a n r' d'. worker_boot (cluster_rpcs three_replicas (\<lambda>a. a \<noteq> ''s1:7000'')) dial_all (\<lambda>_. False) gamma_flags None
      (\<lambda>_. None, sample_db) = (Inr (a, Second), r', d')
    \<and> n \<in> set (db_nodes d') \<and> nID n = agNodeID a \<and> nAddress n = ''gamma:8081''"
proof -
  have s: "three_replicas ''s3:7000'' = sample_srv None" by (simp add: three_replicas_def)
  have v: "valid_register (worker_register_request gamma_flags None [(''zone'', ''b'')])"
    by (simp add: valid_register_def worker_register_request_def gamma_flags_def worker_hostname_def worker_address_def
        GetCpuMillicores_def GetMemoryMb_def in_i64_def)
  have u: "db_uuid (sv_env (three_replicas ''s3:7000'') 0) 0 \<notin> nID ` set (db_nodes sample_db)"
    by (simp add: s sample_srv_def sample_env_def itoa_def nat_digits.simps sample_rows)
  have i: "sv_heartbeatIntervalMS (three_replicas ''s3:7000'') = 1000" by (simp add: s sample_srv_def)
  have w: "worker_address gamma_flags None = ''gamma:8081''"
    by (simp add: worker_address_def worker_hostname_def gamma_flags_def)
  from worker_joins [OF gamma_flags_parse fresh_dialer_connected v u, of "\<lambda>_. False" "\<lambda>_. None"]
  obtain a n r' d' where "worker_boot (cluster_rpcs three_replicas (\<lambda>a. a \<noteq> ''s1:7000'')) dial_all (\<lambda>_. False) gamma_flags None
      (\<lambda>_. None, sample_db) = (Inr (a, 1000 * Millisecond), r', d')"
    "n \<in> set (db_nodes d')" "nID n = agNodeID a" "nAddress n = ''gamma:8081''" unfolding i w by auto
  then show ?thesis by (auto simp: Second_def)
qed

end
