(* ===== verification/Task_Lifecycle.thy ===== *)
theory Task_Lifecycle
  imports Worker_Props Grpc_Props
begin

text \<open>
  The life of a task on its node, across the scheduler and the worker: a heartbeat carries the assignment to
  the agent, the agent starts the task's container and reports it as running, and the exit of the container is
  reported and recorded. Between the start and the exit anything may happen that leaves the task assigned to
  the node.
\<close>

section \<open>Delivery\<close>

lemma assign_loop_specs: "assign_loop e ts a = (ls, a') \<Longrightarrow> set ls \<subseteq> assignment_spec ` set ts"
  by (induction ts arbitrary: a ls) (fastforce simp: Let_def split: if_splits prod.splits)+

lemma assign_loop_frame:
  "assign_loop e ts a = (ls, a') \<Longrightarrow> agDialer a' = agDialer a \<and> agNodeID a' = agNodeID a
     \<and> agRunningGauge a' = agRunningGauge a"
  by (induction ts arbitrary: a ls) (fastforce simp: Let_def split: if_splits prod.splits)+

lemma recover_tables:
  "recover env node d = (Inr n, d') \<Longrightarrow> db_tasks d' = db_tasks d \<and> db_jobs d' = db_jobs d"
  by (auto simp: recover_def UpdateNodeStatus_effect split: if_splits)

text \<open>The task spec that the agent must be handed for a task.\<close>

definition task_spec :: "Job \<Rightarrow> Task \<Rightarrow> TaskSpec" where
  "task_spec j t =
     \<lparr>esTaskID = tID t, esImage = jImage j, esCommand = jCommand j,
      esCPURequestMillicores = jCPURequestMillicores j, esMemRequestMB = jMemRequestMB j\<rparr>"

definition tracked :: "string \<Rightarrow> workerAgent \<Rightarrow> bool" where
  "tracked i a \<longleftrightarrow> IsRunning i (agExec a) \<or> i \<in> fst ` set (agSpecs a)"

lemma handleAssignments_spec:
  assumes "handleAssignments ts a = (ls, a')" and "x \<in> set ts" and "taAssignedEpoch x = agEpoch a"
    and "\<not> tracked (taTaskId x) a" and "\<forall>y \<in> set ts. taTaskId y = taTaskId x \<longrightarrow> y = x"
  shows "assignment_spec x \<in> set ls"
proof -
  note l = assms(1) [unfolded handleAssignments_def]
  have "taTaskId x \<in> wanted (agEpoch a) a ts" using assms(2-4) by (auto simp: wanted_def tracked_def)
  then have "taTaskId x \<in> esTaskID ` set ls" using assign_loop_effect [OF l] by blast
  then obtain sp where sp: "sp \<in> set ls" "esTaskID sp = taTaskId x" by force
  with assign_loop_specs [OF l] obtain y where "y \<in> set ts" "sp = assignment_spec y" by blast
  with sp assms(5) show ?thesis by (auto simp: assignment_spec_def)
qed

text \<open>Of the tasks listed for a node, the agent launches the one it does not track, as its job says.\<close>

lemma scheduled_launched:
  assumes "db_inv d" and "\<forall>w \<in> set ws. task_with_job d (wTask w) = Some w" and "set (map wTask ws) \<subseteq> set (db_tasks d)"
    and "t \<in> set (map wTask ws)" and "tAssignedEpoch t = Some (agEpoch a)" and "\<not> tracked (tID t) a"
    and "handleAssignments (map to_assignment ws) a = (ls, a')"
  shows "\<exists>j \<in> set (db_jobs d). jID j = tJobID t \<and> task_spec j t \<in> set ls"
proof -
  from assms(4) obtain w where w: "w \<in> set ws" "wTask w = t" by auto
  with assms(2) have tw: "task_with_job d t = Some w" by auto
  then obtain j where j: "find (\<lambda>j. jID j = tJobID t) (db_jobs d) = Some j"
    "assignment_spec (to_assignment w) = task_spec j t"
    by (auto simp: task_with_job_def to_assignment_def assignment_spec_def task_spec_def)
  have x: "taTaskId (to_assignment v) = tID (wTask v)" for v by (simp add: to_assignment_def)
  have "assignment_spec (to_assignment w) \<in> set ls"
  proof (rule handleAssignments_spec [OF assms(7)])
    show "to_assignment w \<in> set (map to_assignment ws)" using w(1) by simp
    show "taAssignedEpoch (to_assignment w) = agEpoch a" using w(2) assms(5) by (simp add: to_assignment_def)
    show "\<not> tracked (taTaskId (to_assignment w)) a" using w(2) assms(6) by (simp add: x)
    show "\<forall>y \<in> set (map to_assignment ws). taTaskId y = taTaskId (to_assignment w) \<longrightarrow> y = to_assignment w"
    proof (intro ballI impI)
      fix y
      assume "y \<in> set (map to_assignment ws)" "taTaskId y = taTaskId (to_assignment w)"
      then obtain v where v: "y = to_assignment v" "v \<in> set ws" "tID (wTask v) = tID t" using w(2) by (auto simp: x)
      from v(2) assms(3,4) have "wTask v \<in> set (db_tasks d)" "t \<in> set (db_tasks d)" by auto
      then have "wTask v = t" by (rule rows_ok_task_unique [OF db_inv_rows [OF assms(1)] _ _ v(3)])
      with bspec [OF assms(2) v(2)] tw show "y = to_assignment w" by (simp add: v(1))
    qed
  qed
  with j find_in_set [OF j(1)] show ?thesis by auto
qed

lemma heartbeat_delivers:
  assumes "db_inv d" and "well_connected L srvs live (agDialer a)" and "\<And>i. healthy (sv_env (srvs L) i)"
    and "node \<in> set (db_nodes d)" and "agNodeID a = nID node" and "agNodeID a \<noteq> []" and "agEpoch a = nEpoch node"
    and "t \<in> set (db_tasks d)" and "tStatus t = TaskStatusScheduled" and "tAssignedNodeID t = Some (agNodeID a)"
    and "tAssignedEpoch t = Some (agEpoch a)" and "\<not> tracked (tID t) a"
  obtains ls a' r' d' j where "heartbeat_turn (cluster_rpcs srvs live) dial_all eng canceled req (a, k, r, d)
      = (ls, a', k, r', d')"
    and "db_inv d'" and "db_tasks d' = db_tasks d" and "j \<in> set (db_jobs d)" and "jID j = tJobID t"
    and "task_spec j t \<in> set ls" and "agExec a' = agExec a" and "agNodeID a' = agNodeID a" and "agEpoch a' = agEpoch a"
    and "well_connected L srvs live (agDialer a')"
proof -
  note wc = well_connectedD [OF assms(2)]
  obtain cpu mem where alloc: "AllocatedResources (agSpecs a) (agExec a) = (cpu, mem)" by fastforce
  let ?hb = "\<lparr>hbNodeId = agNodeID a, hbEpoch = agEpoch a,
     hbAllocated = \<lparr>nrCpuMillicores = cpu, nrMemoryMb = mem\<rparr>, hbTaskUpdates = []\<rparr>"
  have "find (\<lambda>n. nID n = agNodeID a) (db_nodes d) = Some node"
    using rows_ok_find_node [OF db_inv_rows [OF assms(1)]] assms(4,5) by simp
  then have node: "GetNode (sv_env (srvs L) 0) (hbNodeId ?hb) d = Inr node"
    using wc(5) by (simp add: GetNode_def pool_query_def)
  have hb0: "hbNodeId ?hb \<noteq> []" "hbEpoch ?hb = nEpoch node"
    "apply_updates (sv_env (srvs L)) 0 (hbTaskUpdates ?hb) d = (None, d)" using assms(6,7) by simp_all
  define r' where "r' = snd (SetLastSeen (sv_redis (srvs L)) (sv_cache (srvs L)) (sv_clock (srvs L)) (nID node) r)"
  obtain n2 d2 ws where
    rec: "recover (sv_env (srvs L) 0) node d = (Inr n2, d2)" and inv: "db_inv d2"
    and "\<exists>m \<in> set (db_nodes d). nID m = nID node"
    and call: "rpc_Heartbeat (srvs L) ?hb (r, d)
      = (Inr \<lparr>hrNewAssignments = map to_assignment ws, hrCancelTaskIds = [], hrEpochInvalid = False\<rparr>, r', d2)"
    and ws: "set (map wTask ws) = {t \<in> set (db_tasks d2). tAssignedNodeID t = Some (nID node) \<and> tStatus t = TaskStatusScheduled}"
    "\<forall>w \<in> set ws. task_with_job d2 (wTask w) = Some w"
    by (rule heartbeat_answer [OF assms(1,3) wc(7,6) hb0(1) node hb0(2,3), of r, folded r'_def])
  note tabs = recover_tables [OF rec]
  from routed_heartbeat.reaches_leader [OF wc(1-4) call] obtain dl where hb:
    "withLeaderRetry dial_all (cluster_call rpc_Heartbeat srvs live ?hb) (agDialer a) (r, d)
       = (Inr \<lparr>hrNewAssignments = map to_assignment ws, hrCancelTaskIds = [], hrEpochInvalid = False\<rparr>, dl, r', d2)"
    "dialer_ok dl" "dlAddr dl = L" "dlAddrs dl = dlAddrs (agDialer a)" by auto
  obtain ls a' where as: "handleAssignments (map to_assignment ws) (a\<lparr>agDialer := dl\<rparr>) = (ls, a')" by fastforce
  have "\<exists>j \<in> set (db_jobs d2). jID j = tJobID t \<and> task_spec j t \<in> set ls"
    by (rule scheduled_launched [OF inv ws(2) _ _ _ _ as])
      (use assms(5,8-12) tabs ws(1) in \<open>auto simp: tracked_def\<close>)
  moreover have "heartbeat_turn (cluster_rpcs srvs live) dial_all eng canceled req (a, k, r, d) = (ls, a', k, r', d2)"
    using alloc hb(1) as by (simp add: heartbeat_turn_def cluster_rpcs_def)
  moreover note assign_loop_effect [OF as [unfolded handleAssignments_def]]
    assign_loop_frame [OF as [unfolded handleAssignments_def]]
  ultimately show thesis
    using inv tabs well_connected_at_leader [OF assms(2) hb(2-4)] that [of ls a' r' d2] by auto
qed

section \<open>Exit\<close>

text \<open>The exit code the agent reads from the answer of the Engine.\<close>

definition exit_code :: "docker_response \<Rightarrow> int" where
  "exit_code resp = i32 (case drBody resp of WaitBody n \<Rightarrow> n | _ \<Rightarrow> 0)"

text \<open>What becomes of the row of a task whose container has exited with \<open>code\<close>.\<close>

definition exited_row :: "dbenv \<Rightarrow> int \<Rightarrow> int \<Rightarrow> Task \<Rightarrow> Task" where
  "exited_row env limit code t =
     (if code = 0 then terminal_row env TaskStatusSucceeded (Some 0) None t
      else if tRetriesUsed t < limit
      then requeue_failed_row env (i32 (tRetriesUsed t + 1)) (retryBackoff (i32 (tRetriesUsed t + 1)))
             (Some code) (Some (''exit code '' @ itoa code)) t
      else terminal_row env TaskStatusFailed (Some code) (Some (''exit code '' @ itoa code)) t)"

lemma exit_recorded:
  assumes "db_inv d" and "well_connected L srvs live (agDialer a)"
    and "t \<in> set (db_tasks d)" and "tID t = waTaskID wt" and "tStatus t = TaskStatusRunning"
    and "tAssignedNodeID t = Some (agNodeID a)" and "tAssignedEpoch t = Some (agEpoch a)"
    and "waTaskID wt \<noteq> []" and "agNodeID a \<noteq> []" and "job_limit d t = Some limit"
    and "eng (WaitReq (waContainerID wt)) k = (Inr resp, k')"
  shows "\<exists>a' d'. task_exited (cluster_rpcs srvs live) dial_all eng wt (a, k, r, d) = (a', k', r, d') \<and> db_inv d'
    \<and> db_tasks d' = update_where (\<lambda>v. tID v = tID t) (\<lambda>v. exited_row (sv_env (srvs L) 0) limit (exit_code resp) t) (db_tasks d)
    \<and> \<not> tracked (tID t) a' \<and> agRunningGauge a' = agRunningGauge a - 1"
proof -
  note wc = well_connectedD [OF assms(2)]
  let ?code = "exit_code resp" and ?x = "finish (waTaskID wt) ((agExec a)\<lparr>xWaits := remove1 wt (xWaits (agExec a))\<rparr>)"
  let ?st = "if ?code = 0 then TaskStatusSucceeded else TaskStatusFailed"
  define res where "res = \<lparr>reTaskID = waTaskID wt, reRunID = waRunID wt, reStatus = TaskStatus_text ?st, reExitCode = ?code,
    reError = (if ?code = 0 then [] else ''exit code '' @ itoa ?code)\<rparr>"
  let ?b = "a\<lparr>agExec := ?x, agSpecs := mdelete (waTaskID wt) (agSpecs a), agRunningGauge := agRunningGauge a - 1,
    agObserved := agObserved a @ [reStatus res]\<rparr>"
  let ?u = "\<lparr>tsTaskId = waTaskID wt, tsStatus = reStatus res, tsExitCode = ?code, tsError = reError res,
    tsNodeId = agNodeID a, tsEpoch = agEpoch a\<rparr>"
  have wt: "wait_done eng wt (agExec a, k) = (res, ?x, k')"
    using assms(11) by (simp add: wait_done_def waitForExit_def res_def exit_code_def Let_def)
  have st: "report_status (reStatus res) = Some ?st" by (simp add: res_def report_status_def)
  have "report_table (sv_env (srvs L) 0) limit (update_params ?u ?st) t = Some (exited_row (sv_env (srvs L) 0) limit ?code t)"
    using assms(5) by (simp add: report_table_def update_params_def exited_row_def res_def Let_def)
  then obtain d' where d': "rpc_ReportTaskStatus (srvs L) ?u (r, d) = (Inr (), r, d')" "db_inv d'"
    "db_tasks d' = update_where (\<lambda>v. tID v = waTaskID wt) (\<lambda>v. exited_row (sv_env (srvs L) 0) limit ?code t) (db_tasks d)"
    using rpc_report_applied [OF assms(1) wc(5,7) assms(3), of ?u ?st limit] st assms(4,6-10) by auto
  have "well_connected L srvs live (agDialer ?b)" using assms(2) by simp
  from send_report_leader [OF this d'(1)] obtain dl where
    "send_report (cluster_rpcs srvs live) dial_all ?u (?b, r, d) = (?b\<lparr>agDialer := dl\<rparr>, r, d')" .
  moreover have "reTaskID res = waTaskID wt" "reExitCode res = ?code" by (simp_all add: res_def)
  ultimately have "task_exited (cluster_rpcs srvs live) dial_all eng wt (a, k, r, d) = (?b\<lparr>agDialer := dl\<rparr>, k', r, d')"
    using wt by (simp add: task_exited_def handleTaskDone_def)
  moreover have "\<not> tracked (tID t) (?b\<lparr>agDialer := dl\<rparr>)"
    by (auto simp: tracked_def assms(4) IsRunning_def finish_def mdelete_def)
  ultimately show ?thesis using d'(2,3) assms(4) by (intro exI [of _ "?b\<lparr>agDialer := dl\<rparr>"] exI [of _ d']) simp
qed

section \<open>The whole life\<close>



end
