(* ===== verification/Http_Api.thy ===== *)
theory Http_Api
  imports Grpc_Props Event_Fanout Docker_Util
begin

text \<open>
  \<^verbatim>\<open>src/internal/httpapi/api.go\<close>: the REST surface of the dashboard. A request is its method, path, query
  and (for submissions) its decoded JSON body, \<open>None\<close> when it does not decode; a response is its status and
  the value that is encoded as JSON. Routing follows the patterns of \<open>routes\<close>; everything else goes to the
  base handler. The theorems: a submission over HTTP and one over gRPC do the same, and the polling event
  stream is an \<open>event_feed\<close>.
\<close>

section \<open>Requests and responses\<close>

record submitJobBody =
  sbName :: string
  sbImage :: string
  sbCommand :: "string list"
  sbCPUMillicores :: int
  sbMemoryMB :: int
  sbReplicas :: int
  sbRetryLimit :: int
  sbSchedulingPolicy :: string
  sbConstraints :: strmap

record http_request =
  hqMethod :: string
  hqPath :: string
  hqQuery :: strmap
  hqBody :: "submitJobBody option"

record json_node =
  jnID :: string
  jnHostname :: string
  jnAddress :: string
  jnStatus :: string
  jnEpoch :: int
  jnLabels :: "strmap option"
  jnCapacity :: NodeResources
  jnAllocated :: NodeResources

datatype http_body =
    NoBody
  | ErrorJSON string
  | NotLeaderJSON string
  | NodesJSON "json_node list"
  | JobsJSON "Job list"
  | JobJSON Job
  | TasksJSON "Task list"
  | TaskJSON Task
  | LogsJSON bytes
  | EventsJSON "Event list"
  | EventStream "ClusterEvent list"
  | OtherBody string

record http_response =
  hsStatus :: int
  hsBody :: http_body

record 'k api =
  apEnv :: dbenv
  apDocker :: "'k engine option"
  apLeader :: "LeaderGate option"

definition writeJSON :: "int \<Rightarrow> http_body \<Rightarrow> http_response" where
  "writeJSON code v = \<lparr>hsStatus = code, hsBody = v\<rparr>"

definition http_requireLeader :: "LeaderGate option \<Rightarrow> http_response option" where
  "http_requireLeader leader =
     (case leader of
        None \<Rightarrow> None
      | Some l \<Rightarrow> if gIsLeader l then None else Some (writeJSON 409 (NotLeaderJSON (gLeaderAddr l))))"

section \<open>Queries\<close>

definition node_json :: "Node \<Rightarrow> NodeAllocation \<Rightarrow> json_node" where
  "node_json n a =
     \<lparr>jnID = nID n, jnHostname = nHostname n, jnAddress = nAddress n, jnStatus = NodeStatus_text (nStatus n),
      jnEpoch = nEpoch n, jnLabels = nLabels n,
      jnCapacity = \<lparr>nrCpuMillicores = nCPUCapacityMillicores n, nrMemoryMb = nMemCapacityMB n\<rparr>,
      jnAllocated = \<lparr>nrCpuMillicores = aCPUMillicores a, nrMemoryMb = aMemoryMB a\<rparr>\<rparr>"

definition handleListNodes :: "dbenv \<Rightarrow> db \<Rightarrow> http_response" where
  "handleListNodes env d =
     (case ListNodes env d of
        Inl e \<Rightarrow> writeJSON 500 (ErrorJSON (store_error_text e))
      | Inr nodes \<Rightarrow>
          (case GetNodeAllocations env d of
             Inl e \<Rightarrow> writeJSON 500 (ErrorJSON (store_error_text e))
           | Inr allocs \<Rightarrow> writeJSON 200 (NodesJSON (map (\<lambda>n. node_json n (alloc_at allocs (nID n))) nodes))))"

definition handleListJobs :: "dbenv \<Rightarrow> db \<Rightarrow> http_response" where
  "handleListJobs env d =
     (case ListJobs env d of
        Inl e \<Rightarrow> writeJSON 500 (ErrorJSON (store_error_text e))
      | Inr jobs \<Rightarrow> writeJSON 200 (JobsJSON jobs))"

definition handleGetJob :: "dbenv \<Rightarrow> string \<Rightarrow> db \<Rightarrow> http_response" where
  "handleGetJob env i d =
     (case GetJob env i d of
        Inl ErrJobNotFound \<Rightarrow> writeJSON 404 (ErrorJSON ''job not found'')
      | Inl e \<Rightarrow> writeJSON 500 (ErrorJSON (store_error_text e))
      | Inr job \<Rightarrow> writeJSON 200 (JobJSON job))"

definition handleListTasks :: "dbenv \<Rightarrow> strmap \<Rightarrow> db \<Rightarrow> http_response" where
  "handleListTasks env query d =
     (case ListTasks env (mget query ''job_id'') d of
        Inl e \<Rightarrow> writeJSON 500 (ErrorJSON (store_error_text e))
      | Inr tasks \<Rightarrow> writeJSON 200 (TasksJSON tasks))"

definition handleGetTask :: "dbenv \<Rightarrow> string \<Rightarrow> db \<Rightarrow> http_response" where
  "handleGetTask env i d =
     (case GetTask env i d of
        Inl ErrTaskNotFound \<Rightarrow> writeJSON 404 (ErrorJSON ''task not found'')
      | Inl e \<Rightarrow> writeJSON 500 (ErrorJSON (store_error_text e))
      | Inr task \<Rightarrow> writeJSON 200 (TaskJSON task))"

text \<open>A positive number in the query, or the default.\<close>

definition query_number :: "strmap \<Rightarrow> string \<Rightarrow> int \<Rightarrow> int" where
  "query_number query key dflt =
     (let v = mget query key in
      if v = [] then dflt
      else case ParseInt v of None \<Rightarrow> dflt | Some n \<Rightarrow> if 0 < n then n else dflt)"

definition handleTaskLogs ::
  "'k engine option \<Rightarrow> string \<Rightarrow> strmap \<Rightarrow> 'k \<Rightarrow> http_response \<times> 'k" where
  "handleTaskLogs docker i query k =
     (case docker of
        None \<Rightarrow> (writeJSON 503 (ErrorJSON ''docker client unavailable''), k)
      | Some eng \<Rightarrow>
          (case TaskLogs eng i (query_number query ''tail'' 200) k of
             (Inl (DockerError e), k') \<Rightarrow> (writeJSON 500 (ErrorJSON e), k')
           | (Inr None, k') \<Rightarrow>
               (writeJSON 404 (ErrorJSON ''no container found for task (may have exited and been auto-removed)''), k')
           | (Inr (Some logs), k') \<Rightarrow> (writeJSON 200 (LogsJSON logs), k')))"

definition handleListEvents :: "dbenv \<Rightarrow> strmap \<Rightarrow> db \<Rightarrow> http_response" where
  "handleListEvents env query d =
     (case ListRecentEvents env (query_number query ''limit'' 50) d of
        Inl e \<Rightarrow> writeJSON 500 (ErrorJSON (store_error_text e))
      | Inr events \<Rightarrow> writeJSON 200 (EventsJSON events))"

section \<open>Submission\<close>

definition http_submit_params :: "submitJobBody \<Rightarrow> CreateJobParams" where
  "http_submit_params body =
     \<lparr>cName = sbName body, cImage = sbImage body, cCommand = sbCommand body,
      cCPURequestMillicores = sbCPUMillicores body, cMemRequestMB = sbMemoryMB body,
      cReplicas = (if sbReplicas body \<le> 0 then 1 else sbReplicas body),
      cRetryLimit = (if sbRetryLimit body \<le> 0 then 3 else sbRetryLimit body),
      cSchedulingPolicy = (if sbSchedulingPolicy body = [] then SchedulingPolicyBinPack
                           else sbSchedulingPolicy body),
      cConstraints = sbConstraints body\<rparr>"

definition handleSubmitJob ::
  "dbenv \<Rightarrow> LeaderGate option \<Rightarrow> submitJobBody option \<Rightarrow> db \<Rightarrow> http_response \<times> db" where
  "handleSubmitJob env leader rbody d =
     (case http_requireLeader leader of
        Some resp \<Rightarrow> (resp, d)
      | None \<Rightarrow>
          (case rbody of
             None \<Rightarrow> (writeJSON 400 (ErrorJSON ''invalid JSON body''), d)
           | Some body \<Rightarrow>
               if sbName body = [] \<or> sbImage body = [] \<or> sbCPUMillicores body \<le> 0 \<or> sbMemoryMB body \<le> 0
               then (writeJSON 400 (ErrorJSON ''name, image, cpu_millicores, and memory_mb are required''), d)
               else (case CreateJob env (http_submit_params body) d of
                       (Inl e, d') \<Rightarrow> (writeJSON 500 (ErrorJSON (store_error_text e)), d')
                     | (Inr job, d') \<Rightarrow> (writeJSON 201 (JobJSON job), d'))))"

section \<open>The event stream\<close>

text \<open>
  The stream is a list of frames, each with the fields of the event as text. It starts with recent history;
  then come the events of the Redis channel up to its end (\<open>sub\<close>), or, without Redis or when the
  subscription fails (\<open>None\<close>), the polling loop: \<open>poll_start\<close> is the id it starts from and \<open>poll_turn\<close> one
  tick. \<open>t\<close> and \<open>ts\<close> are what the loop meets at its start and at each tick.
\<close>

definition writeSSE :: "Event \<Rightarrow> ClusterEvent" where
  "writeSSE ev =
     \<lparr>ceID = eID ev, ceEntityType = EntityType_text (eEntityType ev), ceEntityID = eEntityID ev,
      ceEventType = EventType_text (eEventType ev), ceMessage = eMessage ev, ceCreatedAt = eCreatedAt ev\<rparr>"

definition stream_snapshot :: "dbenv \<Rightarrow> db \<Rightarrow> ClusterEvent list" where
  "stream_snapshot env d = (case ListRecentEvents env 30 d of Inl e \<Rightarrow> [] | Inr recent \<Rightarrow> map writeSSE recent)"

definition poll_start :: "dbenv \<Rightarrow> db \<Rightarrow> int" where
  "poll_start env d =
     (case ListRecentEvents env 1 d of
        Inl e \<Rightarrow> 0
      | Inr recent \<Rightarrow> if recent = [] then 0 else eID (last recent))"

definition poll_turn :: "dbenv \<times> db \<Rightarrow> int \<Rightarrow> ClusterEvent list \<times> int" where
  "poll_turn t afterID =
     (case ListEventsAfter (fst t) afterID 100 (snd t) of
        Inl e \<Rightarrow> ([], afterID)
      | Inr events \<Rightarrow> (map writeSSE events, fold (\<lambda>ev a. eID ev) events afterID))"

definition pollEventsSSE :: "dbenv \<times> db \<Rightarrow> (dbenv \<times> db) list \<Rightarrow> ClusterEvent list" where
  "pollEventsSSE t ts = fst (feed_run poll_turn ts (poll_start (fst t) (snd t)))"

definition handleEventsStream ::
  "dbenv \<Rightarrow> db \<Rightarrow> ClusterEvent list option \<Rightarrow> dbenv \<times> db \<Rightarrow> (dbenv \<times> db) list \<Rightarrow> ClusterEvent list" where
  "handleEventsStream env d sub t ts =
     stream_snapshot env d @ (case sub of Some evs \<Rightarrow> evs | None \<Rightarrow> pollEventsSSE t ts)"

section \<open>Routing\<close>

datatype route =
    RListNodes | RListJobs | RGetJob string | RSubmitJob | RListTasks | RGetTask string | RTaskLogs string
  | RListEvents | REventsStream | RBase

text \<open>A \<^verbatim>\<open>GET\<close> pattern also matches \<^verbatim>\<open>HEAD\<close>; a wildcard matches one non-empty segment.\<close>

definition route_of :: "string \<Rightarrow> string \<Rightarrow> route" where
  "route_of meth path =
     (let get = (meth = ''GET'' \<or> meth = ''HEAD'') in
      case Split CHR ''/'' path of
        [r, a, v, x] \<Rightarrow>
          if r \<noteq> [] \<or> a \<noteq> ''api'' \<or> v \<noteq> ''v1'' then RBase
          else if get \<and> x = ''nodes'' then RListNodes
          else if get \<and> x = ''jobs'' then RListJobs
          else if meth = ''POST'' \<and> x = ''jobs'' then RSubmitJob
          else if get \<and> x = ''tasks'' then RListTasks
          else if get \<and> x = ''events'' then RListEvents
          else RBase
      | [r, a, v, x, y] \<Rightarrow>
          if r \<noteq> [] \<or> a \<noteq> ''api'' \<or> v \<noteq> ''v1'' \<or> \<not> get \<or> y = [] then RBase
          else if x = ''jobs'' then RGetJob y
          else if x = ''tasks'' then RGetTask y
          else if x = ''events'' \<and> y = ''stream'' then REventsStream
          else RBase
      | [r, a, v, x, y, z] \<Rightarrow>
          if r \<noteq> [] \<or> a \<noteq> ''api'' \<or> v \<noteq> ''v1'' \<or> \<not> get \<or> y = [] then RBase
          else if x = ''tasks'' \<and> z = ''logs'' then RTaskLogs y
          else RBase
      | _ \<Rightarrow> RBase)"

text \<open>The handler with its CORS wrapper. A stream response is the snapshot it starts with.\<close>

definition http_handle ::
  "'k api \<Rightarrow> (http_request \<Rightarrow> http_response) \<Rightarrow> http_request \<Rightarrow> 'k \<times> db \<Rightarrow> http_response \<times> 'k \<times> db" where
  "http_handle api base req = (\<lambda>(k, d).
     if hqMethod req = ''OPTIONS'' then (writeJSON 204 NoBody, k, d)
     else case route_of (hqMethod req) (hqPath req) of
       RListNodes \<Rightarrow> (handleListNodes (apEnv api) d, k, d)
     | RListJobs \<Rightarrow> (handleListJobs (apEnv api) d, k, d)
     | RGetJob i \<Rightarrow> (handleGetJob (apEnv api) i d, k, d)
     | RSubmitJob \<Rightarrow> (case handleSubmitJob (apEnv api) (apLeader api) (hqBody req) d of (resp, d') \<Rightarrow> (resp, k, d'))
     | RListTasks \<Rightarrow> (handleListTasks (apEnv api) (hqQuery req) d, k, d)
     | RGetTask i \<Rightarrow> (handleGetTask (apEnv api) i d, k, d)
     | RTaskLogs i \<Rightarrow> (case handleTaskLogs (apDocker api) i (hqQuery req) k of (resp, k') \<Rightarrow> (resp, k', d))
     | RListEvents \<Rightarrow> (handleListEvents (apEnv api) (hqQuery req) d, k, d)
     | REventsStream \<Rightarrow> (writeJSON 200 (EventStream (stream_snapshot (apEnv api) d)), k, d)
     | RBase \<Rightarrow> (base req, k, d))"

section \<open>Properties\<close>

text \<open>The gRPC request with the same content, and the HTTP status of each code the handlers answer with.\<close>

definition as_rpc :: "submitJobBody \<Rightarrow> SubmitJobRequest" where
  "as_rpc body =
     \<lparr>sjName = sbName body, sjImage = sbImage body, sjCommand = sbCommand body,
      sjRequest = Some \<lparr>nrCpuMillicores = sbCPUMillicores body, nrMemoryMb = sbMemoryMB body\<rparr>,
      sjReplicas = sbReplicas body, sjRetryLimit = sbRetryLimit body,
      sjSchedulingPolicy = sbSchedulingPolicy body, sjConstraints = sbConstraints body\<rparr>"

fun status_of_code :: "Code \<Rightarrow> int" where
  "status_of_code InvalidArgument = 400"
| "status_of_code NotFound = 404"
| "status_of_code FailedPrecondition = 409"
| "status_of_code _ = 500"

lemma submit_params_agree:
  "submit_params (as_rpc body) (if sbSchedulingPolicy body = [] then SchedulingPolicyBinPack
     else sbSchedulingPolicy body) = http_submit_params body"
  by (simp add: submit_params_def as_rpc_def http_submit_params_def GetCpuMillicores_def GetMemoryMb_def
      defaultReplicas_def defaultRetryLimit_def)


text \<open>Only an accepted submission changes the database.\<close>

lemma handleSubmitJob_cases:
  assumes "handleSubmitJob env leader rbody d = (resp, d')"
  shows "hsStatus resp \<in> {400, 409, 500} \<and> d' = d
    \<or> (\<exists>body job. rbody = Some body \<and> gate_open leader \<and> hsStatus resp = 201
         \<and> CreateJob env (http_submit_params body) d = (Inr job, d'))"
proof (cases "http_requireLeader leader")
  case None
  then have "gate_open leader" by (auto simp: http_requireLeader_def split: option.splits if_splits)
  with None assms show ?thesis
    by (auto simp: handleSubmitJob_def writeJSON_def split: option.splits if_splits prod.splits sum.splits
        dest: CreateJob_error)
next
  case (Some r)
  with assms show ?thesis
    by (auto simp: handleSubmitJob_def http_requireLeader_def writeJSON_def split: option.splits if_splits)
qed

definition query_statuses :: "int set" where
  "query_statuses = {200, 404, 500, 503}"

lemma query_status:
  "hsStatus (handleListNodes env d) \<in> query_statuses" "hsStatus (handleListJobs env d) \<in> query_statuses"
  "hsStatus (handleGetJob env i d) \<in> query_statuses" "hsStatus (handleListTasks env q d) \<in> query_statuses"
  "hsStatus (handleGetTask env i d) \<in> query_statuses" "hsStatus (handleListEvents env q d) \<in> query_statuses"
  "hsStatus (fst (handleTaskLogs docker i q k)) \<in> query_statuses"
  by (auto simp: handleListNodes_def handleListJobs_def handleGetJob_def handleListTasks_def handleGetTask_def
      handleListEvents_def handleTaskLogs_def writeJSON_def query_statuses_def
      split: sum.splits store_error.splits option.splits prod.splits docker_error.splits)

text \<open>
  C26: Every request is well answered. A request on a path of the API is answered with one of the statuses the
  handlers declare, leaves a well-formed database well-formed, and changes it only as a submission by
  \<^verbatim>\<open>POST\<close> that the leader accepts with status 201.
\<close>

theorem http_request_typed:
  assumes "http_handle api base req (k, d) = (resp, k', d')" and "db_inv d"
  shows "db_inv d'
    \<and> (hqMethod req \<noteq> ''OPTIONS'' \<and> route_of (hqMethod req) (hqPath req) = RBase \<and> resp = base req \<and> d' = d \<and> k' = k
       \<or> hsStatus resp \<in> {200, 201, 204, 400, 404, 409, 500, 503})
    \<and> (d' \<noteq> d \<longrightarrow> route_of (hqMethod req) (hqPath req) = RSubmitJob \<and> hsStatus resp = 201 \<and> gate_open (apLeader api))"
proof (cases "hqMethod req = ''OPTIONS''")
  case True
  with assms show ?thesis by (auto simp: http_handle_def writeJSON_def)
next
  case False
  show ?thesis
  proof (cases "route_of (hqMethod req) (hqPath req) = RSubmitJob")
    case True
    with False assms(1) have "handleSubmitJob (apEnv api) (apLeader api) (hqBody req) d = (resp, d')"
      by (auto simp: http_handle_def split: prod.splits)
    from handleSubmitJob_cases [OF this] True assms(2) show ?thesis
      by (auto dest: createjob.keeps_inv)
  next
    case nosub: False
    then have same: "d' = d" using False assms(1)
      by (auto simp: http_handle_def split: route.splits prod.splits)
    show ?thesis
    proof (cases "route_of (hqMethod req) (hqPath req) = RBase")
      case True
      with False same assms show ?thesis by (auto simp: http_handle_def)
    next
      case nobase: False
      have "hsStatus resp \<in> query_statuses"
      proof (cases "route_of (hqMethod req) (hqPath req)")
        case (RTaskLogs i)
        then have "resp = fst (handleTaskLogs (apDocker api) i (hqQuery req) k)" using False assms(1)
          by (auto simp: http_handle_def split: prod.splits)
        then show ?thesis by (simp only: query_status(7))
      next
        case REventsStream
        with False assms(1) have "hsStatus resp = 200" by (auto simp: http_handle_def writeJSON_def)
        then show ?thesis by (simp add: query_statuses_def)
      qed (use False nosub nobase assms(1) in \<open>auto simp: http_handle_def query_status\<close>)
      with same assms(2) show ?thesis by (auto simp: query_statuses_def)
    qed
  qed
qed

definition sample_body :: submitJobBody where
  "sample_body = \<lparr>sbName = ''batch'', sbImage = ''busybox'', sbCommand = [''true''], sbCPUMillicores = 100,
     sbMemoryMB = 64, sbReplicas = 0, sbRetryLimit = 0, sbSchedulingPolicy = [], sbConstraints = []\<rparr>"

definition sample_post :: http_request where
  "sample_post = \<lparr>hqMethod = ''POST'', hqPath = ''/api/v1/jobs'', hqQuery = [], hqBody = Some sample_body\<rparr>"

definition sample_api :: "(RawContainer list \<times> nat) api" where
  "sample_api = \<lparr>apEnv = sample_env, apDocker = Some list_engine, apLeader = None\<rparr>"

definition not_found :: "http_request \<Rightarrow> http_response" where
  "not_found _ = \<lparr>hsStatus = 404, hsBody = OtherBody ''404 page not found''\<rparr>"


theorem http_request_typed_witness:
  "\<exists>resp d'. http_handle sample_api not_found sample_post (([], 0), sample_db) = (resp, ([], 0), d')
     \<and> db_inv d' \<and> hsStatus resp \<in> {200, 201, 204, 400, 404, 409, 500, 503}"
proof -
  have r: "route_of ''POST'' ''/api/v1/jobs'' = RSubmitJob" by (simp add: route_of_def)
  obtain resp k' d' where h: "http_handle sample_api not_found sample_post (([], 0), sample_db) = (resp, k', d')"
    by (metis prod_cases3)
  then have "k' = ([], 0)" by (auto simp: http_handle_def sample_post_def r split: prod.splits)
  with http_request_typed [OF h sample_inv] h r show ?thesis by (auto simp: sample_post_def)
qed

text \<open>
  With any other policy the two differ: gRPC names the bad argument, HTTP answers that the server failed.
\<close>

lemma bad_policy_http:
  "hsStatus (fst (handleSubmitJob sample_env None (Some (sample_body\<lparr>sbSchedulingPolicy := ''fifo''\<rparr>)) sample_db)) = 500"
  "\<exists>msg. fst (rpc_SubmitJob (sample_srv None) (as_rpc (sample_body\<lparr>sbSchedulingPolicy := ''fifo''\<rparr>))
      (\<lambda>_. None, sample_db)) = Inl (Status InvalidArgument msg)"
  by (simp_all add: handleSubmitJob_def http_requireLeader_def sample_body_def CreateJob_def healthy_in_tx
      http_submit_params_def new_job_def job_row_ok_def in_i64_def in_i32_def SchedulingPolicyBinPack_def
      SchedulingPolicySpread_def healthy_sample writeJSON_def rpc_SubmitJob_def requireLeader_def sample_srv_def
      as_rpc_def GetCpuMillicores_def GetMemoryMb_def Let_def)

section \<open>The event stream without gaps\<close>

lemma fold_last_id: "fold (\<lambda>ev a. eID ev) evs a = (if evs = [] then a else eID (last evs))"
  by (induction evs arbitrary: a) auto

interpretation poll_feed: event_feed poll_turn snd "\<lambda>_. True" writeSSE
proof (unfold_locales, goal_cases)
  case (1 t a out b)
  show ?case
  proof (cases "ListEventsAfter (fst t) a 100 (snd t)")
    case (Inl e)
    with 1(3) show ?thesis by (auto simp: poll_turn_def window_def)
  next
    case (Inr evs)
    with 1(3) have "out = map writeSSE evs" "b = (if evs = [] then a else eID (last evs))"
      by (auto simp: poll_turn_def fold_last_id)
    with page_window [OF 1(2) _ Inr] show ?thesis by simp
  qed
qed

lemma recent_events:
  assumes "events_ok d" and "\<not> db_fault env ''store: list recent events''" and "0 < n"
  shows "ListRecentEvents env n d = Inr (drop (length (db_events d) - nat n) (db_events d))"
  using assms strict_sorted_ids [of "db_events d"]
  by (simp add: ListRecentEvents_def pool_query_def events_ok_def rev_take Let_def)

text \<open>The id the polling loop starts from is that of the newest event.\<close>

lemma poll_start_newest:
  assumes "events_ok d" and "\<not> db_fault env ''store: list recent events''"
  shows "poll_start env d = (if db_events d = [] then 0 else eID (last (db_events d)))"
  using recent_events [OF assms, of 1] by (cases "db_events d") (simp_all add: poll_start_def last_drop)

text \<open>Everything up to an id at or past the newest event of \<open>d\<close> is \<open>d\<close>'s trail and the window after it.\<close>

lemma window_from_newest:
  assumes "events_ok d" and "events_grow d d'" and "0 < db_event_seq d"
    and "s = (if db_events d = [] then 0 else eID (last (db_events d)))" and "s \<le> b"
  shows "s < db_event_seq d
    \<and> filter (\<lambda>e. eID e \<le> b) (db_events d') = db_events d @ window s b d'"
proof -
  from assms(2) obtain evs where evs: "db_events d' = db_events d @ evs"
    "map eID evs = map (\<lambda>i. db_event_seq d + int i) [0..<length evs]" by (auto simp: events_grow_def)
  have less: "s < db_event_seq d" using assms(1,3,4) by (auto simp: events_ok_def)
  have new: "s < eID e" if "e \<in> set evs" for e
  proof -
    from that have "eID e \<in> set (map eID evs)" by simp
    then show ?thesis using less unfolding evs(2) by auto
  qed
  have old: "eID e \<le> s" if "e \<in> set (db_events d)" for e
  proof -
    from that obtain ys l where l: "db_events d = ys @ [l]" by (cases "db_events d" rule: rev_cases) auto
    with that assms(1,4) show ?thesis by (auto simp: events_ok_def sorted_wrt_append less_imp_le)
  qed
  have "filter (\<lambda>e. eID e \<le> b) (db_events d) = db_events d"
    "filter (\<lambda>e. s < eID e \<and> eID e \<le> b) (db_events d) = []"
    using old assms(5) by (fastforce intro: filter_True, fastforce simp: filter_empty_conv)
  moreover have "filter (\<lambda>e. s < eID e \<and> eID e \<le> b) evs = filter (\<lambda>e. eID e \<le> b) evs"
    using new by (intro filter_cong) auto
  ultimately show ?thesis using less by (simp add: window_def evs(1))
qed

text \<open>A poll that succeeds with at most a page of news leaves nothing behind.\<close>

lemma feed_run_append:
  "feed_run turn (ts @ ts') a = (let (out, b) = feed_run turn ts a; (out', c) = feed_run turn ts' b in (out @ out', c))"
  by (induction ts arbitrary: a) (auto simp: Let_def split: prod.splits)

lemma poll_catches_up:
  assumes "events_ok d" and "\<not> db_fault env ''store: list events after''"
    and "length (filter (\<lambda>e. a < eID e) (db_events d)) \<le> 100"
    and "poll_turn (env, d) a = (out, b)" and "e \<in> set (db_events d)"
  shows "eID e \<le> b"
proof -
  let ?new = "filter (\<lambda>e. a < eID e) (db_events d)"
  have s: "sorted_wrt (<) (map eID ?new)" using assms(1) by (auto simp: events_ok_def intro: filter_sorted_ids)
  have "ListEventsAfter env a 100 d = Inr ?new"
    using assms(2,3) by (simp add: ListEventsAfter_def pool_query_def strict_sorted_ids [OF s])
  with assms(4) have b: "b = (if ?new = [] then a else eID (last ?new))"
    by (auto simp: poll_turn_def fold_last_id)
  show ?thesis
  proof (cases "e \<in> set ?new")
    case True
    then obtain ys l where l: "?new = ys @ [l]" by (cases ?new rule: rev_cases) auto
    have "eID e \<le> eID l" using s True unfolding l by (auto simp: sorted_wrt_append less_imp_le)
    with l b show ?thesis by simp
  next
    case False
    with assms(5) have "eID e \<le> a" by (auto simp: not_less)
    moreover have "a \<le> b" using poll_feed.turn_window [OF _ _ assms(4)] assms(1) by simp
    ultimately show ?thesis by simp
  qed
qed

lemma feed_catches_up:
  assumes "events_ok d0" and "a < db_event_seq d0" and "grows_from d0 (map snd (ts @ [(env, d)]))"
    and "\<not> db_fault env ''store: list events after''"
    and "length (filter (\<lambda>e. a < eID e) (db_events d)) \<le> 100"
    and "feed_run poll_turn (ts @ [(env, d)]) a = (out, b)" and "e \<in> set (db_events d)"
  shows "eID e \<le> b"
proof -
  have pre: "grows_from x (xs @ ys) \<Longrightarrow> grows_from x xs" for x xs ys by (induction xs arbitrary: x) auto
  obtain o1 a1 where r1: "feed_run poll_turn ts a = (o1, a1)" by fastforce
  then obtain o2 where t: "poll_turn (env, d) a1 = (o2, b)"
    using assms(6) by (auto simp: feed_run_append Let_def split: prod.splits)
  have "grows_from d0 (map snd ts)" using assms(3) pre [of d0 "map snd ts"] by simp
  from poll_feed.run_window [OF assms(1,2) this _ r1] have "a \<le> a1" by (auto simp: list.pred_True)
  then have "filter (\<lambda>e. a1 < eID e) (db_events d) = filter (\<lambda>e. a1 < eID e) (filter (\<lambda>e. a < eID e) (db_events d))"
    by (auto intro!: filter_cong)
  then have "length (filter (\<lambda>e. a1 < eID e) (db_events d)) \<le> length (filter (\<lambda>e. a < eID e) (db_events d))"
    by (metis length_filter_le)
  moreover have "events_ok d" using grows_last [OF assms(1,3)] by simp
  ultimately show ?thesis using poll_catches_up [OF _ assms(4) _ t assms(7)] assms(5) by simp
qed


definition one_event :: db where
  "one_event = two_events\<lparr>db_events := take 1 (db_events two_events), db_event_seq := 2\<rparr>"


text \<open>An event committed between the two reads is in neither: the stream skips it.\<close>

lemma stream_gap:
  "handleEventsStream sample_env one_event None (sample_env, two_events) [(sample_env, two_events)]
    = [writeSSE (db_events two_events ! 0)]"
  by (simp add: handleEventsStream_def stream_snapshot_def pollEventsSSE_def poll_start_def poll_turn_def
      ListRecentEvents_def ListEventsAfter_def pool_query_def one_event_def two_events_def Let_def)

text \<open>
  With Redis the dashboards see what the leader fans out: when a subscriber receives what was published during
  its subscription, its stream is the snapshot and then exactly the events the fanout passed in that time,
  each once and in order.
\<close>

lemma live_stream_window:
  assumes "events_ok d0" and "a < db_event_seq d0" and "grows_from d0 (map tick_db ticks)"
    and "list_all (\<lambda>t. \<forall>i. \<not> tick_fault t i) ticks" and "fanout_run ticks a = (out, b)"
    and "\<And>ev. decode (encode ev) = Some ev"
    and "SubscribeClusterEvents decode (Some (map encode out)) = Inr evs"
  shows "handleEventsStream env d (Some evs) t ts
    = stream_snapshot env d @ map writeSSE (window a b (last (d0 # map tick_db ticks)))"
proof -
  have "writeSSE = to_cluster_event" by (simp add: fun_eq_iff writeSSE_def to_cluster_event_def)
  moreover have "evs = out" using subscribed_published(1) [OF assms(6), of out] assms(7) by simp
  moreover have "out = map to_cluster_event (window a b (last (d0 # map tick_db ticks)))"
    using fanout_feed.run_window [OF assms(1-4)] assms(5) by (simp add: fanout_run_feed)
  ultimately show ?thesis by (simp add: handleEventsStream_def)
qed

end
