(* ===== verification/Transactions.thy ===== *)
theory Transactions
  imports Scheduler_Tick Failure_Detector Grpc_Props Autoscaler Http_Api
begin

text \<open>
  What the components of a replica do to the database. Apart from the election and the scheduling batch,
  everything they do goes through six transactions of \<^verbatim>\<open>src/internal/store\<close>. The locale \<open>transaction_relation\<close>
  is a relation between database states that each of the six stays within and that composes; it is then kept by
  a turn of the failure detector and of the autoscaler, by each mutating RPC and by each HTTP request, whatever
  fails in them. \<open>Cluster\<close> and \<open>Control_Plane\<close> interpret it.
\<close>

locale transaction_relation =
  fixes R :: "db \<Rightarrow> db \<Rightarrow> bool"
  assumes refl: "R d d"
    and trans: "R a b \<Longrightarrow> R b c \<Longrightarrow> R a c"
    and registers: "R d (snd (RegisterNode env p d))"
    and restates: "R d (snd (UpdateNodeStatus env nid st evt msg d))"
    and dies: "R d (snd (MarkNodeDead env nid d))"
    and submits: "R d (snd (CreateJob env q d))"
    and reports: "R d (snd (UpdateTaskStatus env u d))"
    and logs: "R d (snd (InsertEvent env ety eid evt msg d))"
begin

lemmas transactions = refl registers restates dies submits reports logs

lemma detector_evaluate: "R d (snd (evaluate Rd cenv clk cfg docker env r n d))"
  by (auto simp: evaluate_db transactions split: sum.splits)

lemma detector_all: "R d (snd (evaluate_all Rd cenv clk cfg docker env r ns d))"
proof (induction ns arbitrary: d)
  case (Cons n ns)
  from trans [OF detector_evaluate Cons.IH] show ?case by (simp only: evaluate_all_Cons)
qed (simp add: refl)

lemma detector_swept: "R d (snd (detector_tick Rd cenv clk cfg docker g env env0 r d))"
  by (auto simp: detector_tick_def detector_all refl split: sum.splits)

lemma update_applied: "R d (snd (applyTaskStatusUpdate env u d))"
  by (auto simp: applyTaskStatusUpdate_db transactions split: option.splits)

lemma updates_applied: "R d (snd (apply_updates env i us d))"
proof (induction us arbitrary: i d)
  case (Cons u us)
  obtain st d1 where u: "applyTaskStatusUpdate (env (Suc i)) u d = (st, d1)" by fastforce
  then have "R d d1" using update_applied [of d "env (Suc i)" u] by simp
  then show ?case using u trans [OF _ Cons.IH] by (cases st) auto
qed (simp add: refl)

lemma node_recovered: "R d (snd (recover env node d))"
  by (simp add: recover_def transactions)

lemma heartbeat: "R d (snd (snd (rpc_Heartbeat srv req (r, d))))"
proof -
  obtain res r' d' where h: "rpc_Heartbeat srv req (r, d) = (res, r', d')" by (metis prod_cases3)
  then have "R d d'"
    by (cases rule: heartbeat_cases) (auto intro: updates_applied trans node_recovered refl)
  with h show ?thesis by simp
qed

lemma register: "R d (snd (snd (rpc_RegisterNode srv req (r, d))))"
  using registers [of d "sv_env srv 0"]
  by (auto simp: rpc_RegisterNode_def refl split: option.splits prod.splits sum.splits cache_error.splits)
     (metis snd_conv)+

lemma submit: "R d (snd (snd (rpc_SubmitJob srv req (r, d))))"
  using submits [of d "sv_env srv 0"]
  by (auto simp: rpc_SubmitJob_def Let_def refl split: option.splits prod.splits sum.splits) (metis snd_conv)+

lemma report: "R d (snd (snd (rpc_ReportTaskStatus srv req (r, d))))"
  using update_applied [of d "sv_env srv 0" req]
  by (auto simp: rpc_ReportTaskStatus_def refl split: option.splits prod.splits)

lemma scaled_down: "scaleDown eng env n k d = (e, k', d') \<Longrightarrow> R d d'"
proof -
  assume call: "scaleDown eng env n k d = (e, k', d')"
  define d1 where "d1 = (if nStatus n \<noteq> NodeStatusCordoned
      then snd (UpdateNodeStatus env (nID n) NodeStatusCordoned EventTypeNodeCordoned
             (''autoscaler cordoning idle node '' @ nHostname n @ '' before reclaim'') d) else d)"
  have "R d d1" by (simp add: d1_def transactions)
  moreover have "R d1 d'"
    using call trans [OF dies logs]
    by (auto simp: scaleDown_def d1_def Let_def transactions split: prod.splits sum.splits option.splits if_splits)
  ultimately show ?thesis by (rule trans)
qed

lemma reclaimed: "reclaim_loop eng env now allocs ns r k d = (e, r', k', d') \<Longrightarrow> R d d'"
proof (induction ns arbitrary: r)
  case (Cons n ns)
  then show ?case
    by (auto simp: Let_def refl split: if_splits prod.splits option.splits dest: scaled_down)
qed (simp add: refl)

lemma scaled_up: "scaleUp eng env r k d = (e, r', k', d') \<Longrightarrow> R d d'"
  by (auto simp: scaleUp_def Let_def transactions split: prod.splits sum.splits)

lemma autoscaler_ticked:
  "autoscaler_tick getenv hostname eng env now r k d = (e, r', k', d') \<Longrightarrow> R d d'"
  by (auto simp: autoscaler_tick_def Let_def refl split: prod.splits sum.splits if_splits option.splits
      dest: scaled_up reclaimed)

lemma autoscaler_turned: "R d (snd (snd (autoscaler_turn getenv hostname eng env now g (au, k, d))))"
proof -
  obtain e' au' k' d' where "autoscaler_tick getenv hostname eng env now au k d = (e', au', k', d')"
    by (metis prod_cases4)
  then show ?thesis using autoscaler_ticked by (auto simp: autoscaler_turn_def refl)
qed

lemma http_submit: "R d (snd (handleSubmitJob env leader rbody d))"
proof -
  obtain resp d' where h: "handleSubmitJob env leader rbody d = (resp, d')" by fastforce
  from handleSubmitJob_cases [OF h] show ?thesis
  proof
    assume "hsStatus resp \<in> {400, 409, 500} \<and> d' = d"
    with h show ?thesis by (simp add: refl)
  next
    assume "\<exists>body job. rbody = Some body \<and> gate_open leader \<and> hsStatus resp = 201
      \<and> CreateJob env (http_submit_params body) d = (Inr job, d')"
    with h submits [of d env] show ?thesis by (metis snd_conv)
  qed
qed

lemma http: "R d (snd (snd (http_handle api base req (k, d))))"
  using http_submit [of d] by (auto simp: http_handle_def refl split: route.splits prod.splits) (metis snd_conv)

end

end
