(* ===== verification/Cluster.thy ===== *)
theory Cluster
  imports Transactions Election
begin

text \<open>
  The whole control plane as one transition system. Every component acts on the shared database only
  through the transactions of \<^verbatim>\<open>src/internal/store\<close>, so a step is one such transaction, by any replica,
  with any arguments and any failures: an interleaving of all replicas' RPC handlers and loops is a run of
  \<open>cluster_step\<close>. The scheduler's batch is placed on node rows it read in an earlier step (\<open>clSnaps\<close>).
  \<open>later\<close> is what no run undoes. The locale \<open>history_method\<close> adds it to the contract of the store's methods.
\<close>

section \<open>Histories\<close>

text \<open>
  A task row may become: never another task, never with fewer retries, and never anything else once it
  has succeeded or failed.
\<close>

definition task_later :: "Task \<Rightarrow> Task \<Rightarrow> bool" where
  "task_later t t' \<longleftrightarrow> tID t' = tID t \<and> tJobID t' = tJobID t \<and> tRetriesUsed t \<le> tRetriesUsed t'
     \<and> (tStatus t \<notin> {TaskStatusPending, TaskStatusScheduled, TaskStatusRunning} \<longrightarrow> t' = t)"

definition tasks_later :: "Task list \<Rightarrow> Task list \<Rightarrow> bool" where
  "tasks_later ts ts' \<longleftrightarrow> (\<forall>t \<in> set ts. \<exists>t' \<in> set ts'. task_later t t')"

definition lease_later :: "LeaderLease option \<Rightarrow> LeaderLease option \<Rightarrow> bool" where
  "lease_later l l' \<longleftrightarrow> (case l of None \<Rightarrow> True
     | Some x \<Rightarrow> (case l' of None \<Rightarrow> False | Some y \<Rightarrow> lEpoch x \<le> lEpoch y))"

definition later :: "db \<Rightarrow> db \<Rightarrow> bool" where
  "later d d' \<longleftrightarrow> tasks_later (db_tasks d) (db_tasks d') \<and> set (db_jobs d) \<subseteq> set (db_jobs d')
     \<and> epochs_le (db_nodes d) (db_nodes d') \<and> events_grow d d' \<and> lease_later (db_lease d) (db_lease d')"

lemma task_later_refl [simp]: "task_later t t"
  by (simp add: task_later_def)

lemma task_later_trans: "task_later a b \<Longrightarrow> task_later b c \<Longrightarrow> task_later a c"
  by (auto simp: task_later_def)

lemma tasks_later_refl [simp]: "tasks_later ts ts"
  unfolding tasks_later_def using task_later_refl by blast

lemma tasks_later_trans: "tasks_later a b \<Longrightarrow> tasks_later b c \<Longrightarrow> tasks_later a c"
  unfolding tasks_later_def by (meson task_later_trans)

lemma tasks_later_append: "tasks_later ts (ts @ us)"
  unfolding tasks_later_def set_append using task_later_refl by blast

lemma tasks_later_update:
  assumes "\<And>t. t \<in> set ts \<Longrightarrow> P t \<Longrightarrow> task_later t (f t)"
  shows "tasks_later ts (update_where P f ts)"
  unfolding tasks_later_def
proof
  fix t assume t: "t \<in> set ts"
  then have "(if P t then f t else t) \<in> set (update_where P f ts)" by (simp add: set_update_where)
  moreover from t assms have "task_later t (if P t then f t else t)" by simp
  ultimately show "\<exists>t' \<in> set (update_where P f ts). task_later t t'" by blast
qed

lemma lease_later_refl [simp]: "lease_later l l"
  by (simp add: lease_later_def split: option.splits)

lemma later_refl [simp]: "later d d"
  by (simp add: later_def)

lemma later_trans: "later a b \<Longrightarrow> later b c \<Longrightarrow> later a c"
  unfolding later_def
  by (auto intro: tasks_later_trans epochs_le_trans events_grow_trans)
     (auto simp: lease_later_def split: option.splits)

section \<open>Every store method keeps the history\<close>

locale history_method = store_method meth
  for meth :: "dbenv \<Rightarrow> 'p \<Rightarrow> db \<Rightarrow> (store_error + 'r) \<times> db" +
  assumes keeps_tasks: "meth env p d = (Inr r, d') \<Longrightarrow> db_inv d \<Longrightarrow>
    tasks_later (db_tasks d) (db_tasks d') \<and> set (db_jobs d) \<subseteq> set (db_jobs d') \<and> lease_later (db_lease d) (db_lease d')"
begin

lemma call_later:
  assumes "db_inv d"
  shows "later d (snd (meth env p d))"
proof (cases "fst (meth env p d)")
  case (Inl e)
  then have "snd (meth env p d) = d" by (metis atomic prod.collapse)
  then show ?thesis by simp
next
  case (Inr r)
  then have "meth env p d = (Inr r, snd (meth env p d))" by (metis prod.collapse)
  with assms show ?thesis
    unfolding later_def by (auto dest: keeps_tasks keeps_epochs keeps_audit)
qed

end

interpretation h_register: history_method RegisterNode
  by unfold_locales (simp add: RegisterNode_effect)

interpretation h_status: history_method
  "\<lambda>env (nid, st, evt, msg) d. UpdateNodeStatus env nid st evt msg d"
  by unfold_locales (auto simp: UpdateNodeStatus_effect)

lemma requeue_later: "occupies nid t \<Longrightarrow> task_later t (requeue_orphan t)"
  by (auto simp: task_later_def requeue_orphan_def occupies_def)

interpretation h_dead: history_method MarkNodeDead
  by unfold_locales (auto simp: MarkNodeDead_tasks MarkNodeDead_effect(4,5) intro: tasks_later_update requeue_later)

interpretation h_create: history_method CreateJob
  by unfold_locales (auto simp: CreateJob_effect(4,5,9) intro: tasks_later_append)

lemma report_later:
  assumes "task_ok ns js t" and "report_table env limit p t = Some r"
    and "uStatus p = TaskStatusFailed \<and> tStatus t \<noteq> TaskStatusFailed
      \<Longrightarrow> \<exists>j \<in> set js. jID j = tJobID t \<and> jRetryLimit j = limit \<and> job_row_ok j"
  shows "task_later t r"
  using assms(2)
proof (cases rule: report_table_cases)
  case same
  then show ?thesis by simp
next
  case running
  then show ?thesis by (auto simp: task_later_def running_row_def)
next
  case (terminal e)
  then show ?thesis by (auto simp: task_later_def terminal_row_def)
next
  case (requeue e)
  with assms(3) obtain j where j: "jRetryLimit j = limit" "job_row_ok j" by auto
  from assms(1) have "0 \<le> tRetriesUsed t" by (auto simp: task_ok_def retries_ok_def)
  with requeue j have "i32 (tRetriesUsed t + 1) = tRetriesUsed t + 1"
    by (intro i32_id) (auto simp: job_row_ok_def in_i32_def)
  with requeue show ?thesis by (auto simp: task_later_def requeue_failed_row_def)
qed

interpretation h_report: history_method UpdateTaskStatus
proof (unfold_locales, goal_cases)
  case (1 env p d r d')
  note rows = db_inv_rows [OF 1(2)]
  from 1(1) obtain task f limit where
    task: "find (\<lambda>t. tID t = uTaskID p) (db_tasks d) = Some task"
    and w: "row_write f task d r d'" and tab: "report_table env limit p task = Some r"
    and lim: "uStatus p = TaskStatusFailed
      \<longrightarrow> tStatus task = TaskStatusFailed \<or> job_limit d task = Some limit"
    by (rule UpdateTaskStatus_effect)
  from task rows have t: "task \<in> set (db_tasks d)" by (simp add: rows_ok_find_task)
  have "task_later task r"
    by (rule report_later [OF rows_ok_taskD [OF rows t] tab])
       (use lim rows in \<open>auto simp: job_limit_def rows_ok_find_job rows_ok_def\<close>)
  moreover have "u = task" if "u \<in> set (db_tasks d)" "tID u = tID task" for u
    using rows_ok_task_unique [OF rows that(1) t] that(2) by simp
  ultimately show ?case using w by (auto simp: row_write_def intro!: tasks_later_update)
qed

interpretation h_lease: history_method "\<lambda>env (clk, i, a, ttl). TryAcquireOrRenewLease env clk i a ttl"
proof (unfold_locales, goal_cases)
  case (1 env p d r d')
  obtain clk i a ttl where "p = (clk, i, a, ttl)" by (metis prod_cases4)
  with 1 have "lease_body env clk i a ttl d = Inr (r, d')" by (auto dest: TryAcquire_Inr)
  then show ?case by (cases rule: lease_body_cases) (auto simp: lease_later_def lease_row_def)
qed

section \<open>Placed batches and audit events\<close>

lemma tasks_later_list_all2: "list_all2 task_later ts us \<Longrightarrow> tasks_later ts us"
  by (induction rule: list_all2_induct) (auto simp: tasks_later_def)

lemma batch_rows_later: "batch_rows env ws nodes ts us \<Longrightarrow> tasks_later ts us"
  unfolding batch_rows_def
  by (rule tasks_later_list_all2, erule list_all2_mono)
     (auto simp: placed_on_def task_later_def assign_task_def simp del: Passes.simps)

lemma place_batch_later:
  assumes "db_inv d" and "batch_ok ws d" and "epochs_le nodes (db_nodes d)"
    and "place_batch rnd env nodes allocs ws d = (res, d')"
  shows "db_inv d' \<and> later d d'"
proof (cases "d' = d")
  case False
  with assms(4) obtain k where "place_tasks rnd env nodes allocs ws d = Inr (k, d')"
    by (auto simp: place_batch_def split: sum.splits if_splits)
  from place_tasks_rows [OF this assms(1-3)] show ?thesis
    by (auto simp: later_def batch_rows_later)
qed (simp add: assms(1))

lemma InsertEvent_later:
  assumes "db_inv d"
  shows "db_inv (snd (InsertEvent env ety eid evt msg d)) \<and> later d (snd (InsertEvent env ety eid evt msg d))"
proof -
  let ?d = "snd (InsertEvent env ety eid evt msg d)"
  have fr: "db_nodes ?d = db_nodes d" "db_jobs ?d = db_jobs d" "db_tasks ?d = db_tasks d" "db_lease ?d = db_lease d"
    using InsertEvent_frame [of env ety eid evt msg d "fst (InsertEvent env ety eid evt msg d)" ?d] by simp_all
  have "events_grow d ?d"
    by (auto simp: InsertEvent_def dest: insertEvent_grow split: sum.splits)
  with fr assms show ?thesis by (auto simp: later_def db_inv_def intro: events_grow_ok)
qed

section \<open>The transition system\<close>

record cluster =
  clDb :: db
  clSnaps :: "Node list list"

text \<open>The database as the migrations leave it.\<close>

definition cluster_init :: "cluster \<Rightarrow> bool" where
  "cluster_init s \<longleftrightarrow> db_nodes (clDb s) = [] \<and> db_jobs (clDb s) = [] \<and> db_tasks (clDb s) = []
     \<and> db_events (clDb s) = [] \<and> clSnaps s = []"

inductive cluster_step :: "cluster \<Rightarrow> cluster \<Rightarrow> bool" where
  registers: "cluster_step s (s\<lparr>clDb := snd (RegisterNode env p (clDb s))\<rparr>)"
| restates: "cluster_step s (s\<lparr>clDb := snd (UpdateNodeStatus env nid st evt msg (clDb s))\<rparr>)"
| dies: "cluster_step s (s\<lparr>clDb := snd (MarkNodeDead env nid (clDb s))\<rparr>)"
| submits: "cluster_step s (s\<lparr>clDb := snd (CreateJob env q (clDb s))\<rparr>)"
| reports: "cluster_step s (s\<lparr>clDb := snd (UpdateTaskStatus env u (clDb s))\<rparr>)"
| elects: "cluster_step s (s\<lparr>clDb := snd (TryAcquireOrRenewLease env clk i a ttl (clDb s))\<rparr>)"
| logs: "cluster_step s (s\<lparr>clDb := snd (InsertEvent env ety eid evt msg (clDb s))\<rparr>)"
| reads: "ListActiveNodes env (clDb s) = Inr ns \<Longrightarrow> cluster_step s (s\<lparr>clSnaps := ns # clSnaps s\<rparr>)"
| places: "batch_ok ws (clDb s) \<Longrightarrow> ns \<in> set (clSnaps s) \<Longrightarrow>
    cluster_step s (s\<lparr>clDb := snd (place_batch rnd env ns allocs ws (clDb s))\<rparr>)"

definition cluster_inv :: "cluster \<Rightarrow> bool" where
  "cluster_inv s \<longleftrightarrow> db_inv (clDb s) \<and> list_all (\<lambda>ns. epochs_le ns (db_nodes (clDb s))) (clSnaps s)"

lemma step_later:
  assumes "cluster_step s s'" and "cluster_inv s"
  shows "db_inv (clDb s') \<and> later (clDb s) (clDb s')"
proof -
  have inv: "db_inv (clDb s)" using assms(2) by (simp add: cluster_inv_def)
  from assms(1) show ?thesis
  proof (cases rule: cluster_step.cases)
    case (registers env p)
    with inv show ?thesis by (simp add: register.call_inv h_register.call_later)
  next
    case (restates env nid st evt msg)
    with inv show ?thesis
      using nodestatus.call_inv [of _ env "(nid, st, evt, msg)"] h_status.call_later [of _ env "(nid, st, evt, msg)"]
      by simp
  next
    case (dies env nid)
    with inv show ?thesis by (simp add: markdead.call_inv h_dead.call_later)
  next
    case (submits env q)
    with inv show ?thesis by (simp add: createjob.call_inv h_create.call_later)
  next
    case (reports env u)
    with inv show ?thesis by (simp add: report.call_inv h_report.call_later)
  next
    case (elects env clk i a ttl)
    with inv show ?thesis
      using lease.call_inv [of _ env "(clk, i, a, ttl)"] h_lease.call_later [of _ env "(clk, i, a, ttl)"] by simp
  next
    case (logs env ety eid evt msg)
    with inv show ?thesis by (simp add: InsertEvent_later)
  next
    case (reads env ns)
    with inv show ?thesis by simp
  next
    case (places ws ns rnd env allocs)
    have "epochs_le ns (db_nodes (clDb s))" using assms(2) places(3) by (simp add: cluster_inv_def list_all_iff)
    from place_batch_later [OF inv places(2) this] show ?thesis
      by (metis places(1) cluster.select_convs(1) cluster.surjective cluster.update_convs(1) prod.collapse)
  qed
qed

lemma active_epochs: "ListActiveNodes env d = Inr ns \<Longrightarrow> epochs_le ns (db_nodes d)"
  by (auto simp: ListActiveNodes_def pool_query_def epochs_le_def split: if_splits)

interpretation clusters: step_system cluster_init cluster_step cluster_inv
proof
  fix s assume "cluster_init s"
  then show "cluster_inv s" by (simp add: cluster_init_def cluster_inv_def db_inv_def rows_ok_def events_ok_def)
next
  fix s s' assume st: "cluster_step s s'" and inv: "cluster_inv s"
  from step_later [OF st inv] have l: "db_inv (clDb s')" "later (clDb s) (clDb s')" by auto
  have "epochs_le ns (db_nodes (clDb s'))" if "ns \<in> set (clSnaps s)" for ns
    using inv l(2) that by (auto simp: cluster_inv_def list_all_iff later_def intro: epochs_le_trans)
  moreover have "set (clSnaps s') \<subseteq> set (clSnaps s) \<or> (\<exists>env ns. clDb s' = clDb s
      \<and> set (clSnaps s') = insert ns (set (clSnaps s)) \<and> ListActiveNodes env (clDb s) = Inr ns)"
    using st by (cases rule: cluster_step.cases) auto
  ultimately show "cluster_inv s'" using l(1) by (auto simp: cluster_inv_def list_all_iff dest: active_epochs)
qed

lemma run_later: "cluster_step\<^sup>*\<^sup>* s s' \<Longrightarrow> cluster_inv s \<Longrightarrow> later (clDb s) (clDb s')"
  by (rule clusters.along_steps [where R = "\<lambda>s s'. later (clDb s) (clDb s')"])
     (auto intro: later_trans dest: step_later)

section \<open>The components' turns are runs\<close>

definition run_to :: "db \<Rightarrow> db \<Rightarrow> bool" where
  "run_to d d' \<longleftrightarrow> (\<forall>snaps. \<exists>snaps'. set snaps \<subseteq> set snaps'
     \<and> cluster_step\<^sup>*\<^sup>* \<lparr>clDb = d, clSnaps = snaps\<rparr> \<lparr>clDb = d', clSnaps = snaps'\<rparr>)"

lemma run_to_refl [simp]: "run_to d d"
  by (auto simp: run_to_def)

lemma run_to_trans [trans]: "run_to a b \<Longrightarrow> run_to b c \<Longrightarrow> run_to a c"
  unfolding run_to_def by (meson rtranclp_trans subset_trans)

lemma run_to_step: "(\<And>snaps. cluster_step \<lparr>clDb = d, clSnaps = snaps\<rparr> \<lparr>clDb = d', clSnaps = snaps\<rparr>) \<Longrightarrow> run_to d d'"
  unfolding run_to_def by blast

text \<open>Each transaction is a run of one step.\<close>

lemma run_RegisterNode: "run_to d (snd (RegisterNode env p d))"
  by (rule run_to_step) (use cluster_step.registers [of "\<lparr>clDb = d, clSnaps = _\<rparr>"] in simp)

lemma run_UpdateNodeStatus: "run_to d (snd (UpdateNodeStatus env nid st evt msg d))"
  by (rule run_to_step) (use cluster_step.restates [of "\<lparr>clDb = d, clSnaps = _\<rparr>"] in simp)

lemma run_MarkNodeDead: "run_to d (snd (MarkNodeDead env nid d))"
  by (rule run_to_step) (use cluster_step.dies [of "\<lparr>clDb = d, clSnaps = _\<rparr>"] in simp)

lemma run_CreateJob: "run_to d (snd (CreateJob env q d))"
  by (rule run_to_step) (use cluster_step.submits [of "\<lparr>clDb = d, clSnaps = _\<rparr>"] in simp)

lemma run_UpdateTaskStatus: "run_to d (snd (UpdateTaskStatus env u d))"
  by (rule run_to_step) (use cluster_step.reports [of "\<lparr>clDb = d, clSnaps = _\<rparr>"] in simp)

lemma run_lease: "run_to d (snd (TryAcquireOrRenewLease env clk i a ttl d))"
  by (rule run_to_step) (use cluster_step.elects [of "\<lparr>clDb = d, clSnaps = _\<rparr>"] in simp)

lemma run_InsertEvent: "run_to d (snd (InsertEvent env ety eid evt msg d))"
  by (rule run_to_step) (use cluster_step.logs [of "\<lparr>clDb = d, clSnaps = _\<rparr>"] in simp)

interpretation runs: transaction_relation run_to
  by unfold_locales
     (auto intro: run_to_trans run_RegisterNode run_UpdateNodeStatus run_MarkNodeDead run_CreateJob
        run_UpdateTaskStatus run_InsertEvent)

lemma run_elector_tick: "run_to d (snd (elector_tick env clk e d))"
  using run_lease [of d env clk "cfgIdentity (elCfg e)" "cfgAdvertiseAddr (elCfg e)" "cfgLeaseTTL (elCfg e)"]
  by (auto simp: elector_tick_def split: prod.splits sum.splits)

lemma run_engine_tick:
  assumes "db_inv d"
  shows "run_to d (snd (engine_tick rnd g env locked d))"
proof (cases "snd (engine_tick rnd g env locked d) = d")
  case False
  then obtain ws nodes allocs where
    claim: "ClaimPendingTasksForScheduling env locked defaultClaimLimit d = Inr ws"
    and nodes: "ListActiveNodes env d = Inr nodes"
    and tick: "snd (engine_tick rnd g env locked d) = snd (place_batch rnd env nodes allocs ws d)"
    by (auto simp: engine_tick_def split: if_splits sum.splits)
  have ok: "batch_ok ws d"
    using claim claim_rows_batch [OF assms]
    by (auto simp: ClaimPendingTasksForScheduling_def pool_query_def split: if_splits)
  show ?thesis unfolding run_to_def tick
  proof
    fix snaps
    let ?s = "\<lparr>clDb = d, clSnaps = snaps\<rparr>"
    have "cluster_step ?s (?s\<lparr>clSnaps := nodes # clSnaps ?s\<rparr>)" using nodes by (intro cluster_step.reads) simp
    moreover have "cluster_step \<lparr>clDb = d, clSnaps = nodes # snaps\<rparr>
        (\<lparr>clDb = d, clSnaps = nodes # snaps\<rparr>\<lparr>clDb := snd (place_batch rnd env nodes allocs ws
           (clDb \<lparr>clDb = d, clSnaps = nodes # snaps\<rparr>))\<rparr>)"
      using ok by (intro cluster_step.places) simp_all
    ultimately have "cluster_step\<^sup>*\<^sup>* ?s \<lparr>clDb = snd (place_batch rnd env nodes allocs ws d), clSnaps = nodes # snaps\<rparr>"
      by simp
    then show "\<exists>snaps'. set snaps \<subseteq> set snaps'
        \<and> cluster_step\<^sup>*\<^sup>* ?s \<lparr>clDb = snd (place_batch rnd env nodes allocs ws d), clSnaps = snaps'\<rparr>"
      by (metis list.set_intros(2) subsetI)
  qed
qed simp

section \<open>Placing on a stale snapshot\<close>

text \<open>
  The batch is committed without another look at the nodes. A node that dies between the read and the
  commit gets the task under the epoch it had before: the task is scheduled on a dead node, where no
  sweep of the failure detector (which skips dead nodes) and no claim (which takes pending tasks) finds it.
\<close>

definition died_db :: db where
  "died_db = snd (MarkNodeDead sample_env ''n1'' sample_db)"

definition stranded_db :: db where
  "stranded_db = snd (place_batch (\<lambda>x. x) sample_env [node_a, node_b] Map.empty [work_a] died_db)"

lemma stale_snapshot_strands:
  "(\<exists>snaps. cluster_step\<^sup>*\<^sup>* \<lparr>clDb = sample_db, clSnaps = []\<rparr> \<lparr>clDb = stranded_db, clSnaps = snaps\<rparr>)
   \<and> list_ex (\<lambda>n. nID n = ''n1'' \<and> nStatus n = NodeStatusDead \<and> nEpoch n = 4) (db_nodes stranded_db)
   \<and> list_ex (\<lambda>t. tID t = ''t3'' \<and> tStatus t = TaskStatusScheduled \<and> tAssignedNodeID t = Some ''n1''
        \<and> tAssignedEpoch t = Some 3) (db_tasks stranded_db)"
proof (intro conjI)
  let ?ns = "[node_a, node_b]"
  let ?s = "\<lparr>clDb = died_db, clSnaps = [?ns]\<rparr>"
  have "ListActiveNodes sample_env sample_db = Inr ?ns"
    by (simp add: ListActiveNodes_def pool_query_def node_a_def node_b_def)
  then have "cluster_step \<lparr>clDb = sample_db, clSnaps = []\<rparr> \<lparr>clDb = sample_db, clSnaps = [?ns]\<rparr>"
    using cluster_step.reads [of sample_env "\<lparr>clDb = sample_db, clSnaps = []\<rparr>"] by simp
  moreover have "cluster_step \<lparr>clDb = sample_db, clSnaps = [?ns]\<rparr> ?s"
    using cluster_step.dies [of "\<lparr>clDb = sample_db, clSnaps = [?ns]\<rparr>" sample_env "''n1''"] by (simp add: died_db_def)
  moreover have "batch_ok [work_a] died_db" by code_simp
  then have "cluster_step ?s \<lparr>clDb = stranded_db, clSnaps = [?ns]\<rparr>"
    using cluster_step.places [of "[work_a]" ?s ?ns "\<lambda>x. x" sample_env Map.empty] by (simp add: stranded_db_def)
  ultimately show "\<exists>snaps. cluster_step\<^sup>*\<^sup>* \<lparr>clDb = sample_db, clSnaps = []\<rparr> \<lparr>clDb = stranded_db, clSnaps = snaps\<rparr>"
    by (meson r_into_rtranclp rtranclp_trans)
  show "list_ex (\<lambda>n. nID n = ''n1'' \<and> nStatus n = NodeStatusDead \<and> nEpoch n = 4) (db_nodes stranded_db)"
    by code_simp
  show "list_ex (\<lambda>t. tID t = ''t3'' \<and> tStatus t = TaskStatusScheduled \<and> tAssignedNodeID t = Some ''n1''
        \<and> tAssignedEpoch t = Some 3) (db_tasks stranded_db)"
    by code_simp
qed

end
