(* ===== verification/Metrics.thy ===== *)
theory Metrics
  imports Scheduler_Tick
begin

text \<open>
  \<^verbatim>\<open>src/internal/metrics\<close>: the collectors and the loop that refreshes the cluster gauges. A labelled gauge is
  the map of its series, a histogram the list of its observations; a gauge holds an integer (the code's
  \<^verbatim>\<open>float64\<close> is exact below \<open>2 ^ 53\<close>). The loop's four queries are separate statements: \<open>reads i\<close> is what
  the \<open>i\<close>-th of them meets. The theorem: after a refresh on a healthy leader the gauges are the counts and
  sums of the database, and series of nodes that are dead or gone are dropped.
\<close>

section \<open>Collectors\<close>

record Registry =
  mTasksTotal :: "string \<Rightarrow> int option"
  mTasksRunning :: int
  mSchedulingLatency :: "int list"
  mNodesTotal :: "NodeStatus \<Rightarrow> int option"
  mHeartbeatMissesTotal :: int
  mFailoverSeconds :: "int list"
  mLeaderElectionsTotal :: int
  mQueueDepth :: int
  mIsLeader :: int
  mNodeCPUCapacity :: "string \<times> string \<Rightarrow> int option"
  mNodeCPUAllocated :: "string \<times> string \<Rightarrow> int option"
  mNodeMemCapacity :: "string \<times> string \<Rightarrow> int option"
  mNodeMemAllocated :: "string \<times> string \<Rightarrow> int option"
  mWorkerTasksRunning :: int
  mScaleUpTotal :: int
  mScaleDownTotal :: int
  mAutoscaledWorkers :: int

definition metrics_New :: Registry where
  "metrics_New =
     \<lparr>mTasksTotal = (\<lambda>_. None), mTasksRunning = 0, mSchedulingLatency = [], mNodesTotal = (\<lambda>_. None),
      mHeartbeatMissesTotal = 0, mFailoverSeconds = [], mLeaderElectionsTotal = 0, mQueueDepth = 0,
      mIsLeader = 0, mNodeCPUCapacity = (\<lambda>_. None), mNodeCPUAllocated = (\<lambda>_. None),
      mNodeMemCapacity = (\<lambda>_. None), mNodeMemAllocated = (\<lambda>_. None), mWorkerTasksRunning = 0,
      mScaleUpTotal = 0, mScaleDownTotal = 0, mAutoscaledWorkers = 0\<rparr>"

text \<open>
  The collectors by name and label names, in the order of their registration (the Go and process
  collectors of the library come before them).
\<close>

definition Namespace :: string where "Namespace = ''arbiter''"

definition registered :: "(string \<times> string list) list" where
  "registered = map (\<lambda>(n, ls). (Namespace @ ''_'' @ n, ls))
     [(''tasks_total'', [''status'']), (''tasks_running'', []), (''scheduling_latency_seconds'', []),
      (''nodes_total'', [''status'']), (''heartbeat_misses_total'', []), (''failover_seconds'', []),
      (''leader_elections_total'', []), (''queue_depth'', []), (''is_leader'', []),
      (''node_cpu_capacity_millicores'', [''node_id'', ''hostname'']),
      (''node_cpu_allocated_millicores'', [''node_id'', ''hostname'']),
      (''node_memory_capacity_mb'', [''node_id'', ''hostname'']),
      (''node_memory_allocated_mb'', [''node_id'', ''hostname'']),
      (''worker_tasks_running'', []), (''scale_up_total'', []), (''scale_down_total'', []),
      (''autoscaled_workers'', [])]"

text \<open>No two have the same name, so \<^verbatim>\<open>MustRegister\<close> does not panic.\<close>

lemma registered_distinct: "distinct (map fst registered)"
  by (simp add: registered_def Namespace_def)

definition ObserveTaskStatus :: "string \<Rightarrow> Registry \<Rightarrow> Registry" where
  "ObserveTaskStatus status r =
     r\<lparr>mTasksTotal := (mTasksTotal r)(status \<mapsto>
         (case mTasksTotal r status of None \<Rightarrow> 0 | Some n \<Rightarrow> n) + 1)\<rparr>"

section \<open>The refresh\<close>

definition prometheusLabels :: "string \<Rightarrow> string \<Rightarrow> string \<times> string" where
  "prometheusLabels nodeID hostname = (nodeID, hostname)"

text \<open>A count missing from the map reads as zero.\<close>

definition count_at :: "('k \<Rightarrow> int option) \<Rightarrow> 'k \<Rightarrow> int" where
  "count_at m k = (case m k of None \<Rightarrow> 0 | Some n \<Rightarrow> n)"

definition refresh_tasks :: "dbenv \<times> db \<Rightarrow> Registry \<Rightarrow> Registry" where
  "refresh_tasks rd r =
     (case CountTasksByStatus (fst rd) (snd rd) of
        Inl e \<Rightarrow> r
      | Inr taskCounts \<Rightarrow>
          r\<lparr>mQueueDepth := count_at taskCounts TaskStatusPending,
            mTasksRunning := count_at taskCounts TaskStatusRunning\<rparr>)"

definition refresh_counts :: "dbenv \<times> db \<Rightarrow> Registry \<Rightarrow> Registry" where
  "refresh_counts rd r =
     (case CountNodesByStatus (fst rd) (snd rd) of
        Inl e \<Rightarrow> r
      | Inr nodeCounts \<Rightarrow>
          fold (\<lambda>status r. r\<lparr>mNodesTotal := (mNodesTotal r)(status \<mapsto> count_at nodeCounts status)\<rparr>)
            [NodeStatusReady, NodeStatusNotReady, NodeStatusDead, NodeStatusCordoned, NodeStatusUnknown] r)"

definition refresh_node :: "alloc_map \<Rightarrow> Node \<Rightarrow> Registry \<Rightarrow> Registry" where
  "refresh_node allocs n r =
     (if nStatus n = NodeStatusDead then r
      else
        (let labels = prometheusLabels (nID n) (nHostname n); a = alloc_at allocs (nID n) in
         r\<lparr>mNodeCPUCapacity := (mNodeCPUCapacity r)(labels \<mapsto> nCPUCapacityMillicores n),
           mNodeMemCapacity := (mNodeMemCapacity r)(labels \<mapsto> nMemCapacityMB n),
           mNodeCPUAllocated := (mNodeCPUAllocated r)(labels \<mapsto> aCPUMillicores a),
           mNodeMemAllocated := (mNodeMemAllocated r)(labels \<mapsto> aMemoryMB a)\<rparr>))"

definition reset_nodes :: "Registry \<Rightarrow> Registry" where
  "reset_nodes r =
     r\<lparr>mNodeCPUCapacity := (\<lambda>_. None), mNodeCPUAllocated := (\<lambda>_. None), mNodeMemCapacity := (\<lambda>_. None),
       mNodeMemAllocated := (\<lambda>_. None)\<rparr>"

definition refresh :: "(nat \<Rightarrow> dbenv \<times> db) \<Rightarrow> LeaderGate option \<Rightarrow> Registry \<Rightarrow> Registry" where
  "refresh reads leader r =
     (if \<not> gate_open leader then r\<lparr>mIsLeader := 0\<rparr>
      else
        (let r = refresh_counts (reads 1) (refresh_tasks (reads 0) (r\<lparr>mIsLeader := 1\<rparr>)) in
         case ListNodes (fst (reads 2)) (snd (reads 2)) of
           Inl e \<Rightarrow> r
         | Inr nodes \<Rightarrow>
             (case GetNodeAllocations (fst (reads 3)) (snd (reads 3)) of
                Inl e \<Rightarrow> r
              | Inr allocs \<Rightarrow> fold (refresh_node allocs) nodes (reset_nodes r))))"

text \<open>The loop: a refresh at once, then one per tick.\<close>

definition RunClusterGauges :: "((nat \<Rightarrow> dbenv \<times> db) \<times> LeaderGate option) list \<Rightarrow> Registry \<Rightarrow> Registry" where
  "RunClusterGauges ticks r = fold (\<lambda>(reads, leader). refresh reads leader) ticks r"

section \<open>Series\<close>

definition node_labels :: "Node \<Rightarrow> string \<times> string" where
  "node_labels n = prometheusLabels (nID n) (nHostname n)"

definition series :: "(Node \<Rightarrow> int) \<Rightarrow> Node \<Rightarrow> (string \<times> string \<Rightarrow> int option) \<Rightarrow> string \<times> string \<Rightarrow> int option" where
  "series v n m = (if nStatus n = NodeStatusDead then m else m(node_labels n \<mapsto> v n))"

lemma refresh_nodes_series:
  fixes ns allocs r
  defines "r' \<equiv> fold (refresh_node allocs) ns r"
  shows "mNodeCPUCapacity r' = fold (series nCPUCapacityMillicores) ns (mNodeCPUCapacity r)"
    and "mNodeMemCapacity r' = fold (series nMemCapacityMB) ns (mNodeMemCapacity r)"
    and "mNodeCPUAllocated r' = fold (series (\<lambda>n. aCPUMillicores (alloc_at allocs (nID n)))) ns (mNodeCPUAllocated r)"
    and "mNodeMemAllocated r' = fold (series (\<lambda>n. aMemoryMB (alloc_at allocs (nID n)))) ns (mNodeMemAllocated r)"
    and "mIsLeader r' = mIsLeader r" and "mQueueDepth r' = mQueueDepth r" and "mTasksRunning r' = mTasksRunning r"
    and "mNodesTotal r' = mNodesTotal r"
  unfolding r'_def
  by (induction ns arbitrary: r) (simp_all add: refresh_node_def series_def node_labels_def Let_def)

lemma series_exact:
  assumes "distinct (map nID ns)"
  shows "fold (series v) ns (\<lambda>_. None) k = Some x
    \<longleftrightarrow> (\<exists>n \<in> set ns. nStatus n \<noteq> NodeStatusDead \<and> k = node_labels n \<and> x = v n)"
  using assms
proof (induction ns arbitrary: x rule: rev_induct)
  case (snoc n ns)
  then have IH: "fold (series v) ns (\<lambda>_. None) k = Some x
      \<longleftrightarrow> (\<exists>m \<in> set ns. nStatus m \<noteq> NodeStatusDead \<and> k = node_labels m \<and> x = v m)" for x by simp
  have "\<forall>m \<in> set ns. nID m \<noteq> nID n" using snoc.prems by (simp add: image_iff) metis
  then have "\<forall>m \<in> set ns. node_labels m \<noteq> node_labels n"
    by (auto simp: node_labels_def prometheusLabels_def dest: sym)
  then show ?case using IH by (auto simp: series_def [of v n] split: if_splits)
qed simp

lemma count_rows_at: "count_at (count_rows key rows) k = int (length (filter (\<lambda>r. key r = k) rows))"
  by (simp add: count_at_def count_rows_def Let_def)

lemma refresh_counts_all:
  "\<not> db_fault env ''store: count nodes by status'' \<Longrightarrow>
   refresh_counts (env, d) r = r\<lparr>mNodesTotal := (\<lambda>s. Some (int (length (filter (\<lambda>n. nStatus n = s) (db_nodes d)))))\<rparr>"
  (is "_ \<Longrightarrow> _ = r\<lparr>mNodesTotal := (\<lambda>s. Some (?n s))\<rparr>")
proof -
  assume "\<not> db_fault env ''store: count nodes by status''"
  then have "refresh_counts (env, d) r = r\<lparr>mNodesTotal := (mNodesTotal r)
      (NodeStatusReady \<mapsto> ?n NodeStatusReady, NodeStatusNotReady \<mapsto> ?n NodeStatusNotReady,
       NodeStatusDead \<mapsto> ?n NodeStatusDead, NodeStatusCordoned \<mapsto> ?n NodeStatusCordoned,
       NodeStatusUnknown \<mapsto> ?n NodeStatusUnknown)\<rparr>" (is "_ = r\<lparr>mNodesTotal := ?m\<rparr>")
    by (simp add: refresh_counts_def CountNodesByStatus_def pool_query_def count_rows_at)
  moreover have "?m = (\<lambda>s. Some (?n s))"
  proof
    fix s show "?m s = Some (?n s)" by (cases s) simp_all
  qed
  ultimately show ?thesis by simp
qed

section \<open>Properties\<close>

text \<open>One series per node that is not dead, with the value \<open>v\<close>, and no other.\<close>

definition is_series :: "db \<Rightarrow> (Node \<Rightarrow> int) \<Rightarrow> (string \<times> string \<Rightarrow> int option) \<Rightarrow> bool" where
  "is_series d v m \<longleftrightarrow> (\<forall>k x. m k = Some x
     \<longleftrightarrow> (\<exists>n \<in> set (db_nodes d). nStatus n \<noteq> NodeStatusDead \<and> k = (nID n, nHostname n) \<and> x = v n))"

lemma refresh_is_series:
  assumes "db_inv d"
  shows "is_series d v (fold (series v) (sort_key nCreatedAt (db_nodes d)) (\<lambda>_. None))"
proof -
  have "distinct (map nID (db_nodes d))" using assms by (simp add: db_inv_def rows_ok_def)
  then have "distinct (map nID (sort_key nCreatedAt (db_nodes d)))" by (simp add: distinct_map)
  from series_exact [OF this] show ?thesis by (simp add: is_series_def node_labels_def prometheusLabels_def)
qed


text \<open>
  C27: the gauges are the cluster. After a refresh on the leader with all four reads served from one state of the
  database: the queue depth is the number of pending tasks and the running gauge that of running ones; the
  five node counts are exact and add up to all nodes; and there is one series per node that is not dead,
  with its capacity and with what its scheduled and running tasks request, and none besides.
\<close>

theorem gauges_exact:
  assumes "db_inv d" and "gate_open leader" and "\<And>i. snd (reads i) = d" and "\<And>i s. \<not> db_fault (fst (reads i)) s"
    and "GetNodeAllocations (fst (reads 3)) d = Inr allocs"
    and "r' = refresh reads leader r"
  shows "mIsLeader r' = 1
    \<and> mQueueDepth r' = int (length (filter (\<lambda>t. tStatus t = TaskStatusPending) (db_tasks d)))
    \<and> mTasksRunning r' = int (length (filter (\<lambda>t. tStatus t = TaskStatusRunning) (db_tasks d)))
    \<and> mNodesTotal r' = (\<lambda>s. Some (int (length (filter (\<lambda>n. nStatus n = s) (db_nodes d)))))
    \<and> is_series d nCPUCapacityMillicores (mNodeCPUCapacity r')
    \<and> is_series d (\<lambda>n. aCPUMillicores (sum_alloc (joined_on (nID n) d))) (mNodeCPUAllocated r')
    \<and> is_series d nMemCapacityMB (mNodeMemCapacity r')
    \<and> is_series d (\<lambda>n. aMemoryMB (sum_alloc (joined_on (nID n) d))) (mNodeMemAllocated r')"
proof -
  let ?ns = "sort_key nCreatedAt (db_nodes d)"
  define r0 where "r0 = refresh_tasks (reads 0) (r\<lparr>mIsLeader := 1\<rparr>)"
  define r1 where "r1 = refresh_counts (reads 1) r0"
  have rd: "reads i = (fst (reads i), d)" for i using assms(3) [of i] by (metis prod.collapse)
  have r0: "mIsLeader r0 = 1" "mQueueDepth r0 = count_at (count_rows tStatus (db_tasks d)) TaskStatusPending"
    "mTasksRunning r0 = count_at (count_rows tStatus (db_tasks d)) TaskStatusRunning"
    unfolding r0_def by (simp_all add: refresh_tasks_def CountTasksByStatus_def pool_query_def assms(3,4))
  have r1: "r1 = r0\<lparr>mNodesTotal := (\<lambda>s. Some (int (length (filter (\<lambda>n. nStatus n = s) (db_nodes d)))))\<rparr>"
    unfolding r1_def by (subst rd) (rule refresh_counts_all [OF assms(4)])
  have "ListNodes (fst (reads 2)) (snd (reads 2)) = Inr ?ns"
    by (simp add: ListNodes_def pool_query_def assms(3,4))
  then have r': "r' = fold (refresh_node allocs) ?ns (reset_nodes r1)"
    using assms(2,5,6) by (simp add: refresh_def r1_def r0_def assms(3) Let_def)
  have alloc: "alloc_at allocs i = sum_alloc (joined_on i d)" for i
    using assms(5) by (auto simp: GetNodeAllocations_def pool_query_def alloc_at_def Let_def sum_alloc_def zero_alloc_def
        split: if_splits)
  show ?thesis
    unfolding r' refresh_nodes_series alloc
    by (intro conjI) (simp_all add: reset_nodes_def refresh_is_series [OF assms(1)] r1 r0 count_rows_at)
qed

definition one_read :: "nat \<Rightarrow> dbenv \<times> db" where "one_read _ = (sample_env, sample_db)"

theorem gauges_exact_witness:
  "mQueueDepth (refresh one_read None metrics_New) = 1
   \<and> mNodeCPUAllocated (refresh one_read None metrics_New) (''n1'', ''alpha'') = Some 500
   \<and> mNodeCPUCapacity (refresh one_read None metrics_New) (''n9'', ''gamma'') = None"
proof -
  have j: "sum_alloc (joined_on ''n1'' sample_db) = \<lparr>aCPUMillicores = 500, aMemoryMB = 256\<rparr>"
    "alloc_scans (sum_alloc (joined_on ''n2'' sample_db))"
    "alloc_scans \<lparr>aCPUMillicores = 500, aMemoryMB = 256\<rparr>"
    by (simp_all add: joined_on_def sum_alloc_def alloc_scans_def task_with_job_def in_i64_def occupies_def sample_rows map_filter_def)
  have "\<exists>allocs. GetNodeAllocations sample_env sample_db = Inr allocs"
    using j by (simp add: GetNodeAllocations_def pool_query_def node_a_def node_b_def)
  then obtain allocs where a: "GetNodeAllocations (fst (one_read 3)) sample_db = Inr allocs"
    by (auto simp: one_read_def)
  have "snd (one_read i) = sample_db" "\<not> db_fault (fst (one_read i)) s" for i s by (simp_all add: one_read_def)
  note g = gauges_exact [where reads = one_read and leader = None and r = metrics_New, OF sample_inv _ this a refl,
      OF gate_open_simps(1)]
  from g have q: "mQueueDepth (refresh one_read None metrics_New)
      = int (length (filter (\<lambda>t. tStatus t = TaskStatusPending) (db_tasks sample_db)))" by (elim conjE)
  from g have c: "is_series sample_db nCPUCapacityMillicores (mNodeCPUCapacity (refresh one_read None metrics_New))"
    by (elim conjE)
  from g have m: "is_series sample_db (\<lambda>n. aCPUMillicores (sum_alloc (joined_on (nID n) sample_db)))
      (mNodeCPUAllocated (refresh one_read None metrics_New))" by (elim conjE)
  have "mNodeCPUAllocated (refresh one_read None metrics_New) (''n1'', ''alpha'') = Some 500"
    using m by (simp add: is_series_def node_a_def j(1))
  moreover have "\<not> (\<exists>x. mNodeCPUCapacity (refresh one_read None metrics_New) (''n9'', ''gamma'') = Some x)"
    using c by (simp add: is_series_def node_a_def node_b_def)
  moreover have "mQueueDepth (refresh one_read None metrics_New) = 1"
    unfolding q by (simp add: sample_rows)
  ultimately show ?thesis by simp
qed

end
