(* ===== verification/Store_Open.thy ===== *)
theory Store_Open
  imports Arbiter_Prelude
begin

text \<open>
  \<^verbatim>\<open>src/internal/store/store.go\<close>: opening the connection pool and applying the migrations. The driver and the
  migration library are not part of the program: their calls are the fields of \<open>driver\<close> and \<open>migrator\<close>, on a
  world \<open>'w\<close> of their own. What is shown is the control flow: what is opened is closed on every
  path, and when the two succeed.
\<close>

section \<open>Connect\<close>

record ('w, 'p) driver =
  dvNew :: "string \<Rightarrow> 'w \<Rightarrow> 'p option \<times> 'w"
  dvPing :: "'p \<Rightarrow> 'w \<Rightarrow> bool \<times> 'w"
  dvClose :: "'p \<Rightarrow> 'w \<Rightarrow> 'w"

definition store_Connect :: "('w, 'p) driver \<Rightarrow> string \<Rightarrow> 'w \<Rightarrow> (string + 'p) \<times> 'w" where
  "store_Connect D connString w =
     (case dvNew D connString w of
        (None, w1) \<Rightarrow> (Inl ''store: create connection pool'', w1)
      | (Some pool, w1) \<Rightarrow>
          (case dvPing D pool w1 of
             (False, w2) \<Rightarrow> (Inl ''store: ping database'', dvClose D pool w2)
           | (True, w2) \<Rightarrow> (Inr pool, w2)))"

definition store_Close :: "('w, 'p) driver \<Rightarrow> 'p \<Rightarrow> 'w \<Rightarrow> 'w" where
  "store_Close D pool w = dvClose D pool w"

section \<open>Migrate\<close>

datatype up_result = Applied | NoChange | UpFailed

record ('w, 'h, 'd, 's, 'm) migrator =
  mgOpen :: "string \<Rightarrow> 'w \<Rightarrow> 'h option \<times> 'w"
  mgCloseDb :: "'h \<Rightarrow> 'w \<Rightarrow> 'w"
  mgDriver :: "'h \<Rightarrow> 'w \<Rightarrow> 'd option \<times> 'w"
  mgSource :: "'w \<Rightarrow> 's option \<times> 'w"
  mgNew :: "'s \<Rightarrow> 'd \<Rightarrow> 'w \<Rightarrow> 'm option \<times> 'w"
  mgUp :: "'m \<Rightarrow> 'w \<Rightarrow> up_result \<times> 'w"
  mgClose :: "'m \<Rightarrow> 'w \<Rightarrow> 'w"

text \<open>The deferred calls run on return, the migrator's before the connection's.\<close>

definition Migrate :: "('w, 'h, 'd, 's, 'm) migrator \<Rightarrow> string \<Rightarrow> 'w \<Rightarrow> string option \<times> 'w" where
  "Migrate M connString w =
     (case mgOpen M connString w of
        (None, w1) \<Rightarrow> (Some ''store: open migration connection'', w1)
      | (Some h, w1) \<Rightarrow>
          (case mgDriver M h w1 of
             (None, w2) \<Rightarrow> (Some ''store: init migration db driver'', mgCloseDb M h w2)
           | (Some dbDriver, w2) \<Rightarrow>
               (case mgSource M w2 of
                  (None, w3) \<Rightarrow> (Some ''store: load migrations source'', mgCloseDb M h w3)
                | (Some src, w3) \<Rightarrow>
                    (case mgNew M src dbDriver w3 of
                       (None, w4) \<Rightarrow> (Some ''store: init migrator'', mgCloseDb M h w4)
                     | (Some m, w4) \<Rightarrow>
                         (case mgUp M m w4 of
                            (UpFailed, w5) \<Rightarrow> (Some ''store: run migrations'', mgCloseDb M h (mgClose M m w5))
                          | (_, w5) \<Rightarrow> (None, mgCloseDb M h (mgClose M m w5)))))))"

section \<open>What is opened is closed\<close>

text \<open>
  \<open>c\<close> counts the open connections of a world. The laws: opening adds one when it succeeds, closing takes one
  away, and the other calls neither open nor close.
\<close>

definition driver_counts :: "('w, 'p) driver \<Rightarrow> ('w \<Rightarrow> int) \<Rightarrow> bool" where
  "driver_counts D c \<longleftrightarrow>
     (\<forall>s w. c (snd (dvNew D s w)) = c w + (if fst (dvNew D s w) = None then 0 else 1))
     \<and> (\<forall>p w. c (snd (dvPing D p w)) = c w) \<and> (\<forall>p w. c (dvClose D p w) = c w - 1)"

definition migrator_counts :: "('w, 'h, 'd, 's, 'm) migrator \<Rightarrow> ('w \<Rightarrow> int) \<Rightarrow> bool" where
  "migrator_counts M c \<longleftrightarrow>
     (\<forall>s w. c (snd (mgOpen M s w)) = c w + (if fst (mgOpen M s w) = None then 0 else 1))
     \<and> (\<forall>h w. c (mgCloseDb M h w) = c w - 1) \<and> (\<forall>h w. c (snd (mgDriver M h w)) = c w)
     \<and> (\<forall>w. c (snd (mgSource M w)) = c w) \<and> (\<forall>a b w. c (snd (mgNew M a b w)) = c w)
     \<and> (\<forall>m w. c (snd (mgUp M m w)) = c w) \<and> (\<forall>m w. c (mgClose M m w) = c w)"

text \<open>
  No connection leaks. Connecting leaves one more connection open exactly when it succeeds, and the
  migrations, whether they are applied, were already, or fail at any step, leave as many open as before.
\<close>

theorem connections_closed:
  assumes "driver_counts D c" and "migrator_counts M c"
  shows "c (snd (store_Connect D s w)) = c w + (case fst (store_Connect D s w) of Inl e \<Rightarrow> 0 | Inr p \<Rightarrow> 1)
    \<and> c (snd (Migrate M s w)) = c w"
proof
  have new: "c (snd (dvNew D s w)) = c w + (if fst (dvNew D s w) = None then 0 else 1)"
    and ping: "c (snd (dvPing D p w')) = c w'" and close: "c (dvClose D p w') = c w' - 1" for p w'
    using assms(1) by (auto simp: driver_counts_def)
  show "c (snd (store_Connect D s w)) = c w + (case fst (store_Connect D s w) of Inl e \<Rightarrow> 0 | Inr p \<Rightarrow> 1)"
  proof (cases "dvNew D s w")
    case (Pair x w1)
    show ?thesis
    proof (cases x)
      case (Some p)
      then show ?thesis
        using new ping [of p w1] Pair by (cases "dvPing D p w1") (auto simp: store_Connect_def close split: bool.splits)
    qed (use new Pair in \<open>simp add: store_Connect_def\<close>)
  qed
next
  have new: "c (snd (mgOpen M s w)) = c w + (if fst (mgOpen M s w) = None then 0 else 1)"
    and close: "c (mgCloseDb M h w1) = c w1 - 1" "c (mgClose M m w1) = c w1" for h m w1
    using assms(2) by (auto simp: migrator_counts_def)
  have same: "mgDriver M h w1 = (x, w2) \<Longrightarrow> c w2 = c w1" "mgSource M w1 = (y, w2) \<Longrightarrow> c w2 = c w1"
    "mgNew M a b w1 = (z, w2) \<Longrightarrow> c w2 = c w1" "mgUp M m w1 = (r, w2) \<Longrightarrow> c w2 = c w1" for h a b m w1 w2 x y z r
    using assms(2) unfolding migrator_counts_def by (metis snd_conv)+
  show "c (snd (Migrate M s w)) = c w"
  proof (cases "mgOpen M s w")
    case (Pair x w1)
    show ?thesis
    proof (cases x)
      case (Some h)
      then have "c w1 = c w + 1" using new Pair by simp
      then show ?thesis
        using Pair Some by (auto simp: Migrate_def close split: prod.splits option.splits up_result.splits
            dest!: same)
    qed (use new Pair in \<open>simp add: Migrate_def\<close>)
  qed
qed

text \<open>A world that only counts, whose database answers and whose migrations are in place.\<close>

definition counting_driver :: "bool \<Rightarrow> (int, unit) driver" where
  "counting_driver answers =
     \<lparr>dvNew = (\<lambda>s n. (Some (), n + 1)), dvPing = (\<lambda>p n. (answers, n)), dvClose = (\<lambda>p n. n - 1)\<rparr>"

definition counting_migrator :: "up_result \<Rightarrow> (int, unit, unit, unit, unit) migrator" where
  "counting_migrator r =
     \<lparr>mgOpen = (\<lambda>s n. (Some (), n + 1)), mgCloseDb = (\<lambda>h n. n - 1), mgDriver = (\<lambda>h n. (Some (), n)),
      mgSource = (\<lambda>n. (Some (), n)), mgNew = (\<lambda>a b n. (Some (), n)), mgUp = (\<lambda>m n. (r, n)), mgClose = (\<lambda>m n. n)\<rparr>"

theorem connections_closed_witness:
  "snd (store_Connect (counting_driver False) ''db'' 0) = 0 \<and> snd (Migrate (counting_migrator UpFailed) ''db'' 0) = 0
   \<and> fst (Migrate (counting_migrator UpFailed) ''db'' 0) = Some ''store: run migrations''"
proof -
  have "driver_counts (counting_driver False) id" "migrator_counts (counting_migrator UpFailed) id"
    by (simp_all add: driver_counts_def migrator_counts_def counting_driver_def counting_migrator_def)
  from connections_closed [OF this, of "''db''" 0] show ?thesis
    by (simp add: store_Connect_def Migrate_def counting_driver_def counting_migrator_def)
qed

end
