(* ===== verification/Control_Plane.thy ===== *)
theory Control_Plane
  imports Cluster Scheduler_Main
begin

text \<open>
  The replicas of \<^verbatim>\<open>src/cmd/scheduler/main.go\<close> together. A replica is its process with the state of its
  goroutines: the elector, the engine in the middle of a tick, the detector in the middle of a sweep, the
  reapers it has started, the position of the event fanout and the autoscaler. The replicas share the database,
  Redis and Docker. Each turn is one goroutine's next interaction with the database (the engine's tick takes four,
  the detector's sweep one per node), one RPC or one HTTP request; a process may die between any two.

  The composition refines both the elections of \<open>Election\<close> and the transactions of \<open>Cluster\<close>: two
  interpretations of \<open>simulation\<close>. The row locks of claimed tasks are what makes the second hold: a claim
  skips what another replica's open transaction holds, so no task is in two batches at once.
\<close>

section \<open>The engine's tick in steps\<close>

text \<open>
  Where the goroutine of \<^verbatim>\<open>Engine.Run\<close> is: between ticks, or inside \<^verbatim>\<open>tick\<close> after the claim, after reading the
  nodes, after reading the allocations. From the claim on its transaction is open and locks the claimed rows.
\<close>

datatype engine_pc =
    is_idle: EngineIdle
  | Claimed "TaskWithJob list"
  | Listed "TaskWithJob list" "Node list"
  | Allocated "TaskWithJob list" "Node list" alloc_map

definition engine_step ::
  "rounding \<Rightarrow> LeaderGate option \<Rightarrow> dbenv \<Rightarrow> string set \<Rightarrow> engine_pc \<times> db \<Rightarrow> engine_pc \<times> db" where
  "engine_step rnd leader env locked = (\<lambda>(pc, d).
     case pc of
       EngineIdle \<Rightarrow>
         if \<not> gate_open leader then (EngineIdle, d)
         else (case ClaimPendingTasksForScheduling env locked defaultClaimLimit d of
                 Inl e \<Rightarrow> (EngineIdle, d)
               | Inr tasks \<Rightarrow> if tasks = [] then (EngineIdle, d) else (Claimed tasks, d))
     | Claimed tasks \<Rightarrow>
         (case ListActiveNodes env d of
            Inl e \<Rightarrow> (EngineIdle, d)
          | Inr nodes \<Rightarrow> (Listed tasks nodes, d))
     | Listed tasks nodes \<Rightarrow>
         (case GetNodeAllocations env d of
            Inl e \<Rightarrow> (EngineIdle, d)
          | Inr allocs \<Rightarrow> (Allocated tasks nodes allocs, d))
     | Allocated tasks nodes allocs \<Rightarrow>
         (EngineIdle, snd (place_batch rnd env nodes allocs tasks d)))"

fun in_flight :: "engine_pc \<Rightarrow> TaskWithJob list" where
  "in_flight EngineIdle = []"
| "in_flight (Claimed ws) = ws"
| "in_flight (Listed ws ns) = ws"
| "in_flight (Allocated ws ns allocs) = ws"

fun snapshots :: "engine_pc \<Rightarrow> Node list set" where
  "snapshots (Listed ws ns) = {ns}"
| "snapshots (Allocated ws ns allocs) = {ns}"
| "snapshots pc = {}"

definition held_ids :: "engine_pc \<Rightarrow> string set" where
  "held_ids pc = (\<lambda>w. tID (wTask w)) ` set (in_flight pc)"

section \<open>The detector's sweep in steps\<close>

text \<open>\<open>sweep\<close> is what is left of the node list the tick read; a tick starts when nothing is.\<close>

definition detector_step ::
  "'r redis \<Rightarrow> cacheenv \<Rightarrow> time \<Rightarrow> DetectorConfig \<Rightarrow> bool \<Rightarrow> LeaderGate option \<Rightarrow> dbenv \<Rightarrow> 'r
   \<Rightarrow> Node list \<times> string list list \<times> db \<Rightarrow> Node list \<times> string list list \<times> db" where
  "detector_step R cenv clk cfg docker leader env r = (\<lambda>(sweep, reaps, d).
     case sweep of
       [] \<Rightarrow>
         if \<not> gate_open leader then ([], reaps, d)
         else (case ListActiveNodes env d of
                 Inl e \<Rightarrow> ([], reaps, d)
               | Inr nodes \<Rightarrow> (nodes, reaps, d))
     | n # ns \<Rightarrow>
         (case evaluate R cenv clk cfg docker env r n d of
            (None, d') \<Rightarrow> (ns, reaps, d')
          | (Some ids, d') \<Rightarrow> (ns, reaps @ [ids], d')))"

section \<open>A replica\<close>

record replica =
  rpUp :: bool
  rpElector :: Elector
  rpEngine :: engine_pc
  rpSweep :: "Node list"
  rpReaps :: "string list list"
  rpAfter :: "int option"
  rpScaler :: Runner

text \<open>What the process builds before it talks to anyone; a process that is not running is kept in this state.\<close>

definition replica_boot :: "time \<Rightarrow> replica_config \<Rightarrow> replica" where
  "replica_boot clk cfg =
     \<lparr>rpUp = False, rpElector = New_Elector (rcElection cfg), rpEngine = EngineIdle, rpSweep = [], rpReaps = [],
      rpAfter = None, rpScaler = New_Runner clk (rcScaler cfg)\<rparr>"

text \<open>\<^verbatim>\<open>time.NewTicker\<close> panics on an interval that is not positive. Only the detector's interval is unchecked.\<close>

definition ticker_ok :: "duration \<Rightarrow> bool" where
  "ticker_ok d \<longleftrightarrow> 0 < d"

definition replica_gate :: "replica \<Rightarrow> LeaderGate option" where
  "replica_gate rp = Some (elector_gate (rpElector rp))"

section \<open>All replicas\<close>

record ('r, 'k) plane =
  plReplicas :: "replica list"
  plDb :: db
  plNow :: time
  plRedis :: 'r
  plDocker :: 'k
  plPublished :: "ClusterEvent list"
  plRenewed :: "nat \<Rightarrow> time"

text \<open>What does not change: the code outside the repository and the replicas' flags.\<close>

record ('r, 'k) world =
  wRedis :: "'r redis"
  wEngine :: "'k engine"
  wGetenv :: "string \<Rightarrow> string"
  wHostname :: "nat \<Rightarrow> string option"
  wBase :: "http_request \<Rightarrow> http_response"
  wRound :: rounding
  wConfig :: "nat \<Rightarrow> replica_config"

text \<open>
  The turns of one replica, with what the outside decides: failures, the database clock, the rows other
  transactions lock, the requests.
\<close>

datatype turn =
    ProcessStart dbenv
  | ProcessStop
  | ElectorTick dbenv
  | EngineStep dbenv "string set"
  | DetectorStep cacheenv dbenv
  | Reap nat
  | FanoutStart dbenv
  | FanoutTick dbenv "int \<Rightarrow> bool"
  | AutoscalerTurn dbenv
  | ServeRegister cacheenv "nat \<Rightarrow> dbenv" RegisterNodeRequest
  | ServeHeartbeat cacheenv "nat \<Rightarrow> dbenv" HeartbeatRequest
  | ServeReport cacheenv "nat \<Rightarrow> dbenv" TaskStatusUpdate
  | ServeSubmit cacheenv "nat \<Rightarrow> dbenv" SubmitJobRequest
  | ServeHTTP dbenv http_request

definition locked_elsewhere :: "nat \<Rightarrow> ('r, 'k) plane \<Rightarrow> string set" where
  "locked_elsewhere i s =
     set (concat (map (\<lambda>j. map (\<lambda>w. tID (wTask w)) (in_flight (rpEngine (plReplicas s ! j))))
                    (filter (\<lambda>j. j \<noteq> i) [0..<length (plReplicas s)])))"

definition elector_turn :: "nat \<Rightarrow> dbenv \<Rightarrow> replica \<Rightarrow> ('r, 'k) plane \<Rightarrow> ('r, 'k) plane" where
  "elector_turn i env rp s =
     (let (e, d) = elector_tick env (plNow s) (rpElector rp) (plDb s)
      in s\<lparr>plReplicas := (plReplicas s)[i := rp\<lparr>rpElector := e\<rparr>], plDb := d,
           plRenewed := (plRenewed s)(i := if attempt_holds env (plNow s) (rpElector rp) (plDb s)
                                           then plNow s else plRenewed s i)\<rparr>)"

definition serve ::
  "('r server \<Rightarrow> 'q \<Rightarrow> 'r \<times> db \<Rightarrow> 'a \<times> 'r \<times> db) \<Rightarrow> ('r, 'k) world \<Rightarrow> nat \<Rightarrow> cacheenv \<Rightarrow> (nat \<Rightarrow> dbenv) \<Rightarrow> 'q
   \<Rightarrow> ('r, 'k) plane \<Rightarrow> ('r, 'k) plane" where
  "serve handler W i cenv env req s =
     (case handler (main_server (wRedis W) cenv (plNow s) env (replica_gate (plReplicas s ! i))
             (rcHeartbeatMS (wConfig W i))) req (plRedis s, plDb s) of
        (_, r, d) \<Rightarrow> s\<lparr>plRedis := r, plDb := d\<rparr>)"

fun running_turn :: "('r, 'k) world \<Rightarrow> nat \<Rightarrow> turn \<Rightarrow> ('r, 'k) plane \<Rightarrow> ('r, 'k) plane" where
  "running_turn W i (ProcessStart env) s = s"
| "running_turn W i ProcessStop s =
     s\<lparr>plReplicas := (plReplicas s)[i := replica_boot (plNow s) (wConfig W i)]\<rparr>"
| "running_turn W i (ElectorTick env) s = elector_turn i env (plReplicas s ! i) s"
| "running_turn W i (EngineStep env locked) s =
     (let rp = plReplicas s ! i;
          (pc, d) = engine_step (wRound W) (replica_gate rp) env (locked \<union> locked_elsewhere i s)
                      (rpEngine rp, plDb s)
      in s\<lparr>plReplicas := (plReplicas s)[i := rp\<lparr>rpEngine := pc\<rparr>], plDb := d\<rparr>)"
| "running_turn W i (DetectorStep cenv env) s =
     (let rp = plReplicas s ! i;
          (sweep, reaps, d) = detector_step (wRedis W) cenv (plNow s)
             (main_detector_config (rcHeartbeatMS (wConfig W i))) True (replica_gate rp) env (plRedis s)
             (rpSweep rp, rpReaps rp, plDb s)
      in s\<lparr>plReplicas := (plReplicas s)[i := rp\<lparr>rpSweep := sweep, rpReaps := reaps\<rparr>], plDb := d\<rparr>)"
| "running_turn W i (Reap j) s =
     (let rp = plReplicas s ! i in
      if j < length (rpReaps rp)
      then s\<lparr>plReplicas := (plReplicas s)[i := rp\<lparr>rpReaps := take j (rpReaps rp) @ drop (Suc j) (rpReaps rp)\<rparr>],
             plDocker := snd (KillTaskContainers (wEngine W) (rpReaps rp ! j) (plDocker s))\<rparr>
      else s)"
| "running_turn W i (FanoutStart env) s =
     (let rp = plReplicas s ! i in
      case rpAfter rp of
        None \<Rightarrow> s\<lparr>plReplicas := (plReplicas s)[i := rp\<lparr>rpAfter := Some (fanout_start env (plDb s))\<rparr>]\<rparr>
      | Some a \<Rightarrow> s)"
| "running_turn W i (FanoutTick env pub_fault) s =
     (let rp = plReplicas s ! i in
      case rpAfter rp of
        None \<Rightarrow> s
      | Some a \<Rightarrow>
          (let (out, b) = fanout_tick env pub_fault (replica_gate rp) (plDb s) a
           in s\<lparr>plReplicas := (plReplicas s)[i := rp\<lparr>rpAfter := Some b\<rparr>], plPublished := plPublished s @ out\<rparr>))"
| "running_turn W i (AutoscalerTurn env) s =
     (let rp = plReplicas s ! i;
          (au, k, d) = autoscaler_turn (wGetenv W) (wHostname W i) (wEngine W) env (plNow s) (replica_gate rp)
             (rpScaler rp, plDocker s, plDb s)
      in s\<lparr>plReplicas := (plReplicas s)[i := rp\<lparr>rpScaler := au\<rparr>], plDocker := k, plDb := d\<rparr>)"
| "running_turn W i (ServeRegister cenv env req) s = serve rpc_RegisterNode W i cenv env req s"
| "running_turn W i (ServeHeartbeat cenv env req) s = serve rpc_Heartbeat W i cenv env req s"
| "running_turn W i (ServeReport cenv env req) s = serve rpc_ReportTaskStatus W i cenv env req s"
| "running_turn W i (ServeSubmit cenv env req) s = serve rpc_SubmitJob W i cenv env req s"
| "running_turn W i (ServeHTTP env req) s =
     (case http_handle \<lparr>apEnv = env, apDocker = Some (wEngine W), apLeader = replica_gate (plReplicas s ! i)\<rparr>
             (wBase W) req (plDocker s, plDb s) of
        (_, k, d) \<Rightarrow> s\<lparr>plDocker := k, plDb := d\<rparr>)"

text \<open>
  A starting process makes one attempt on the lease before anything else; then its goroutines start, and the
  detector's ticker brings the whole process down when its interval is not positive.
\<close>

definition replica_start :: "('r, 'k) world \<Rightarrow> nat \<Rightarrow> dbenv \<Rightarrow> ('r, 'k) plane \<Rightarrow> ('r, 'k) plane" where
  "replica_start W i env s =
     (let s1 = elector_turn i env (replica_boot (plNow s) (wConfig W i)) s;
          cfg = main_detector_config (rcHeartbeatMS (wConfig W i))
      in if ticker_ok (dcPollInterval cfg)
         then s1\<lparr>plReplicas := (plReplicas s1)[i := (plReplicas s1 ! i)\<lparr>rpUp := True\<rparr>]\<rparr>
         else s1\<lparr>plReplicas := (plReplicas s1)[i := replica_boot (plNow s) (wConfig W i)]\<rparr>)"

definition replica_turn :: "('r, 'k) world \<Rightarrow> nat \<Rightarrow> turn \<Rightarrow> ('r, 'k) plane \<Rightarrow> ('r, 'k) plane" where
  "replica_turn W i a s =
     (if rpUp (plReplicas s ! i) then running_turn W i a s
      else case a of ProcessStart env \<Rightarrow> replica_start W i env s | _ \<Rightarrow> s)"

definition plane_start :: "('r, 'k) world \<Rightarrow> nat \<Rightarrow> time \<Rightarrow> 'r \<Rightarrow> 'k \<Rightarrow> ('r, 'k) plane" where
  "plane_start W n t r k =
     \<lparr>plReplicas = map (\<lambda>i. replica_boot t (wConfig W i)) [0..<n], plDb = migrated_db t, plNow = t, plRedis = r,
      plDocker = k, plPublished = [], plRenewed = (\<lambda>_. t)\<rparr>"

definition plane_init :: "('r, 'k) world \<Rightarrow> ('r, 'k) plane \<Rightarrow> bool" where
  "plane_init W s \<longleftrightarrow> (\<exists>n t r k. s = plane_start W n t r k
     \<and> distinct (map (\<lambda>i. cfgIdentity (rcElection (wConfig W i))) [0..<n])
     \<and> (\<forall>i < n. cfgIdentity (rcElection (wConfig W i)) \<noteq> []))"

text \<open>Time passes; Redis expires keys and Docker's containers live their own life; a replica takes a turn.\<close>

inductive plane_step :: "('r, 'k) world \<Rightarrow> ('r, 'k) plane \<Rightarrow> ('r, 'k) plane \<Rightarrow> bool" for W where
  passes: "plNow s \<le> t \<Longrightarrow> plane_step W s (s\<lparr>plNow := t\<rparr>)"
| outside: "plane_step W s (s\<lparr>plRedis := r, plDocker := k\<rparr>)"
| turns: "i < length (plReplicas s) \<Longrightarrow> plane_step W s (replica_turn W i a s)"

inductive_cases plane_stepE: "plane_step W s s'"

section \<open>The ticks are their steps\<close>

text \<open>Undisturbed, the engine's steps are its tick, and the detector's steps its sweep.\<close>

lemma engine_tick_steps:
  "\<exists>n. 0 < n \<and> n \<le> 4
     \<and> (engine_step rnd g env locked ^^ n) (EngineIdle, d) = (EngineIdle, snd (engine_tick rnd g env locked d))"
proof -
  let ?f = "engine_step rnd g env locked"
  have n: "(?f ^^ 1) x = ?f x" "(?f ^^ 2) x = ?f (?f x)" "(?f ^^ 3) x = ?f (?f (?f x))"
    "(?f ^^ 4) x = ?f (?f (?f (?f x)))" for x
    by (simp_all add: eval_nat_numeral)
  note defs = engine_step_def engine_tick_def
  consider "\<not> gate_open g \<or> (\<exists>e. ClaimPendingTasksForScheduling env locked defaultClaimLimit d = Inl e)
      \<or> ClaimPendingTasksForScheduling env locked defaultClaimLimit d = Inr []"
    | ws where "gate_open g" "ClaimPendingTasksForScheduling env locked defaultClaimLimit d = Inr ws" "ws \<noteq> []"
    by (cases "ClaimPendingTasksForScheduling env locked defaultClaimLimit d") auto
  then show ?thesis
  proof cases
    case 1
    then show ?thesis by (intro exI [of _ 1]) (unfold n, auto simp: defs)
  next
    case ws: (2 ws)
    show ?thesis
    proof (cases "ListActiveNodes env d")
      case (Inl e)
      with ws show ?thesis by (intro exI [of _ 2]) (unfold n, simp add: defs)
    next
      case nodes: (Inr nodes)
      show ?thesis
      proof (cases "GetNodeAllocations env d")
        case (Inl e)
        with ws nodes show ?thesis by (intro exI [of _ 3]) (unfold n, simp add: defs)
      next
        case (Inr allocs)
        with ws nodes show ?thesis by (intro exI [of _ 4]) (unfold n, simp add: defs)
      qed
    qed
  qed
qed

lemma detector_sweep_steps:
  "(detector_step R cenv clk cfg docker g env r ^^ length ns) (ns, reaps, d)
     = ([], reaps @ fst (evaluate_all R cenv clk cfg docker (\<lambda>_. env) r ns d),
        snd (evaluate_all R cenv clk cfg docker (\<lambda>_. env) r ns d))"
proof (induction ns arbitrary: reaps d)
  case (Cons n ns)
  obtain reap d1 where e: "evaluate R cenv clk cfg docker env r n d = (reap, d1)" by fastforce
  have "(detector_step R cenv clk cfg docker g env r ^^ length (n # ns)) (n # ns, reaps, d)
      = (detector_step R cenv clk cfg docker g env r ^^ length ns)
          (ns, reaps @ (case reap of None \<Rightarrow> [] | Some ids \<Rightarrow> [ids]), d1)"
    by (simp add: funpow_Suc_right e detector_step_def split: option.splits del: funpow.simps(2))
  then show ?case by (simp add: Cons.IH e split: option.splits prod.splits)
qed simp

lemma detector_tick_steps:
  assumes "gate_open g" and "ListActiveNodes env d = Inr ns"
  shows "(detector_step R cenv clk cfg docker g env r ^^ Suc (length ns)) ([], [], d)
     = ([], detector_tick R cenv clk cfg docker g (\<lambda>_. env) env r d)"
proof -
  have "detector_step R cenv clk cfg docker g env r ([], [], d) = (ns, [], d)"
    using assms by (simp add: detector_step_def)
  then show ?thesis
    using assms by (simp only: funpow_Suc_right o_apply detector_sweep_steps) (simp add: detector_tick_def)
qed

end
