(* ===== verification/Plane_Refinement.thy ===== *)
theory Plane_Refinement
  imports Control_Plane
begin

text \<open>
  The composed replicas refine the election and the transaction system, and what follows for them.
\<close>

section \<open>Claimed rows are left alone\<close>

text \<open>
  \<open>keeps_claims\<close>: the lease stays, and on a well-formed database pending rows, and the jobs they belong to, stay
  as they are and no task gets an assignment it did not have. Every transaction but the scheduler's own batch
  keeps this, locks or not: nothing reports on or requeues a pending task.
\<close>

definition pending_kept :: "db \<Rightarrow> db \<Rightarrow> bool" where
  "pending_kept d d' \<longleftrightarrow> set (db_jobs d) \<subseteq> set (db_jobs d')
     \<and> (\<forall>t \<in> set (db_tasks d). tStatus t = TaskStatusPending \<longrightarrow> t \<in> set (db_tasks d'))"

definition assigned :: "Task \<Rightarrow> bool" where
  "assigned t \<longleftrightarrow> tStatus t \<in> {TaskStatusScheduled, TaskStatusRunning}"

definition same_assignment :: "Task \<Rightarrow> Task \<Rightarrow> bool" where
  "same_assignment t t' \<longleftrightarrow> tID t = tID t' \<and> assigned t \<and> tAssignedNodeID t = tAssignedNodeID t'
     \<and> tAssignedEpoch t = tAssignedEpoch t'"

definition none_assigned :: "db \<Rightarrow> db \<Rightarrow> bool" where
  "none_assigned d d' \<longleftrightarrow> (\<forall>t' \<in> set (db_tasks d'). assigned t' \<longrightarrow> (\<exists>t \<in> set (db_tasks d). same_assignment t t'))"

definition keeps_claims :: "db \<Rightarrow> db \<Rightarrow> bool" where
  "keeps_claims d d' \<longleftrightarrow> db_lease d' = db_lease d \<and> (db_inv d \<longrightarrow> db_inv d' \<and> pending_kept d d' \<and> none_assigned d d')"

lemma pending_kept_same: "db_jobs d' = db_jobs d \<Longrightarrow> db_tasks d' = db_tasks d \<Longrightarrow> pending_kept d d'"
  by (simp add: pending_kept_def)

lemma pending_kept_refl [simp]: "pending_kept d d"
  by (simp add: pending_kept_def)

lemma none_assigned_same: "db_tasks d' = db_tasks d \<Longrightarrow> none_assigned d d'"
  by (auto simp: none_assigned_def same_assignment_def)

lemma none_assigned_trans: "none_assigned a b \<Longrightarrow> none_assigned b c \<Longrightarrow> none_assigned a c"
  unfolding none_assigned_def by (metis same_assignment_def)

lemma none_assigned_update:
  assumes "db_tasks d' = update_where P f (db_tasks d)"
    and "\<And>t. t \<in> set (db_tasks d) \<Longrightarrow> P t \<Longrightarrow> assigned (f t) \<Longrightarrow> same_assignment t (f t)"
  shows "none_assigned d d'"
  using assms by (auto simp: none_assigned_def set_update_where same_assignment_def split: if_splits)

lemma pending_kept_update:
  assumes "db_jobs d' = db_jobs d" and "db_tasks d' = update_where P f (db_tasks d)"
    and "\<And>t. t \<in> set (db_tasks d) \<Longrightarrow> P t \<Longrightarrow> tStatus t = TaskStatusPending \<Longrightarrow> f t = t"
  shows "pending_kept d d'"
  using assms by (force simp: pending_kept_def set_update_where)

locale claim_safe_method = history_method meth
  for meth :: "dbenv \<Rightarrow> 'p \<Rightarrow> db \<Rightarrow> (store_error + 'r) \<times> db" +
  assumes keeps_lease: "meth env p d = (Inr r, d') \<Longrightarrow> db_lease d' = db_lease d"
    and keeps_pending: "meth env p d = (Inr r, d') \<Longrightarrow> db_inv d \<Longrightarrow> pending_kept d d' \<and> none_assigned d d'"
begin

lemma call_keeps_claims: "keeps_claims d (snd (meth env p d))"
proof (cases "fst (meth env p d)")
  case (Inl e)
  then have "snd (meth env p d) = d" by (metis atomic prod.collapse)
  then show ?thesis by (simp add: keeps_claims_def none_assigned_same)
next
  case (Inr r)
  then have "meth env p d = (Inr r, snd (meth env p d))" by (metis prod.collapse)
  then show ?thesis unfolding keeps_claims_def by (auto dest: keeps_lease keeps_pending keeps_inv)
qed

end

interpretation c_register: claim_safe_method RegisterNode
  by unfold_locales (auto simp: RegisterNode_effect(2-4) intro: pending_kept_same none_assigned_same)

interpretation c_status: claim_safe_method
  "\<lambda>env (nid, st, evt, msg) d. UpdateNodeStatus env nid st evt msg d"
  by unfold_locales (auto simp: UpdateNodeStatus_effect(2-4) intro: pending_kept_same none_assigned_same)

interpretation c_dead: claim_safe_method MarkNodeDead
proof (unfold_locales, goal_cases)
  case (1 env p d r d')
  then show ?case by (rule MarkNodeDead_effect(5))
next
  case (2 env p d r d')
  note tasks = MarkNodeDead_tasks [OF 2]
  have "pending_kept d d'"
    by (rule pending_kept_update [OF MarkNodeDead_effect(4) [OF 2(1)] tasks]) (auto simp: occupies_def)
  moreover have "none_assigned d d'"
    by (rule none_assigned_update [OF tasks]) (auto simp: assigned_def requeue_orphan_def)
  ultimately show ?case ..
qed

interpretation c_create: claim_safe_method CreateJob
  by unfold_locales
     (auto simp: CreateJob_effect(4,5,9) pending_kept_def none_assigned_def same_assignment_def assigned_def new_task_def)

interpretation c_report: claim_safe_method UpdateTaskStatus
proof (unfold_locales, goal_cases)
  case (1 env p d r d')
  then show ?case by (rule UpdateTaskStatus_effect) (simp add: row_write_def)
next
  case (2 env p d r d')
  note rows = db_inv_rows [OF 2(2)]
  from 2(1) obtain task f limit where
    task: "find (\<lambda>t. tID t = uTaskID p) (db_tasks d) = Some task"
    and w: "row_write f task d r d'" and tab: "report_table env limit p task = Some r"
    by (rule UpdateTaskStatus_effect)
  from task rows have t: "task \<in> set (db_tasks d)" by (simp add: rows_ok_find_task)
  have ft: "f task = r" using w by (simp add: row_write_def)
  have "r = task" if "tStatus task = TaskStatusPending"
    using tab that by (cases rule: report_table_cases) auto
  with w ft rows_ok_task_unique [OF rows _ t] have "pending_kept d d'"
    by (intro pending_kept_update [where f = f and P = "\<lambda>t. tID t = tID task"]) (auto simp: row_write_def)
  moreover have "same_assignment task r" if "assigned r"
    using tab that
    by (cases rule: report_table_cases)
       (auto simp: same_assignment_def assigned_def running_row_def terminal_row_def requeue_failed_row_def)
  with w ft rows_ok_task_unique [OF rows _ t] have "none_assigned d d'"
    by (intro none_assigned_update [where f = f and P = "\<lambda>t. tID t = tID task"]) (auto simp: row_write_def)
  ultimately show ?case ..
qed

lemma InsertEvent_keeps_claims: "keeps_claims d (snd (InsertEvent env ety eid evt msg d))"
  using InsertEvent_frame [of env ety eid evt msg d "fst (InsertEvent env ety eid evt msg d)"
      "snd (InsertEvent env ety eid evt msg d)"] InsertEvent_later [of d env ety eid evt msg]
  by (simp add: keeps_claims_def pending_kept_same none_assigned_same)

interpretation claims: transaction_relation keeps_claims
proof (unfold_locales, goal_cases)
  case (1 d)
  then show ?case by (simp add: keeps_claims_def none_assigned_same)
next
  case (2 a b c)
  then show ?case by (auto simp: keeps_claims_def pending_kept_def intro: none_assigned_trans)
next
  case (4 d env nid st evt msg)
  then show ?case using c_status.call_keeps_claims [of d env "(nid, st, evt, msg)"] by simp
qed (rule c_register.call_keeps_claims c_dead.call_keeps_claims c_create.call_keeps_claims
       c_report.call_keeps_claims InsertEvent_keeps_claims)+

lemma pending_kept_batch:
  assumes "pending_kept d d'" and "db_inv d'" and "batch_ok ws d"
  shows "batch_ok ws d'"
  unfolding batch_ok_def
proof (intro conjI ballI)
  show "distinct (map (\<lambda>w. tID (wTask w)) ws)" using assms(3) by (simp add: batch_ok_def)
  fix w assume w: "w \<in> set ws"
  with assms(3) have t: "wTask w \<in> set (db_tasks d)" "tStatus (wTask w) = TaskStatusPending"
    and twj: "task_with_job d (wTask w) = Some w" by (auto simp: batch_ok_def)
  with assms(1) show "wTask w \<in> set (db_tasks d')" "tStatus (wTask w) = TaskStatusPending"
    by (auto simp: pending_kept_def)
  from twj obtain j where j: "find (\<lambda>j. jID j = tJobID (wTask w)) (db_jobs d) = Some j"
    by (auto simp: task_with_job_def)
  then have "j \<in> set (db_jobs d)" "jID j = tJobID (wTask w)"
    by (auto dest: find_in_set)
  with assms(1) have "j \<in> set (db_jobs d')" by (auto simp: pending_kept_def)
  then have "find (\<lambda>j. jID j = tJobID (wTask w)) (db_jobs d') = Some j"
    using rows_ok_find_job [OF db_inv_rows [OF assms(2)]] \<open>jID j = tJobID (wTask w)\<close> by blast
  with j twj show "task_with_job d' (wTask w) = Some w" by (simp add: task_with_job_def)
qed

text \<open>A batch leaves the rows of another batch alone.\<close>

lemma place_batch_others:
  assumes "db_inv d" and "batch_ok ws d" and "epochs_le nodes (db_nodes d)" and "batch_ok us d"
    and "(\<lambda>w. tID (wTask w)) ` set us \<inter> (\<lambda>w. tID (wTask w)) ` set ws = {}"
  shows "batch_ok us (snd (place_batch rnd env nodes allocs ws d))"
proof (cases "snd (place_batch rnd env nodes allocs ws d) = d")
  case False
  then obtain k d' where place: "place_tasks rnd env nodes allocs ws d = Inr (k, d')"
    and d': "snd (place_batch rnd env nodes allocs ws d) = d'"
    by (auto simp: place_batch_def split: sum.splits if_splits)
  from place_tasks_rows [OF place assms(1-3)] have jobs: "db_jobs d' = db_jobs d"
    and rows: "list_all2 (\<lambda>t t'. t' = t \<or> placed_on env ws nodes t t') (db_tasks d) (db_tasks d')"
    by (auto simp: batch_rows_def)
  have kept: "wTask u \<in> set (db_tasks d')" if u: "u \<in> set us" for u
  proof -
    from u assms(4) have "wTask u \<in> set (db_tasks d)" by (simp add: batch_ok_def)
    then obtain k where k: "k < length (db_tasks d)" "db_tasks d ! k = wTask u" by (auto simp: in_set_conv_nth)
    have "\<not> placed_on env ws nodes (wTask u) t'" for t'
      using assms(5) u by (fastforce simp: placed_on_def)
    with k rows have "db_tasks d' ! k = wTask u" "k < length (db_tasks d')"
      by (auto simp: list_all2_conv_all_nth)
    then show ?thesis by (metis nth_mem)
  qed
  with assms(4) show ?thesis
    unfolding d' by (simp add: batch_ok_def task_with_job_jobs [OF jobs])
qed (simp add: assms(4))

section \<open>The database of the replicas\<close>

definition batches_ok :: "replica list \<Rightarrow> db \<Rightarrow> bool" where
  "batches_ok rs d \<longleftrightarrow>
     (\<forall>i < length rs. batch_ok (in_flight (rpEngine (rs ! i))) d)
     \<and> (\<forall>i < length rs. \<forall>j < length rs. i \<noteq> j
          \<longrightarrow> held_ids (rpEngine (rs ! i)) \<inter> held_ids (rpEngine (rs ! j)) = {})"

definition plane_match :: "('r, 'k) plane \<Rightarrow> cluster \<Rightarrow> bool" where
  "plane_match s c \<longleftrightarrow> clDb c = plDb s
     \<and> (\<forall>i < length (plReplicas s). snapshots (rpEngine (plReplicas s ! i)) \<subseteq> set (clSnaps c))
     \<and> batches_ok (plReplicas s) (plDb s)"

text \<open>A turn that is not the engine's: a run of transactions that leaves claims alone; a dying process drops its own.\<close>

definition quiet_turn :: "('r, 'k) plane \<Rightarrow> ('r, 'k) plane \<Rightarrow> bool" where
  "quiet_turn s s' \<longleftrightarrow> length (plReplicas s') = length (plReplicas s)
     \<and> run_to (plDb s) (plDb s') \<and> (db_inv (plDb s) \<longrightarrow> pending_kept (plDb s) (plDb s') \<and> none_assigned (plDb s) (plDb s'))
     \<and> (\<forall>j < length (plReplicas s).
          rpEngine (plReplicas s' ! j) \<in> {rpEngine (plReplicas s ! j), EngineIdle})"

lemma quiet_turn_refl [simp]: "quiet_turn s s"
  by (simp add: quiet_turn_def none_assigned_same)

lemma batch_ok_Nil [simp]: "batch_ok [] d"
  by (simp add: batch_ok_def)

lemma held_ids_idle [simp]: "held_ids EngineIdle = {}"
  by (simp add: held_ids_def)

lemma quiet_match:
  assumes "quiet_turn s s'" and "plane_match s c" and "cluster_inv c"
  shows "\<exists>c'. cluster_step\<^sup>*\<^sup>* c c' \<and> plane_match s' c'"
proof -
  from assms(2) have c: "c = \<lparr>clDb = plDb s, clSnaps = clSnaps c\<rparr>" by (simp add: plane_match_def)
  from assms(1) obtain snaps where snaps: "set (clSnaps c) \<subseteq> set snaps"
    and run: "cluster_step\<^sup>*\<^sup>* \<lparr>clDb = plDb s, clSnaps = clSnaps c\<rparr> \<lparr>clDb = plDb s', clSnaps = snaps\<rparr>"
    unfolding quiet_turn_def run_to_def by blast
  have inv: "db_inv (plDb s)" using assms(2,3) by (simp add: plane_match_def cluster_inv_def)
  have "cluster_inv \<lparr>clDb = plDb s', clSnaps = snaps\<rparr>"
    using clusters.inv_steps [OF run] assms(3) c by simp
  then have inv': "db_inv (plDb s')" by (simp add: cluster_inv_def)
  have kept: "pending_kept (plDb s) (plDb s')" using assms(1) inv by (simp add: quiet_turn_def)
  have pc: "rpEngine (plReplicas s' ! j) = rpEngine (plReplicas s ! j) \<or> rpEngine (plReplicas s' ! j) = EngineIdle"
    if "j < length (plReplicas s)" for j
    using assms(1) that by (simp add: quiet_turn_def)
  have len: "length (plReplicas s') = length (plReplicas s)" using assms(1) by (simp add: quiet_turn_def)
  have "batches_ok (plReplicas s') (plDb s')"
    unfolding batches_ok_def len
  proof (intro conjI allI impI)
    fix j assume j: "j < length (plReplicas s)"
    with assms(2) have "batch_ok (in_flight (rpEngine (plReplicas s ! j))) (plDb s)"
      by (simp add: plane_match_def batches_ok_def)
    from pending_kept_batch [OF kept inv' this] pc [OF j]
    show "batch_ok (in_flight (rpEngine (plReplicas s' ! j))) (plDb s')" by auto
  next
    fix i j assume ij: "i < length (plReplicas s)" "j < length (plReplicas s)" "i \<noteq> j"
    with assms(2) have "held_ids (rpEngine (plReplicas s ! i)) \<inter> held_ids (rpEngine (plReplicas s ! j)) = {}"
      by (simp add: plane_match_def batches_ok_def)
    with pc [OF ij(1)] pc [OF ij(2)]
    show "held_ids (rpEngine (plReplicas s' ! i)) \<inter> held_ids (rpEngine (plReplicas s' ! j)) = {}"
      by auto
  qed
  moreover have "snapshots (rpEngine (plReplicas s' ! j)) \<subseteq> set snaps" if "j < length (plReplicas s)" for j
    using assms(2) pc [OF that] snaps that by (auto simp: plane_match_def dest!: spec [of _ j])
  ultimately have "plane_match s' \<lparr>clDb = plDb s', clSnaps = snaps\<rparr>" by (simp add: plane_match_def len)
  with run c show ?thesis by metis
qed

section \<open>Turns that are not the engine's\<close>

lemma claims_pending:
  "keeps_claims d d' \<Longrightarrow> db_inv d \<Longrightarrow> pending_kept d d'"
  "keeps_claims d d' \<Longrightarrow> db_inv d \<Longrightarrow> none_assigned d d'"
  by (simp_all add: keeps_claims_def)

text \<open>A transaction of replica \<open>i\<close> that leaves the position of its engine, or drops it.\<close>

lemma quiet_turnI:
  assumes "run_to (plDb s) (plDb s')" and "db_inv (plDb s) \<Longrightarrow> pending_kept (plDb s) (plDb s') \<and> none_assigned (plDb s) (plDb s')"
    and "plReplicas s' = (plReplicas s)[i := rp]" and "rpEngine rp \<in> {rpEngine (plReplicas s ! i), EngineIdle}"
  shows "quiet_turn s s'"
  using assms by (auto simp: quiet_turn_def nth_update)

lemma elector_tick_tables:
  "db_jobs (snd (elector_tick env clk e d)) = db_jobs d \<and> db_tasks (snd (elector_tick env clk e d)) = db_tasks d
   \<and> db_nodes (snd (elector_tick env clk e d)) = db_nodes d"
proof -
  obtain res d' where t: "TryAcquireOrRenewLease env clk (ident e) (cfgAdvertiseAddr (elCfg e))
      (cfgLeaseTTL (elCfg e)) d = (res, d')" by fastforce
  have "db_jobs d' = db_jobs d \<and> db_tasks d' = db_tasks d \<and> db_nodes d' = db_nodes d"
  proof (cases res)
    case (Inl err)
    with t show ?thesis using TryAcquire_error by blast
  next
    case (Inr r)
    with t have "lease_body env clk (ident e) (cfgAdvertiseAddr (elCfg e)) (cfgLeaseTTL (elCfg e)) d = Inr (r, d')"
      using TryAcquire_Inr(1) by blast
    then show ?thesis by (cases rule: lease_body_cases) auto
  qed
  with t show ?thesis by (cases res) (simp_all add: elector_tick_def)
qed

lemma elector_turn_quiet:
  assumes "rpEngine rp \<in> {rpEngine (plReplicas s ! i), EngineIdle}"
  shows "quiet_turn s (elector_turn i env rp s)"
proof (rule quiet_turnI)
  show "run_to (plDb s) (plDb (elector_turn i env rp s))"
    using run_elector_tick [of "plDb s" env "plNow s" "rpElector rp"]
    by (auto simp: elector_turn_def split: prod.splits)
  show "pending_kept (plDb s) (plDb (elector_turn i env rp s)) \<and> none_assigned (plDb s) (plDb (elector_turn i env rp s))"
    using elector_tick_tables [of env "plNow s" "rpElector rp" "plDb s"]
    by (intro conjI pending_kept_same none_assigned_same) (auto simp: elector_turn_def split: prod.splits)
  show "plReplicas (elector_turn i env rp s)
      = (plReplicas s)[i := rp\<lparr>rpElector := fst (elector_tick env (plNow s) (rpElector rp) (plDb s))\<rparr>]"
    by (simp add: elector_turn_def split: prod.splits)
qed (use assms in simp)

lemma detector_step_db:
  "snd (snd (detector_step R cenv clk cfg docker g env r (sweep, reaps, d)))
     = (case sweep of [] \<Rightarrow> d | n # ns \<Rightarrow> snd (evaluate R cenv clk cfg docker env r n d))"
  by (auto simp: detector_step_def split: list.splits sum.splits option.splits prod.splits)

text \<open>The turns of the detector, the autoscaler and the HTTP server, with the result of the component named.\<close>

lemma turn_results:
  fixes s :: "('r, 'k) plane"
  shows "\<exists>x. snd (snd x) = (case rpSweep (plReplicas s ! i) of
            [] \<Rightarrow> plDb s
          | n # ns \<Rightarrow> snd (evaluate (wRedis W) cenv (plNow s) (main_detector_config (rcHeartbeatMS (wConfig W i)))
                        True env (plRedis s) n (plDb s)))
      \<and> running_turn W i (DetectorStep cenv env) s
          = s\<lparr>plReplicas := (plReplicas s)[i := (plReplicas s ! i)\<lparr>rpSweep := fst x, rpReaps := fst (snd x)\<rparr>],
              plDb := snd (snd x)\<rparr>"
    and "\<exists>x. x = autoscaler_turn (wGetenv W) (wHostname W i) (wEngine W) env (plNow s)
            (replica_gate (plReplicas s ! i)) (rpScaler (plReplicas s ! i), plDocker s, plDb s)
      \<and> running_turn W i (AutoscalerTurn env) s
          = s\<lparr>plReplicas := (plReplicas s)[i := (plReplicas s ! i)\<lparr>rpScaler := fst x\<rparr>],
              plDocker := fst (snd x), plDb := snd (snd x)\<rparr>"
    and "\<exists>x. x = http_handle \<lparr>apEnv = env, apDocker = Some (wEngine W), apLeader = replica_gate (plReplicas s ! i)\<rparr>
            (wBase W) req (plDocker s, plDb s)
      \<and> running_turn W i (ServeHTTP env req) s = s\<lparr>plDocker := fst (snd x), plDb := snd (snd x)\<rparr>"
    and "\<exists>x. x = handler (main_server (wRedis W) cenv (plNow s) envs (replica_gate (plReplicas s ! i))
            (rcHeartbeatMS (wConfig W i))) q (plRedis s, plDb s)
      \<and> serve handler W i cenv envs q s = s\<lparr>plRedis := fst (snd x), plDb := snd (snd x)\<rparr>"
    and "\<exists>x. x = engine_step (wRound W) (replica_gate (plReplicas s ! i)) env (locked \<union> locked_elsewhere i s)
            (rpEngine (plReplicas s ! i), plDb s)
      \<and> running_turn W i (EngineStep env locked) s
          = s\<lparr>plReplicas := (plReplicas s)[i := (plReplicas s ! i)\<lparr>rpEngine := fst x\<rparr>], plDb := snd x\<rparr>"
proof -
  let ?det = "detector_step (wRedis W) cenv (plNow s) (main_detector_config (rcHeartbeatMS (wConfig W i)))
     True (replica_gate (plReplicas s ! i)) env (plRedis s)
     (rpSweep (plReplicas s ! i), rpReaps (plReplicas s ! i), plDb s)"
  show "\<exists>x. snd (snd x) = (case rpSweep (plReplicas s ! i) of
            [] \<Rightarrow> plDb s
          | n # ns \<Rightarrow> snd (evaluate (wRedis W) cenv (plNow s) (main_detector_config (rcHeartbeatMS (wConfig W i)))
                        True env (plRedis s) n (plDb s)))
      \<and> running_turn W i (DetectorStep cenv env) s
          = s\<lparr>plReplicas := (plReplicas s)[i := (plReplicas s ! i)\<lparr>rpSweep := fst x, rpReaps := fst (snd x)\<rparr>],
              plDb := snd (snd x)\<rparr>"
    by (intro exI [of _ ?det] conjI detector_step_db) (simp add: Let_def split: prod.splits)
qed (simp_all add: serve_def Let_def split: prod.splits)

lemma serve_quiet:
  assumes "\<And>srv r d. run_to d (snd (snd (handler srv req (r, d))))"
    and "\<And>srv r d. keeps_claims d (snd (snd (handler srv req (r, d))))"
  shows "quiet_turn s (serve handler W i cenv env req s)"
  using turn_results(4) [where s = s and i = i and W = W and cenv = cenv and envs = env and q = req and handler = handler] assms
  by (auto intro!: quiet_turnI [where i = i and rp = "plReplicas s ! i"] intro: claims_pending)

lemma running_turn_quiet:
  assumes "\<nexists>env locked. a = EngineStep env locked"
  shows "quiet_turn s (running_turn W i a s)"
proof (cases a)
  case (DetectorStep cenv env)
  from turn_results(1) [where s = s and i = i and W = W and cenv = cenv and env = env] obtain x where
    x: "snd (snd x) = (case rpSweep (plReplicas s ! i) of
            [] \<Rightarrow> plDb s
          | n # ns \<Rightarrow> snd (evaluate (wRedis W) cenv (plNow s) (main_detector_config (rcHeartbeatMS (wConfig W i)))
                        True env (plRedis s) n (plDb s)))"
    and turn: "running_turn W i a s = s\<lparr>plReplicas := (plReplicas s)[i := (plReplicas s ! i)\<lparr>rpSweep := fst x,
        rpReaps := fst (snd x)\<rparr>], plDb := snd (snd x)\<rparr>" unfolding DetectorStep by blast
  have "run_to (plDb s) (snd (snd x)) \<and> keeps_claims (plDb s) (snd (snd x))"
    unfolding x by (auto simp: runs.detector_evaluate claims.detector_evaluate claims.refl split: list.splits)
  then show ?thesis unfolding turn by (intro quiet_turnI) (auto intro: claims_pending)
next
  case (AutoscalerTurn env)
  with turn_results(2) [where s = s and i = i and W = W and env = env] show ?thesis
    by (auto intro!: quiet_turnI runs.autoscaler_turned claims_pending claims.autoscaler_turned)
next
  case (ServeHTTP env req)
  with turn_results(3) [where s = s and i = i and W = W and env = env and req = req] show ?thesis
    by (auto intro!: quiet_turnI [where i = i and rp = "plReplicas s ! i"] runs.http claims_pending claims.http)
next
  case (FanoutTick env pub_fault)
  then show ?thesis
    by (auto simp: quiet_turn_def Let_def nth_update none_assigned_same split: option.splits prod.splits)
qed (use assms in \<open>auto simp: none_assigned_same elector_turn_quiet Let_def replica_boot_def
       intro!: serve_quiet runs.register runs.heartbeat runs.report runs.submit claims.register claims.heartbeat
         claims.report claims.submit
       intro: quiet_turnI split: option.splits\<close>)

lemma replica_start_quiet: "quiet_turn s (replica_start W i env s)"
proof -
  let ?boot = "replica_boot (plNow s) (wConfig W i)"
  have "quiet_turn s (elector_turn i env ?boot s)"
    by (rule elector_turn_quiet) (simp add: replica_boot_def)
  then show ?thesis
    by (auto simp: replica_start_def quiet_turn_def Let_def nth_update replica_boot_def elector_turn_def
        split: prod.splits)
qed

section \<open>The engine's turn\<close>

lemma claim_rows_unlocked: "w \<in> set (claim_rows t0 locked limit d) \<Longrightarrow> tID (wTask w) \<notin> locked"
  by (auto simp: claim_rows_def dest!: in_set_takeD)

text \<open>
  A step of replica \<open>i\<close>'s engine keeps the batches apart: a claim skips the rows the others hold, and a
  placed batch writes its own rows only.
\<close>

lemma batches_update:
  assumes "batches_ok rs d" and "batch_ok (in_flight (rpEngine rp)) d"
    and "\<And>j. j < length rs \<Longrightarrow> j \<noteq> i \<Longrightarrow> held_ids (rpEngine rp) \<inter> held_ids (rpEngine (rs ! j)) = {}"
  shows "batches_ok (rs[i := rp]) d"
proof -
  have "held_ids (rpEngine (rs[i := rp] ! j)) \<inter> held_ids (rpEngine (rs[i := rp] ! k)) = {}"
    if "j < length rs" "k < length rs" "j \<noteq> k" for j k
  proof (cases "i = j \<or> i = k")
    case True
    with assms(3) [of j] assms(3) [of k] that show ?thesis by (auto simp: nth_update)
  next
    case False
    with assms(1) that show ?thesis by (simp add: nth_update batches_ok_def)
  qed
  with assms(1,2) show ?thesis by (auto simp: batches_ok_def nth_update)
qed

lemma engine_claim_match:
  assumes "plane_match s c" and "db_inv (plDb s)" and "i < length (plReplicas s)"
    and "ws = claim_rows t0 (locked \<union> locked_elsewhere i s) limit (plDb s)"
  shows "plane_match (s\<lparr>plReplicas := (plReplicas s)[i := (plReplicas s ! i)\<lparr>rpEngine := Claimed ws\<rparr>]\<rparr>) c"
proof -
  have "held_ids (Claimed ws) \<inter> held_ids (rpEngine (plReplicas s ! j)) = {}"
    if "j < length (plReplicas s)" "j \<noteq> i" for j
    using that claim_rows_unlocked
    unfolding assms(4) held_ids_def locked_elsewhere_def by fastforce
  moreover have "batch_ok ws (plDb s)" unfolding assms(4) by (rule claim_rows_batch [OF assms(2)])
  ultimately have "batches_ok ((plReplicas s)[i := (plReplicas s ! i)\<lparr>rpEngine := Claimed ws\<rparr>]) (plDb s)"
    using assms(1) by (intro batches_update) (auto simp: plane_match_def)
  with assms(1) show ?thesis by (auto simp: plane_match_def nth_update)
qed

text \<open>A step that keeps the batch, or drops it.\<close>

lemma engine_same_match:
  assumes "plane_match s c" and "i < length (plReplicas s)"
    and "in_flight pc = in_flight (rpEngine (plReplicas s ! i)) \<or> pc = EngineIdle"
    and "snapshots pc \<subseteq> set (clSnaps c')" and "clDb c' = clDb c" and "set (clSnaps c) \<subseteq> set (clSnaps c')"
  shows "plane_match (s\<lparr>plReplicas := (plReplicas s)[i := (plReplicas s ! i)\<lparr>rpEngine := pc\<rparr>]\<rparr>) c'"
proof -
  have b: "batches_ok (plReplicas s) (plDb s)" using assms(1) by (simp add: plane_match_def)
  have "held_ids pc \<inter> held_ids (rpEngine (plReplicas s ! j)) = {}" if "j < length (plReplicas s)" "j \<noteq> i" for j
  proof -
    have "held_ids (rpEngine (plReplicas s ! i)) \<inter> held_ids (rpEngine (plReplicas s ! j)) = {}"
      using b assms(2) that by (simp add: batches_ok_def)
    moreover have "held_ids pc \<subseteq> held_ids (rpEngine (plReplicas s ! i))"
      using assms(3) by (auto simp: held_ids_def)
    ultimately show ?thesis by blast
  qed
  moreover have "batch_ok (in_flight pc) (plDb s)" using b assms(2,3) by (auto simp: batches_ok_def)
  ultimately have "batches_ok ((plReplicas s)[i := (plReplicas s ! i)\<lparr>rpEngine := pc\<rparr>]) (plDb s)"
    using b by (intro batches_update) auto
  moreover have "snapshots (rpEngine (plReplicas s ! j)) \<subseteq> set (clSnaps c')" if "j < length (plReplicas s)" for j
    using assms(1,6) that by (auto simp: plane_match_def dest!: spec [of _ j])
  ultimately show ?thesis using assms(1,4,5) by (simp add: plane_match_def nth_update)
qed

lemma engine_place_match:
  assumes "plane_match s c" and "cluster_inv c" and "i < length (plReplicas s)"
    and "rpEngine (plReplicas s ! i) = Allocated ws nodes allocs"
    and d'_def: "d' = snd (place_batch rnd env nodes allocs ws (plDb s))"
  shows "\<exists>c'. cluster_step\<^sup>*\<^sup>* c c'
    \<and> plane_match (s\<lparr>plReplicas := (plReplicas s)[i := (plReplicas s ! i)\<lparr>rpEngine := EngineIdle\<rparr>], plDb := d'\<rparr>) c'"
proof -
  let ?rs = "plReplicas s"
  have b: "batches_ok ?rs (plDb s)" and db: "clDb c = plDb s" using assms(1) by (simp_all add: plane_match_def)
  have snap: "nodes \<in> set (clSnaps c)"
    using assms(1,3,4) by (auto simp: plane_match_def dest!: spec [of _ i])
  have ok: "batch_ok ws (plDb s)" using b assms(3,4) by (auto simp: batches_ok_def dest!: spec [of _ i])
  have inv: "db_inv (plDb s)" "epochs_le nodes (db_nodes (plDb s))"
    using assms(2) db snap by (auto simp: cluster_inv_def list_all_iff)
  have step: "cluster_step c (c\<lparr>clDb := d'\<rparr>)"
    using cluster_step.places [of ws c nodes rnd env allocs] ok snap unfolding d'_def db by blast
  have others: "batch_ok (in_flight (rpEngine (?rs ! j))) d'" if j: "j < length ?rs" "j \<noteq> i" for j
    unfolding d'_def
  proof (rule place_batch_others [OF inv(1) ok inv(2)])
    show "batch_ok (in_flight (rpEngine (?rs ! j))) (plDb s)" using b j(1) by (simp add: batches_ok_def)
    have "held_ids (rpEngine (?rs ! j)) \<inter> held_ids (rpEngine (?rs ! i)) = {}"
      using b j assms(3) by (simp add: batches_ok_def)
    then show "(\<lambda>w. tID (wTask w)) ` set (in_flight (rpEngine (?rs ! j))) \<inter> (\<lambda>w. tID (wTask w)) ` set ws = {}"
      by (simp add: held_ids_def assms(4))
  qed
  have "plane_match (s\<lparr>plReplicas := ?rs[i := (?rs ! i)\<lparr>rpEngine := EngineIdle\<rparr>]\<rparr>) c"
    by (rule engine_same_match [OF assms(1,3)]) simp_all
  then have "plane_match (s\<lparr>plReplicas := ?rs[i := (?rs ! i)\<lparr>rpEngine := EngineIdle\<rparr>], plDb := d'\<rparr>) (c\<lparr>clDb := d'\<rparr>)"
    using others by (auto simp: plane_match_def batches_ok_def nth_update)
  with step show ?thesis by blast
qed

lemma engine_turn_match:
  assumes "plane_match s c" and "cluster_inv c" and "i < length (plReplicas s)"
  shows "\<exists>c'. cluster_step\<^sup>*\<^sup>* c c' \<and> plane_match (running_turn W i (EngineStep env locked) s) c'"
proof -
  let ?rp = "plReplicas s ! i"
  let ?step = "engine_step (wRound W) (replica_gate ?rp) env (locked \<union> locked_elsewhere i s)"
  obtain pc d where step: "?step (rpEngine ?rp, plDb s) = (pc, d)" by fastforce
  then have turn: "running_turn W i (EngineStep env locked) s
      = s\<lparr>plReplicas := (plReplicas s)[i := ?rp\<lparr>rpEngine := pc\<rparr>], plDb := d\<rparr>" by simp
  have db: "clDb c = plDb s" and inv: "db_inv (plDb s)"
    using assms(1,2) by (simp_all add: plane_match_def cluster_inv_def)
  have old: "snapshots (rpEngine ?rp) \<subseteq> set (clSnaps c)" using assms(1,3) by (simp add: plane_match_def)
  note same = engine_same_match [OF assms(1,3)]
  have stay: ?thesis if "d = plDb s" "plane_match (s\<lparr>plReplicas := (plReplicas s)[i := ?rp\<lparr>rpEngine := pc\<rparr>]\<rparr>) c"
    using that turn by (metis plane.surjective plane.update_convs(1,2) rtranclp.rtrancl_refl)
  show ?thesis
  proof (cases "rpEngine ?rp")
    case EngineIdle
    with step have "d = plDb s" and "pc = EngineIdle \<or>
        pc = Claimed (claim_rows (db_now env) (locked \<union> locked_elsewhere i s) defaultClaimLimit (plDb s))"
      by (auto simp: engine_step_def ClaimPendingTasksForScheduling_def pool_query_def split: if_splits sum.splits)
    then show ?thesis
      using same [of EngineIdle c] engine_claim_match [OF assms(1) inv assms(3) refl] by (intro stay) auto
  next
    case (Claimed ws)
    show ?thesis
    proof (cases "ListActiveNodes env (plDb s)")
      case (Inl e)
      with Claimed step same [of EngineIdle c] show ?thesis by (intro stay) (auto simp: engine_step_def)
    next
      case (Inr nodes)
      with Claimed step have pc: "pc = Listed ws nodes" "d = plDb s" by (auto simp: engine_step_def)
      have "cluster_step c (c\<lparr>clSnaps := nodes # clSnaps c\<rparr>)"
        using Inr db by (intro cluster_step.reads) simp
      moreover have "plane_match (running_turn W i (EngineStep env locked) s) (c\<lparr>clSnaps := nodes # clSnaps c\<rparr>)"
        using same [of pc "c\<lparr>clSnaps := nodes # clSnaps c\<rparr>"] Claimed pc unfolding turn by auto
      ultimately show ?thesis by blast
    qed
  next
    case (Listed ws nodes)
    with step have "d = plDb s" "pc = EngineIdle \<or> (\<exists>allocs. pc = Allocated ws nodes allocs)"
      by (auto simp: engine_step_def split: sum.splits)
    then show ?thesis using same [of pc c] old Listed by (intro stay) auto
  next
    case (Allocated ws nodes allocs)
    with step have "pc = EngineIdle" "d = snd (place_batch (wRound W) env nodes allocs ws (plDb s))"
      by (simp_all add: engine_step_def)
    with engine_place_match [OF assms Allocated refl, of "wRound W" env] show ?thesis unfolding turn by simp
  qed
qed

section \<open>Two refinements\<close>

lemma replica_turn_match:
  assumes "plane_match s c" and "cluster_inv c" and "i < length (plReplicas s)"
  shows "\<exists>c'. cluster_step\<^sup>*\<^sup>* c c' \<and> plane_match (replica_turn W i a s) c'"
proof (cases "rpUp (plReplicas s ! i) \<and> (\<exists>env locked. a = EngineStep env locked)")
  case True
  with engine_turn_match [OF assms] show ?thesis by (auto simp: replica_turn_def)
next
  case False
  then have "quiet_turn s (replica_turn W i a s)"
    using running_turn_quiet [of a s W i] replica_start_quiet [of s W i]
    by (auto simp: replica_turn_def split: turn.splits)
  from quiet_match [OF this assms(1,2)] show ?thesis .
qed

interpretation planes: simulation cluster_init cluster_step cluster_inv "plane_init W" "plane_step W" plane_match
  for W :: "('r, 'k) world"
proof (unfold_locales, goal_cases)
  case (1 s)
  then obtain n t r k where "s = plane_start W n t r k" by (auto simp: plane_init_def)
  then have "plane_match s \<lparr>clDb = migrated_db t, clSnaps = []\<rparr>"
    by (auto simp: plane_match_def plane_start_def batches_ok_def replica_boot_def)
  moreover have "cluster_init \<lparr>clDb = migrated_db t, clSnaps = []\<rparr>"
    by (simp add: cluster_init_def migrated_db_def)
  ultimately show ?case by blast
next
  case (2 s s' c)
  from 2(1) show ?case
  proof (cases rule: plane_step.cases)
    case (passes t)
    with 2(2) have "plane_match s' c" by (simp add: plane_match_def)
    then show ?thesis by blast
  next
    case (outside r k)
    with 2(2) have "plane_match s' c" by (simp add: plane_match_def)
    then show ?thesis by blast
  next
    case (turns i a)
    with replica_turn_match [OF 2(2,3)] show ?thesis by blast
  qed
qed

text \<open>The elections the replicas hold.\<close>

definition election_of :: "('r, 'k) plane \<Rightarrow> election" where
  "election_of s = \<lparr>exElectors = map rpElector (plReplicas s), exDb = plDb s, exNow = plNow s,
     exRenewed = plRenewed s\<rparr>"

definition election_match :: "('r, 'k) world \<Rightarrow> ('r, 'k) plane \<Rightarrow> election \<Rightarrow> bool" where
  "election_match W s x \<longleftrightarrow> x = election_of s
     \<and> (\<forall>i < length (plReplicas s).
          elCfg (rpElector (plReplicas s ! i)) = elCfg (New_Elector (rcElection (wConfig W i))))"

lemma place_tasks_lease: "place_tasks rnd env nodes allocs ws d = Inr (k, d') \<Longrightarrow> db_lease d' = db_lease d"
proof (induction ws arbitrary: allocs d k)
  case (Cons w ws)
  then show ?case by (auto split: option.splits sum.splits dest: ScheduleTask_effect(4)) 
qed simp

lemma place_batch_lease: "db_lease (snd (place_batch rnd env nodes allocs ws d)) = db_lease d"
  by (auto simp: place_batch_def split: sum.splits dest: place_tasks_lease)

lemma engine_step_lease: "db_lease (snd (engine_step rnd g env locked (pc, d))) = db_lease d"
  by (auto simp: engine_step_def place_batch_lease split: engine_pc.splits sum.splits)

lemma claims_lease: "keeps_claims d d' \<Longrightarrow> db_lease d' = db_lease d"
  by (simp add: keeps_claims_def)

lemma map_rpElector_update:
  "rpElector rp = rpElector (rs ! i) \<Longrightarrow> map rpElector (rs[i := rp]) = map rpElector rs"
  by (metis list_update_beyond list_update_id map_update not_le nth_map)

text \<open>A turn that is neither the elector's nor the process's own keeps the electors and the lease.\<close>

definition no_election :: "('r, 'k) plane \<Rightarrow> ('r, 'k) plane \<Rightarrow> bool" where
  "no_election s s' \<longleftrightarrow> map rpElector (plReplicas s') = map rpElector (plReplicas s)
     \<and> plNow s' = plNow s \<and> plRenewed s' = plRenewed s \<and> db_lease (plDb s') = db_lease (plDb s)"

lemma serve_no_election:
  assumes "\<And>srv r d. keeps_claims d (snd (snd (handler srv req (r, d))))"
  shows "no_election s (serve handler W i cenv env req s)"
  using turn_results(4) [where s = s and i = i and W = W and cenv = cenv and envs = env and q = req and handler = handler] assms [THEN claims_lease] by (auto simp: no_election_def)

lemma running_turn_no_election:
  assumes "a \<noteq> ProcessStop" and "\<nexists>env. a = ElectorTick env"
  shows "no_election s (running_turn W i a s)"
proof (cases a)
  case (EngineStep env locked)
  with turn_results(5) [where s = s and i = i and W = W and env = env and locked = locked] show ?thesis
    by (auto simp: no_election_def map_rpElector_update engine_step_lease)
next
  case (DetectorStep cenv env)
  with turn_results(1) [where s = s and i = i and W = W and cenv = cenv and env = env] show ?thesis
    by (auto simp: no_election_def map_rpElector_update claims.detector_evaluate [THEN claims_lease]
        split: list.splits)
next
  case (AutoscalerTurn env)
  with turn_results(2) [where s = s and i = i and W = W and env = env] show ?thesis
    by (auto simp: no_election_def map_rpElector_update claims.autoscaler_turned [THEN claims_lease])
next
  case (ServeHTTP env req)
  with turn_results(3) [where s = s and i = i and W = W and env = env and req = req] show ?thesis
    by (auto simp: no_election_def claims.http [THEN claims_lease])
next
  case (FanoutTick env pub_fault)
  then show ?thesis by (auto simp: Let_def no_election_def map_rpElector_update split: option.splits prod.splits)
qed (use assms in \<open>auto simp: Let_def no_election_def [of s s] map_rpElector_update
       intro!: serve_no_election claims.register claims.heartbeat claims.report claims.submit\<close>,
     auto simp: no_election_def map_rpElector_update split: option.splits)

lemma election_Other:
  assumes "no_election s s'" and "election_match W s x"
  shows "election_step x (election_of s') \<and> election_match W s' (election_of s')"
proof -
  have x: "x = election_of s" using assms(2) by (simp add: election_match_def)
  have els: "map rpElector (plReplicas s') = map rpElector (plReplicas s)" using assms(1) by (simp add: no_election_def)
  have "election_of s' = (election_of s)\<lparr>exDb := plDb s'\<rparr>"
    using assms(1) by (simp add: election_of_def no_election_def)
  moreover have "db_lease (plDb s') = db_lease (exDb (election_of s))"
    using assms(1) by (simp add: election_of_def no_election_def)
  ultimately have "election_step x (election_of s')" unfolding x by (metis election_step.Other)
  moreover have "length (plReplicas s') = length (plReplicas s)" using els by (metis length_map)
  with els have "rpElector (plReplicas s' ! i) = rpElector (plReplicas s ! i)" if "i < length (plReplicas s)" for i
    using that by (metis nth_map)
  ultimately show ?thesis
    using assms(2) \<open>length (plReplicas s') = length (plReplicas s)\<close> by (simp add: election_match_def)
qed

lemma election_Tick:
  assumes "election_match W s x" and "i < length (plReplicas s)" and "rpElector rp = rpElector (plReplicas s ! i)"
  shows "election_step x (election_of (elector_turn i env rp s))
    \<and> election_match W (elector_turn i env rp s) (election_of (elector_turn i env rp s))"
proof -
  obtain e d where t: "elector_tick env (plNow s) (rpElector rp) (plDb s) = (e, d)" by fastforce
  have x: "x = election_of s" using assms(1) by (simp add: election_match_def)
  have "election_of (elector_turn i env rp s) = (election_of s)\<lparr>exElectors := (exElectors (election_of s))[i := e],
      exDb := d, exRenewed := (exRenewed (election_of s))(i :=
        if attempt_holds env (exNow (election_of s)) (exElectors (election_of s) ! i) (exDb (election_of s))
        then exNow (election_of s) else exRenewed (election_of s) i)\<rparr>"
    using t assms(2,3) by (simp add: election_of_def elector_turn_def map_update)
  moreover have "elector_tick env (exNow (election_of s)) (exElectors (election_of s) ! i) (exDb (election_of s)) = (e, d)"
    using t assms(2,3) by (simp add: election_of_def)
  ultimately have "election_step x (election_of (elector_turn i env rp s))"
    unfolding x using election_step.Tick [of i "election_of s" env e d] assms(2) by (simp add: election_of_def)
  moreover have "elCfg e = elCfg (rpElector rp)" using t by (rule ident_elector_tick)
  ultimately show ?thesis
    using assms t by (auto simp: election_match_def elector_turn_def nth_update)
qed

lemma election_Restart:
  assumes "election_match W s x" and "i < length (plReplicas s)"
    and "s' = s\<lparr>plReplicas := (plReplicas s)[i := replica_boot clk (wConfig W i)]\<rparr>"
  shows "election_step x (election_of s') \<and> election_match W s' (election_of s')"
proof -
  have x: "x = election_of s" using assms(1) by (simp add: election_match_def)
  have "New_Elector (elCfg (rpElector (plReplicas s ! i))) = New_Elector (rcElection (wConfig W i))"
    using assms(1,2) New_Elector_again by (simp add: election_match_def)
  then have "election_of s' = (election_of s)\<lparr>exElectors := (exElectors (election_of s))
      [i := New_Elector (elCfg (exElectors (election_of s) ! i))]\<rparr>"
    using assms(2) by (simp add: election_of_def assms(3) map_update replica_boot_def)
  then have "election_step x (election_of s')"
    unfolding x using election_step.Restart [of i "election_of s"] assms(2) by (simp add: election_of_def)
  then show ?thesis
    using assms(1) by (auto simp: election_match_def assms(3) nth_update replica_boot_def)
qed

lemma replica_start_match:
  assumes m: "election_match W s x" and i: "i < length (plReplicas s)"
  shows "\<exists>x'. election_step\<^sup>*\<^sup>* x x' \<and> election_match W (replica_start W i env s) x'"
proof -
  let ?boot = "replica_boot (plNow s) (wConfig W i)"
  define s0 where "s0 = s\<lparr>plReplicas := (plReplicas s)[i := ?boot]\<rparr>"
  define s1 where "s1 = elector_turn i env ?boot s"
  have i0: "i < length (plReplicas s0)" using i by (simp add: s0_def)
  have i1: "i < length (plReplicas s1)" using i by (simp add: s1_def elector_turn_def split: prod.splits)
  have s1: "elector_turn i env ?boot s0 = s1"
    using i by (simp add: s0_def s1_def elector_turn_def split: prod.splits)
  from election_Restart [OF m i s0_def] have a: "election_step x (election_of s0)" "election_match W s0 (election_of s0)"
    by auto
  from election_Tick [OF a(2) i0, of ?boot env] i
  have b: "election_step (election_of s0) (election_of s1)" "election_match W s1 (election_of s1)"
    unfolding s1 by (auto simp: s0_def)
  have now: "plNow s1 = plNow s" by (simp add: s1_def elector_turn_def split: prod.splits)
  show ?thesis
  proof (cases "ticker_ok (dcPollInterval (main_detector_config (rcHeartbeatMS (wConfig W i))))")
    case True
    let ?s = "s1\<lparr>plReplicas := (plReplicas s1)[i := (plReplicas s1 ! i)\<lparr>rpUp := True\<rparr>]\<rparr>"
    have "replica_start W i env s = ?s" using True by (simp add: replica_start_def s1_def Let_def)
    moreover have "election_match W ?s (election_of s1)"
      using b(2) by (auto simp: election_match_def election_of_def map_rpElector_update nth_update)
    ultimately show ?thesis using a(1) b(1) by (metis converse_rtranclp_into_rtranclp r_into_rtranclp)
  next
    case False
    let ?s = "s1\<lparr>plReplicas := (plReplicas s1)[i := ?boot]\<rparr>"
    have "replica_start W i env s = ?s" using False by (simp add: replica_start_def s1_def Let_def)
    moreover from election_Restart [OF b(2) i1 refl, of "plNow s"]
    have "election_step (election_of s1) (election_of ?s)" "election_match W ?s (election_of ?s)" by auto
    ultimately show ?thesis using a(1) b(1)
      by (metis converse_rtranclp_into_rtranclp r_into_rtranclp)
  qed
qed

lemma replica_turn_election:
  assumes m: "election_match W s x" and i: "i < length (plReplicas s)"
  shows "\<exists>x'. election_step\<^sup>*\<^sup>* x x' \<and> election_match W (replica_turn W i a s) x'"
proof (cases "rpUp (plReplicas s ! i)")
  case True
  then have turn: "replica_turn W i a s = running_turn W i a s" by (simp add: replica_turn_def)
  consider "a = ProcessStop" | env where "a = ElectorTick env" | "a \<noteq> ProcessStop" "\<nexists>env. a = ElectorTick env" by blast
  then have "\<exists>x'. election_step x x' \<and> election_match W (running_turn W i a s) x'"
  proof cases
    case 1
    with election_Restart [OF m i refl, of "plNow s"] show ?thesis by auto
  next
    case (2 env)
    with election_Tick [OF m i refl, of env] show ?thesis by auto
  next
    case 3
    from election_Other [OF running_turn_no_election [OF this] m] show ?thesis by blast
  qed
  then show ?thesis unfolding turn by blast
next
  case False
  then show ?thesis
    using m replica_start_match [OF m i] by (cases a) (auto simp: replica_turn_def)
qed

interpretation leaders: simulation election_init election_step election_inv "plane_init W" "plane_step W"
    "election_match W"
  for W :: "('r, 'k) world"
proof (unfold_locales, goal_cases)
  case (1 s)
  then obtain n t r k where s: "s = plane_start W n t r k"
    and ids: "distinct (map (\<lambda>i. cfgIdentity (rcElection (wConfig W i))) [0..<n])"
      "\<forall>i < n. cfgIdentity (rcElection (wConfig W i)) \<noteq> []"
    by (auto simp: plane_init_def)
  let ?cfgs = "map (\<lambda>i. rcElection (wConfig W i)) [0..<n]"
  have "election_match W s (election_start ?cfgs t)"
    by (auto simp: s election_match_def election_of_def plane_start_def election_start_def replica_boot_def)
  moreover have "election_init (election_start ?cfgs t)"
    unfolding election_init_def using ids by (intro exI [of _ ?cfgs] exI [of _ t]) (auto simp: comp_def)
  ultimately show ?case by blast
next
  case (2 s s' x)
  from 2(1) show ?case
  proof (cases rule: plane_step.cases)
    case (passes t)
    then have "election_step x (election_of s')"
      using 2(2) election_step.Advance [of "election_of s" t] by (simp add: election_match_def election_of_def)
    moreover have "election_match W s' (election_of s')" using 2(2) passes by (simp add: election_match_def)
    ultimately show ?thesis by blast
  next
    case (outside r k)
    with 2(2) have "election_match W s' x" by (simp add: election_match_def election_of_def)
    then show ?thesis by blast
  next
    case (turns i a)
    with replica_turn_election [OF 2(2)] show ?thesis by blast
  qed
qed

end
