(* ===== verification/Plane_Props.thy ===== *)
theory Plane_Props
  imports Plane_Refinement
begin

text \<open>
  What holds of the scheduler replicas together, from the two refinements: the database they share, the batches
  they place, which of them write, and what happens when one takes over from another.
\<close>

section \<open>Lemmas\<close>

lemma length_replica_turn [simp]: "length (plReplicas (replica_turn W i a s)) = length (plReplicas s)"
proof (cases "rpUp (plReplicas s ! i) \<and> (\<exists>env locked. a = EngineStep env locked)")
  case True
  then obtain env locked where "rpUp (plReplicas s ! i)" "a = EngineStep env locked" by blast
  then show ?thesis by (simp add: replica_turn_def Let_def split: prod.splits)
next
  case False
  then have "quiet_turn s (replica_turn W i a s)"
    using running_turn_quiet [of a s W i] replica_start_quiet [of s W i]
    by (auto simp: replica_turn_def split: turn.splits)
  then show ?thesis by (simp add: quiet_turn_def)
qed

abbreviation take_turns :: "('r, 'k) world \<Rightarrow> (nat \<times> turn) list \<Rightarrow> ('r, 'k) plane \<Rightarrow> ('r, 'k) plane" where
  "take_turns W ts s \<equiv> fold (\<lambda>(i, a). replica_turn W i a) ts s"

lemma take_turns_steps:
  "list_all (\<lambda>(i, a). i < length (plReplicas s)) ts \<Longrightarrow> (plane_step W)\<^sup>*\<^sup>* s (take_turns W ts s)"
proof (induction ts arbitrary: s)
  case (Cons t ts)
  obtain i a where t: "t = (i, a)" by fastforce
  with Cons.prems have "plane_step W s (replica_turn W i a s)" by (simp add: plane_step.turns)
  moreover have "(plane_step W)\<^sup>*\<^sup>* (replica_turn W i a s) (take_turns W ts (replica_turn W i a s))"
    using Cons.prems by (intro Cons.IH) simp
  ultimately show ?case by (simp add: t)
qed simp

lemma reachable_steps: "reachable_by init step s \<Longrightarrow> step\<^sup>*\<^sup>* s s' \<Longrightarrow> reachable_by init step s'"
  unfolding reachable_by_def by (meson rtranclp_trans)

text \<open>Every row a placed batch assigns was pending.\<close>

lemma place_batch_assigns:
  assumes "db_inv d" and "batch_ok ws d" and "epochs_le nodes (db_nodes d)"
    and "t' \<in> set (db_tasks (snd (place_batch rnd env nodes allocs ws d)))"
  shows "\<exists>t \<in> set (db_tasks d). tID t = tID t' \<and> (t' = t \<or> tStatus t = TaskStatusPending \<and> tID t \<in> (\<lambda>w. tID (wTask w)) ` set ws)"
proof (cases "snd (place_batch rnd env nodes allocs ws d) = d")
  case False
  then obtain k d' where place: "place_tasks rnd env nodes allocs ws d = Inr (k, d')"
    and d': "snd (place_batch rnd env nodes allocs ws d) = d'"
    by (auto simp: place_batch_def split: sum.splits if_splits)
  from place_tasks_rows [OF place assms(1-3)]
  have rows: "list_all2 (\<lambda>t t'. t' = t \<or> placed_on env ws nodes t t') (db_tasks d) (db_tasks d')"
    by (auto simp: batch_rows_def)
  from assms(4) obtain k where k: "k < length (db_tasks d')" "db_tasks d' ! k = t'"
    unfolding d' by (auto simp: in_set_conv_nth)
  with rows have "k < length (db_tasks d)" and "t' = db_tasks d ! k \<or> placed_on env ws nodes (db_tasks d ! k) t'"
    by (auto simp: list_all2_conv_all_nth)
  then show ?thesis
    by (intro bexI [of _ "db_tasks d ! k"]) (auto simp: placed_on_def assign_task_def intro: rev_image_eqI simp del: Passes.simps)
qed (use assms(4) in auto)

lemma turn_assigns:
  assumes "plane_match s c" and "cluster_inv c" and "i < length (plReplicas s)"
    and "t' \<in> set (db_tasks (plDb (replica_turn W i a s)))" and "assigned t'"
  shows "\<exists>t \<in> set (db_tasks (plDb s)). same_assignment t t'
    \<or> tID t = tID t' \<and> tStatus t = TaskStatusPending \<and> tID t \<in> held_ids (rpEngine (plReplicas s ! i))"
proof (cases "rpUp (plReplicas s ! i) \<and> (\<exists>env locked. a = EngineStep env locked)")
  case True
  then obtain env locked where a: "rpUp (plReplicas s ! i)" "a = EngineStep env locked" by blast
  let ?d = "snd (engine_step (wRound W) (replica_gate (plReplicas s ! i)) env (locked \<union> locked_elsewhere i s)
            (rpEngine (plReplicas s ! i), plDb s))"
  have db: "plDb (replica_turn W i a s) = ?d"
    using a by (simp add: replica_turn_def Let_def split: prod.splits)
  have c: "clDb c = plDb s" and b: "batches_ok (plReplicas s) (plDb s)"
    and snap: "snapshots (rpEngine (plReplicas s ! i)) \<subseteq> set (clSnaps c)"
    using assms(1,3) by (simp_all add: plane_match_def)
  show ?thesis
  proof (cases "rpEngine (plReplicas s ! i)")
    case (Allocated ws nodes allocs)
    then have t': "t' \<in> set (db_tasks (snd (place_batch (wRound W) env nodes allocs ws (plDb s))))"
      using assms(4) db by (simp add: engine_step_def)
    have "db_inv (plDb s)" "epochs_le nodes (db_nodes (plDb s))"
      using assms(2) c snap Allocated by (auto simp: cluster_inv_def list_all_iff)
    moreover have "batch_ok ws (plDb s)" using b assms(3) Allocated by (auto simp: batches_ok_def dest!: spec [of _ i])
    ultimately show ?thesis
      using place_batch_assigns [OF _ _ _ t'] assms(5) Allocated
      by (auto simp: same_assignment_def held_ids_def)
  qed (use assms(4,5) db in \<open>auto simp: engine_step_def same_assignment_def split: if_splits sum.splits\<close>)
next
  case False
  then have "quiet_turn s (replica_turn W i a s)"
    using running_turn_quiet [of a s W i] replica_start_quiet [of s W i]
    by (auto simp: replica_turn_def split: turn.splits)
  moreover have "db_inv (plDb s)" using assms(1,2) by (simp add: plane_match_def cluster_inv_def)
  ultimately have "none_assigned (plDb s) (plDb (replica_turn W i a s))" by (simp add: quiet_turn_def)
  with assms(4,5) show ?thesis by (auto simp: none_assigned_def)
qed

section \<open>Properties\<close>

text \<open>
  C1: The replicas refine the transaction system. Whatever turns the replicas take, in any order and
  with any failures and process deaths, what happens to the database is a run of store transactions: it stays
  well-formed, and nothing of its history is undone.
\<close>

theorem replicas_refine_cluster:
  assumes "reachable_by (plane_init W) (plane_step W) s" and "(plane_step W)\<^sup>*\<^sup>* s s'"
  shows "db_inv (plDb s') \<and> later (plDb s) (plDb s')
    \<and> (\<exists>c c'. reachable_by cluster_init cluster_step c \<and> clDb c = plDb s \<and> cluster_step\<^sup>*\<^sup>* c c' \<and> clDb c' = plDb s')"
proof -
  from assms(1) obtain c where c: "reachable_by cluster_init cluster_step c" "cluster_inv c" "plane_match s c"
    by (rule planes.match_reachable)
  from planes.match_run [OF assms(2) c(3,2)] obtain c' where c': "cluster_step\<^sup>*\<^sup>* c c'" "plane_match s' c'" by blast
  have "cluster_inv c'" by (rule clusters.inv_steps [OF c'(1) c(2)])
  moreover have "later (clDb c) (clDb c')" by (rule run_later [OF c'(1) c(2)])
  ultimately show ?thesis using c(1,3) c' by (auto simp: plane_match_def cluster_inv_def)
qed

text \<open>
  C2: Claims are exclusive. In every reachable state of the replicas, also while several of them believe they lead,
  the batches in flight are disjoint, and every task of every one of them is still the pending row that was
  claimed, with its job: what the engine decides on is what it will write to.
\<close>

theorem claims_exclusive:
  assumes "reachable_by (plane_init W) (plane_step W) s" and "i < length (plReplicas s)"
    and "w \<in> set (in_flight (rpEngine (plReplicas s ! i)))"
  shows "wTask w \<in> set (db_tasks (plDb s)) \<and> tStatus (wTask w) = TaskStatusPending
    \<and> task_with_job (plDb s) (wTask w) = Some w
    \<and> (\<forall>j < length (plReplicas s). j \<noteq> i
         \<longrightarrow> tID (wTask w) \<notin> held_ids (rpEngine (plReplicas s ! j)))"
proof -
  from assms(1) obtain c where "plane_match s c" by (rule planes.match_reachable)
  then have b: "batches_ok (plReplicas s) (plDb s)" by (simp add: plane_match_def)
  with assms(2) have "batch_ok (in_flight (rpEngine (plReplicas s ! i))) (plDb s)" by (simp add: batches_ok_def)
  moreover have "tID (wTask w) \<in> held_ids (rpEngine (plReplicas s ! i))" using assms(3) by (simp add: held_ids_def)
  with b assms(2) have "\<forall>j < length (plReplicas s). j \<noteq> i \<longrightarrow> tID (wTask w) \<notin> held_ids (rpEngine (plReplicas s ! j))"
    unfolding batches_ok_def by blast
  ultimately show ?thesis using assms(3) by (simp add: batch_ok_def)
qed

text \<open>
  C3: No double placement. When a turn of a replica leaves a task scheduled or running, the task either had that very
  assignment before, to that node under that epoch, or was pending and held by this replica's own claim: a task
  goes from one node to another through pending only, whoever leads.
\<close>

theorem placed_once:
  assumes "reachable_by (plane_init W) (plane_step W) s" and "i < length (plReplicas s)"
    and "t' \<in> set (db_tasks (plDb (replica_turn W i a s)))"
    and "tStatus t' \<in> {TaskStatusScheduled, TaskStatusRunning}"
  shows "\<exists>t \<in> set (db_tasks (plDb s)). tID t = tID t'
    \<and> (tStatus t \<in> {TaskStatusScheduled, TaskStatusRunning} \<and> tAssignedNodeID t = tAssignedNodeID t'
         \<and> tAssignedEpoch t = tAssignedEpoch t'
       \<or> tStatus t = TaskStatusPending \<and> tID t \<in> held_ids (rpEngine (plReplicas s ! i)))"
proof -
  from assms(1) obtain c where "plane_match s c" "cluster_inv c" by (rule planes.match_reachable)
  from turn_assigns [OF this assms(2,3)] assms(4) show ?thesis
    by (auto simp: same_assignment_def assigned_def)
qed

text \<open>The replicas that believe they lead, and how long they may be wrong.\<close>


section \<open>Followers\<close>

text \<open>\<open>idle_follower\<close>: not leading, and nothing left of a tick begun while it was.\<close>

definition idle_follower :: "replica \<Rightarrow> bool" where
  "idle_follower rp \<longleftrightarrow> \<not> elIsLeader (rpElector rp) \<and> rpEngine rp = EngineIdle \<and> rpSweep rp = []"

definition same_tables :: "db \<Rightarrow> db \<Rightarrow> bool" where
  "same_tables d d' \<longleftrightarrow> db_nodes d' = db_nodes d \<and> db_jobs d' = db_jobs d \<and> db_tasks d' = db_tasks d"

lemma same_tables_refl [simp]: "same_tables d d"
  by (simp add: same_tables_def)

lemma follower_gate: "idle_follower rp \<Longrightarrow> \<not> gate_open (replica_gate rp)"
  by (simp add: idle_follower_def replica_gate_def elector_gate_def)

lemma follower_rejects: "idle_follower rp \<Longrightarrow> \<exists>st. requireLeader (replica_gate rp) = Some st"
  by (auto simp: idle_follower_def replica_gate_def elector_gate_def requireLeader_def)

context leader_rpc
begin

lemma follower_serves: "idle_follower (plReplicas s ! i) \<Longrightarrow> serve handler W i cenv env req s = s"
  using follower_rejects [of "plReplicas s ! i"]
  by (auto simp: serve_def main_server_def follower)

end

lemma http_follower: "\<not> gate_open (apLeader api) \<Longrightarrow> snd (snd (http_handle api base req (k, d))) = d"
  using handleSubmitJob_cases [of "apEnv api" "apLeader api" "hqBody req" d]
  by (auto simp: http_handle_def split: route.splits prod.splits)

lemma elector_turn_follower:
  "same_tables (plDb s) (plDb (elector_turn i env rp s)) \<and> plPublished (elector_turn i env rp s) = plPublished s"
  using elector_tick_tables [of env "plNow s" "rpElector rp" "plDb s"]
  by (auto simp: elector_turn_def same_tables_def split: prod.splits)

text \<open>What a turn leaves alone: the tables, what is published, and no tick is begun.\<close>

definition idle_turn :: "nat \<Rightarrow> ('r, 'k) plane \<Rightarrow> ('r, 'k) plane \<Rightarrow> bool" where
  "idle_turn i s s' \<longleftrightarrow> same_tables (plDb s) (plDb s') \<and> plPublished s' = plPublished s
     \<and> rpEngine (plReplicas s' ! i) = EngineIdle \<and> rpSweep (plReplicas s' ! i) = []"

lemma running_turn_follower:
  assumes "i < length (plReplicas s)" and f: "idle_follower (plReplicas s ! i)"
  shows "idle_turn i s (running_turn W i a s)"
proof (cases a)
  case (ElectorTick env)
  with assms show ?thesis
    using elector_turn_follower [of s i env "plReplicas s ! i"]
    by (auto simp: idle_turn_def idle_follower_def elector_turn_def split: prod.splits)
next
  case (EngineStep env locked)
  with assms follower_gate [OF f] show ?thesis
    by (simp add: idle_turn_def idle_follower_def engine_step_def)
next
  case (DetectorStep cenv env)
  with assms follower_gate [OF f] show ?thesis
    by (simp add: idle_turn_def idle_follower_def detector_step_def)
next
  case (FanoutTick env pub_fault)
  with assms follower_gate [OF f] show ?thesis
    by (auto simp: idle_turn_def idle_follower_def fanout_tick_def Let_def split: option.splits)
next
  case (AutoscalerTurn env)
  with assms follower_gate [OF f] show ?thesis
    by (auto simp: idle_turn_def idle_follower_def autoscaler_turn_def Let_def)
next
  case (ServeHTTP env req)
  with turn_results(3) [where s = s and i = i and W = W and env = env and req = req] f follower_gate [OF f]
  show ?thesis by (auto simp: idle_turn_def idle_follower_def http_follower)
qed (use assms in \<open>auto simp: idle_turn_def idle_follower_def Let_def replica_boot_def rpc_register.follower_serves
       rpc_heartbeat.follower_serves rpc_report.follower_serves rpc_submit.follower_serves split: option.splits\<close>)

lemma replica_start_follower:
  assumes "i < length (plReplicas s)"
  shows "idle_turn i s (replica_start W i env s)"
  using elector_turn_follower [of s i env "replica_boot (plNow s) (wConfig W i)"] assms
  by (auto simp: idle_turn_def replica_start_def Let_def elector_turn_def replica_boot_def split: prod.splits)

text \<open>
  C5: Only leaders write. A replica that does not lead and has nothing left of a tick begun while it did leaves nodes,
  jobs and tasks alone with every turn it takes, requests it serves included; it publishes no event and begins no
  tick, so it stays so until its elector takes the lease. Its restart is no exception.
\<close>

theorem followers_do_not_write:
  assumes "i < length (plReplicas s)" and "\<not> elIsLeader (rpElector (plReplicas s ! i))"
    and "rpEngine (plReplicas s ! i) = EngineIdle" and "rpSweep (plReplicas s ! i) = []"
  shows "db_nodes (plDb (replica_turn W i a s)) = db_nodes (plDb s)
    \<and> db_jobs (plDb (replica_turn W i a s)) = db_jobs (plDb s)
    \<and> db_tasks (plDb (replica_turn W i a s)) = db_tasks (plDb s)
    \<and> plPublished (replica_turn W i a s) = plPublished s
    \<and> rpEngine (plReplicas (replica_turn W i a s) ! i) = EngineIdle
    \<and> rpSweep (plReplicas (replica_turn W i a s) ! i) = []"
proof -
  have "idle_follower (plReplicas s ! i)" using assms by (simp add: idle_follower_def)
  from running_turn_follower [OF assms(1) this] replica_start_follower [OF assms(1)] assms(3,4)
  have "idle_turn i s (replica_turn W i a s)"
    by (auto simp: replica_turn_def idle_turn_def split: turn.splits)
  then show ?thesis by (simp add: idle_turn_def same_tables_def)
qed

section \<open>Taking over\<close>

lemma engine_turns:
  assumes "i < length (plReplicas s)"
  shows "(running_turn W i (EngineStep env locked) ^^ n) s
    = (let rp = plReplicas s ! i;
           x = (engine_step (wRound W) (replica_gate rp) env (locked \<union> locked_elsewhere i s) ^^ n) (rpEngine rp, plDb s)
       in s\<lparr>plReplicas := (plReplicas s)[i := rp\<lparr>rpEngine := fst x\<rparr>], plDb := snd x\<rparr>)"
proof (induction n)
  case (Suc n)
  define rp where "rp = plReplicas s ! i"
  obtain pc d where x: "(engine_step (wRound W) (replica_gate rp) env (locked \<union> locked_elsewhere i s) ^^ n)
      (rpEngine rp, plDb s) = (pc, d)" by fastforce
  define s1 where "s1 = s\<lparr>plReplicas := (plReplicas s)[i := rp\<lparr>rpEngine := pc\<rparr>], plDb := d\<rparr>"
  have "locked_elsewhere i s1 = locked_elsewhere i s"
    unfolding locked_elsewhere_def s1_def by (intro arg_cong [where f = set] arg_cong [where f = concat] map_cong) auto
  moreover have "plReplicas s1 ! i = rp\<lparr>rpEngine := pc\<rparr>" using assms by (simp add: s1_def)
  moreover have "replica_gate (rp\<lparr>rpEngine := pc\<rparr>) = replica_gate rp" by (simp add: replica_gate_def)
  moreover define y where
    "y = engine_step (wRound W) (replica_gate rp) env (locked \<union> locked_elsewhere i s) (pc, d)"
  ultimately have "running_turn W i (EngineStep env locked) s1
      = s\<lparr>plReplicas := (plReplicas s)[i := rp\<lparr>rpEngine := fst y\<rparr>], plDb := snd y\<rparr>"
    by (simp add: s1_def Let_def split: prod.splits)
  moreover have "(running_turn W i (EngineStep env locked) ^^ n) s = s1"
    using Suc.IH x by (simp add: s1_def rp_def del: running_turn.simps)
  ultimately show ?case
    using x unfolding funpow.simps o_apply by (simp add: y_def rp_def Let_def del: running_turn.simps)
qed (simp add: Let_def)

lemma elector_turn_takes:
  assumes "healthy env" and "db_lease (plDb s) = Some l" and "lExpiresAt l \<le> plNow s"
    and "ident (rpElector rp) \<noteq> []" and "0 < cfgLeaseTTL (elCfg (rpElector rp))" and "i < length (plReplicas s)"
  shows "elIsLeader (rpElector (plReplicas (elector_turn i env rp s) ! i))"
    and "same_tables (plDb s) (plDb (elector_turn i env rp s))"
    and "rpEngine (plReplicas (elector_turn i env rp s) ! i) = rpEngine rp"
    and "locked_elsewhere i (elector_turn i env rp s) = locked_elsewhere i s"
proof -
  obtain d' where "TryAcquireOrRenewLease env (plNow s) (ident (rpElector rp)) (cfgAdvertiseAddr (elCfg (rpElector rp)))
        (cfgLeaseTTL (elCfg (rpElector rp))) (plDb s)
      = (Inr \<lparr>aAcquired = True, aLease = lease_row l (plNow s) (ident (rpElector rp))
          (cfgAdvertiseAddr (elCfg (rpElector rp))) (cfgLeaseTTL (elCfg (rpElector rp))),
          aEpochBumped = (lLeaderID l \<noteq> ident (rpElector rp))\<rparr>, d')"
    using lease_attempt_held [OF assms(1,4,5,2)] assms(3) by blast
  then show "elIsLeader (rpElector (plReplicas (elector_turn i env rp s) ! i))"
    using assms(6) by (simp add: elector_turn_def elector_tick_def)
  show "same_tables (plDb s) (plDb (elector_turn i env rp s))" using elector_turn_follower by blast
  show "rpEngine (plReplicas (elector_turn i env rp s) ! i) = rpEngine rp"
    using assms(6) by (simp add: elector_turn_def split: prod.splits)
  show "locked_elsewhere i (elector_turn i env rp s) = locked_elsewhere i s"
    unfolding locked_elsewhere_def
    by (intro arg_cong [where f = set] arg_cong [where f = concat] map_cong)
       (auto simp: elector_turn_def split: prod.splits)
qed

lemma reachable_identities:
  assumes "reachable_by (plane_init W) (plane_step W) s" and "i < length (plReplicas s)"
  shows "ident (rpElector (plReplicas s ! i)) \<noteq> []" "0 < cfgLeaseTTL (elCfg (rpElector (plReplicas s ! i)))"
proof -
  from assms(1) obtain x where x: "election_inv x" "election_match W s x" by (rule leaders.match_reachable)
  then have "[] \<notin> ident ` set (map rpElector (plReplicas s))"
    by (simp add: election_match_def election_inv_def election_of_def)
  with assms(2) show "ident (rpElector (plReplicas s ! i)) \<noteq> []" by (auto simp: image_iff) (metis nth_mem)
  from x(2) assms(2) show "0 < cfgLeaseTTL (elCfg (rpElector (plReplicas s ! i)))"
    by (simp add: election_match_def New_Elector_sel)
qed

lemma progress_premises:
  assumes "same_tables d d'"
  shows "list_all (\<lambda>n. alloc_scans (sum_alloc (joined_on (nID n) d))) (db_nodes d)
    = list_all (\<lambda>n. alloc_scans (sum_alloc (joined_on (nID n) d'))) (db_nodes d')"
    and "claim_rows t0 locked limit d' = claim_rows t0 locked limit d" and "active_nodes d' = active_nodes d"
    and "GetNodeAllocations env d' = GetNodeAllocations env d"
proof -
  have tw: "task_with_job d' = task_with_job d"
    by (rule task_with_job_jobs) (use assms in \<open>simp add: same_tables_def\<close>)
  then have j: "joined_on m d' = joined_on m d" for m using assms by (simp add: same_tables_def joined_on_def)
  with assms show "list_all (\<lambda>n. alloc_scans (sum_alloc (joined_on (nID n) d))) (db_nodes d)
    = list_all (\<lambda>n. alloc_scans (sum_alloc (joined_on (nID n) d'))) (db_nodes d')" by (simp add: same_tables_def)
  show "claim_rows t0 locked limit d' = claim_rows t0 locked limit d"
    using assms tw by (simp add: claim_rows_def same_tables_def)
  show "active_nodes d' = active_nodes d" using assms by (simp add: active_nodes_def same_tables_def)
  show "GetNodeAllocations env d' = GetNodeAllocations env d"
    using assms j by (simp add: GetNodeAllocations_def pool_query_def same_tables_def fun_eq_iff)
qed

text \<open>
  C4: Failover. When the lease has expired, whoever held it, one tick of the elector of any running replica that
  reaches the database and at most four steps of its engine carry out a whole scheduling tick as the leader on the
  tables as they were: it places at least one of the waiting tasks no other replica holds, unless none of them
  fits any active node.
\<close>

theorem failover_resumes_placement:
  assumes "reachable_by (plane_init W) (plane_step W) s" and "i < length (plReplicas s)"
    and "rpUp (plReplicas s ! i)" and "rpEngine (plReplicas s ! i) = EngineIdle"
    and "db_lease (plDb s) = Some l" and "lExpiresAt l \<le> plNow s" and "healthy env"
    and "list_all (\<lambda>n. alloc_scans (sum_alloc (joined_on (nID n) (plDb s)))) (db_nodes (plDb s))"
  shows "\<exists>n k allocs s'. n \<le> 4
    \<and> s' = (running_turn W i (EngineStep env locked) ^^ n) (running_turn W i (ElectorTick env) s)
    \<and> elIsLeader (rpElector (plReplicas s' ! i)) \<and> rpEngine (plReplicas s' ! i) = EngineIdle
    \<and> engine_tick (wRound W) None env (locked \<union> locked_elsewhere i s) (plDb (running_turn W i (ElectorTick env) s))
        = (Inr k, plDb s')
    \<and> GetNodeAllocations env (plDb s) = Inr allocs
    \<and> (k = 0 \<longrightarrow> (\<forall>w \<in> set (claim_rows (db_now env) (locked \<union> locked_elsewhere i s) defaultClaimLimit (plDb s)).
         \<forall>n \<in> set (active_nodes (plDb s)). \<not> eligible DefaultFilters allocs w n))"
proof -
  let ?rp = "plReplicas s ! i" and ?L = "locked \<union> locked_elsewhere i s"
  define s1 where "s1 = running_turn W i (ElectorTick env) s"
  have s1: "s1 = elector_turn i env ?rp s" by (simp add: s1_def)
  have i1: "i < length (plReplicas s1)" using assms(2) by (simp add: s1 elector_turn_def split: prod.splits)
  note take = elector_turn_takes [OF assms(7,5,6) reachable_identities [OF assms(1,2)] assms(2), folded s1]
  let ?g = "replica_gate (plReplicas s1 ! i)"
  have g: "gate_open ?g" using take(1) by (simp add: replica_gate_def elector_gate_def)
  have "plane_step W s (replica_turn W i (ElectorTick env) s)" using assms(2) by (rule plane_step.turns)
  then have "(plane_step W)\<^sup>*\<^sup>* s s1" using assms(3) by (simp add: replica_turn_def s1_def)
  then have "reachable_by (plane_init W) (plane_step W) s1" by (rule reachable_steps [OF assms(1)])
  then obtain c where "cluster_inv c" "plane_match s1 c" by (rule planes.match_reachable)
  then have inv: "db_inv (plDb s1)" by (simp add: plane_match_def cluster_inv_def)
  note same = progress_premises [OF take(2)]
  from engine_tick_places [OF inv g, of env "wRound W" ?L] assms(7,8) same(1)
  obtain k d' allocs where tick: "GetNodeAllocations env (plDb s1) = Inr allocs"
    "engine_tick (wRound W) ?g env ?L (plDb s1) = (Inr k, d')"
    "k = 0 \<longrightarrow> (\<forall>w \<in> set (claim_rows (db_now env) ?L defaultClaimLimit (plDb s1)).
        \<forall>n \<in> set (active_nodes (plDb s1)). \<not> eligible DefaultFilters allocs w n)"
    by (auto simp: healthy_def)
  have none: "engine_tick (wRound W) None env ?L (plDb s1) = (Inr k, d')"
    using tick(2) g by (simp add: engine_tick_def)
  from engine_tick_steps [of "wRound W" ?g env ?L "plDb s1"] tick(2) obtain n where n: "n \<le> 4"
    "(engine_step (wRound W) ?g env ?L ^^ n) (EngineIdle, plDb s1) = (EngineIdle, d')" by auto
  define s' where "s' = (running_turn W i (EngineStep env locked) ^^ n) s1"
  have "s' = s1\<lparr>plReplicas := (plReplicas s1)[i := (plReplicas s1 ! i)\<lparr>rpEngine := EngineIdle\<rparr>], plDb := d'\<rparr>"
    unfolding s'_def engine_turns [OF i1] take(3,4) assms(4) Let_def n(2) by simp
  then have "elIsLeader (rpElector (plReplicas s' ! i))" "rpEngine (plReplicas s' ! i) = EngineIdle" "plDb s' = d'"
    using take(1) i1 by simp_all
  then show ?thesis
    using n(1) none tick(1,3) same s'_def unfolding s1_def [symmetric] by (metis (no_types, lifting))
qed

section \<open>Two replicas\<close>

text \<open>
  The first replica takes the lease, registers a node, accepts a job and claims its tasks. Then it is held up
  for six seconds; the second starts, takes the expired lease, accepts another job and claims in turn.
\<close>

definition two_world :: "(string \<Rightarrow> (string \<times> time) option, RawContainer list \<times> nat) world" where
  "two_world = \<lparr>wRedis = map_redis, wEngine = list_engine, wGetenv = (\<lambda>_. []), wHostname = (\<lambda>_. None),
     wBase = (\<lambda>_. \<lparr>hsStatus = 404, hsBody = NoBody\<rparr>), wRound = (\<lambda>x. x),
     wConfig = (\<lambda>i. \<lparr>rcElection = replica_cfgs ! (if i = 0 then 0 else 1),
                     rcScaler = DefaultAutoscalerConfig (\<lambda>_. []), rcHeartbeatMS = 500\<rparr>)\<rparr>"

definition later_env :: dbenv where
  "later_env = sample_env\<lparr>db_uuid := (\<lambda>i. ''v'' @ itoa (int i))\<rparr>"

definition node_request :: RegisterNodeRequest where
  "node_request = \<lparr>rnHostname = ''alpha'', rnAddress = ''10.0.0.1:7000'',
     rnCapacity = Some \<lparr>nrCpuMillicores = 4000, nrMemoryMb = 8192\<rparr>, rnLabels = None\<rparr>"

definition job_request :: SubmitJobRequest where
  "job_request = \<lparr>sjName = ''batch'', sjImage = ''busybox'', sjCommand = [''true''],
     sjRequest = Some \<lparr>nrCpuMillicores = 100, nrMemoryMb = 64\<rparr>, sjReplicas = 2, sjRetryLimit = 1,
     sjSchedulingPolicy = [], sjConstraints = []\<rparr>"

definition first_claims :: "(string \<Rightarrow> (string \<times> time) option, RawContainer list \<times> nat) plane" where
  "first_claims = take_turns two_world
     [(0, ProcessStart sample_env), (0, FanoutStart sample_env),
      (0, ServeRegister sample_cenv (\<lambda>_. sample_env) node_request),
      (0, ServeSubmit sample_cenv (\<lambda>_. sample_env) job_request), (0, EngineStep sample_env {})]
     (plane_start two_world 2 0 Map.empty ([], 0))"

definition both_claim :: "(string \<Rightarrow> (string \<times> time) option, RawContainer list \<times> nat) plane" where
  "both_claim = take_turns two_world
     [(1, ProcessStart later_env), (1, FanoutStart later_env),
      (1, ServeSubmit sample_cenv (\<lambda>_. later_env) job_request), (1, EngineStep later_env {})]
     (first_claims\<lparr>plNow := 6 * Second\<rparr>)"

lemma both_claim_engines:
  "map (\<lambda>rp. map (\<lambda>w. tID (wTask w)) (in_flight (rpEngine rp))) (plReplicas both_claim) = [[''u1'', ''u2''], [''v1'', ''v2'']]"
  "map (\<lambda>rp. elIsLeader (rpElector rp)) (plReplicas both_claim) = [True, True]"
  "map (\<lambda>rp. elEpoch (rpElector rp)) (plReplicas both_claim) = [1, 2]"
  by code_simp+

lemma both_claim_length: "length (plReplicas both_claim) = 2" "length (plReplicas first_claims) = 2"
  using both_claim_engines(2) [THEN arg_cong [where f = length]]
  by (simp_all add: both_claim_def first_claims_def plane_start_def)

lemma first_claims_reachable: "reachable_by (plane_init two_world) (plane_step two_world) first_claims"
proof -
  let ?s0 = "plane_start two_world 2 0 Map.empty ([], 0)"
  have "plane_init two_world ?s0"
    unfolding plane_init_def by (intro exI conjI, rule refl) (simp_all add: two_world_def replica_cfgs_def upt_rec)
  moreover have "(plane_step two_world)\<^sup>*\<^sup>* ?s0 first_claims"
    unfolding first_claims_def by (rule take_turns_steps) (simp add: plane_start_def)
  ultimately show ?thesis unfolding reachable_by_def by blast
qed

lemma both_claim_reachable: "reachable_by (plane_init two_world) (plane_step two_world) both_claim"
proof -
  have "plNow first_claims = 0" by code_simp
  then have "plane_step two_world first_claims (first_claims\<lparr>plNow := 6 * Second\<rparr>)"
    by (intro plane_step.passes) (simp add: duration_units)
  moreover have "(plane_step two_world)\<^sup>*\<^sup>* (first_claims\<lparr>plNow := 6 * Second\<rparr>) both_claim"
    unfolding both_claim_def by (rule take_turns_steps) (simp add: both_claim_length)
  ultimately show ?thesis
    by (intro reachable_steps [OF first_claims_reachable]) (rule converse_rtranclp_into_rtranclp)
qed

text \<open>Both batches are placed, each by the replica that claimed it, the first by one that has lost the lease.\<close>

definition both_placed :: "(string \<Rightarrow> (string \<times> time) option, RawContainer list \<times> nat) plane" where
  "both_placed = take_turns two_world
     [(0, EngineStep sample_env {}), (0, EngineStep sample_env {}), (1, EngineStep later_env {}),
      (0, ElectorTick sample_env), (0, EngineStep sample_env {}), (1, EngineStep later_env {}),
      (1, EngineStep later_env {})] both_claim"

lemma both_placed_rows:
  "map (\<lambda>t. (tID t, tAssignedNodeID t)) (db_tasks (plDb both_placed))
     = [(''u1'', Some ''u0''), (''u2'', Some ''u0''), (''v1'', Some ''u0''), (''v2'', Some ''u0'')]
   \<and> map (\<lambda>rp. elIsLeader (rpElector rp)) (plReplicas both_placed) = [False, True]"
  by code_simp

theorem replicas_refine_cluster_witness:
  "db_inv (plDb both_placed) \<and> length (db_tasks (plDb both_placed)) = 4"
proof -
  have "(plane_step two_world)\<^sup>*\<^sup>* both_claim both_placed"
    unfolding both_placed_def by (rule take_turns_steps) (simp add: both_claim_length)
  from replicas_refine_cluster [OF both_claim_reachable this] show ?thesis
    using both_placed_rows [THEN conjunct1, THEN arg_cong [where f = length]] by simp
qed

theorem claims_exclusive_witness:
  "\<exists>w. w \<in> set (in_flight (rpEngine (plReplicas both_claim ! 0))) \<and> tStatus (wTask w) = TaskStatusPending
     \<and> tID (wTask w) \<notin> held_ids (rpEngine (plReplicas both_claim ! 1))"
proof -
  have "in_flight (rpEngine (plReplicas both_claim ! 0)) \<noteq> []" by code_simp
  then obtain w where "w \<in> set (in_flight (rpEngine (plReplicas both_claim ! 0)))"
    by (meson last_in_set)
  with claims_exclusive [OF both_claim_reachable, of 0 w] show ?thesis by (auto simp: both_claim_length)
qed

definition ready_to_place :: "(string \<Rightarrow> (string \<times> time) option, RawContainer list \<times> nat) plane" where
  "ready_to_place = take_turns two_world [(0, EngineStep sample_env {}), (0, EngineStep sample_env {})] first_claims"

theorem placed_once_witness:
  "\<exists>t t'. t' \<in> set (db_tasks (plDb (replica_turn two_world 0 (EngineStep sample_env {}) ready_to_place)))
     \<and> tStatus t' = TaskStatusScheduled \<and> t \<in> set (db_tasks (plDb ready_to_place)) \<and> tID t = tID t'
     \<and> tStatus t = TaskStatusPending \<and> tID t \<in> held_ids (rpEngine (plReplicas ready_to_place ! 0))"
proof -
  let ?ts = "db_tasks (plDb (replica_turn two_world 0 (EngineStep sample_env {}) ready_to_place))"
  have r: "reachable_by (plane_init two_world) (plane_step two_world) ready_to_place"
    unfolding ready_to_place_def
    by (rule reachable_steps [OF first_claims_reachable take_turns_steps]) (simp add: both_claim_length)
  have n: "0 < length (plReplicas ready_to_place)" by (simp add: ready_to_place_def both_claim_length)
  have "?ts \<noteq> []" by code_simp
  then have t': "hd ?ts \<in> set ?ts" by (rule hd_in_set)
  have st: "tStatus (hd ?ts) = TaskStatusScheduled" by code_simp
  have pend: "list_all (\<lambda>t. tStatus t = TaskStatusPending) (db_tasks (plDb ready_to_place))" by code_simp
  from placed_once [OF r n t'] st obtain t where t: "t \<in> set (db_tasks (plDb ready_to_place))" "tID t = tID (hd ?ts)"
    "tStatus t \<in> {TaskStatusScheduled, TaskStatusRunning}
      \<or> tStatus t = TaskStatusPending \<and> tID t \<in> held_ids (rpEngine (plReplicas ready_to_place ! 0))" by auto
  with pend have "tStatus t = TaskStatusPending" "tID t \<in> held_ids (rpEngine (plReplicas ready_to_place ! 0))"
    by (auto simp: list_all_iff)
  with t(1,2) t' st show ?thesis by blast
qed


theorem followers_do_not_write_witness:
  "db_tasks (plDb (replica_turn two_world 1 (EngineStep later_env {}) first_claims)) = db_tasks (plDb first_claims)"
proof -
  have "\<not> elIsLeader (rpElector (plReplicas first_claims ! 1))" "is_idle (rpEngine (plReplicas first_claims ! 1))"
    "rpSweep (plReplicas first_claims ! 1) = []" by code_simp+
  then show ?thesis using followers_do_not_write [of 1 first_claims] by (simp add: both_claim_length is_idle_def)
qed

text \<open>The first replica's process ends; the second waits for the lease to run out.\<close>

definition leader_gone :: "(string \<Rightarrow> (string \<times> time) option, RawContainer list \<times> nat) plane" where
  "leader_gone = (take_turns two_world [(1, ProcessStart sample_env), (0, ProcessStop)] first_claims)\<lparr>plNow := 6 * Second\<rparr>"

lemma leader_gone_reachable: "reachable_by (plane_init two_world) (plane_step two_world) leader_gone"
proof -
  let ?s = "take_turns two_world [(1, ProcessStart sample_env), (0, ProcessStop)] first_claims"
  have "(plane_step two_world)\<^sup>*\<^sup>* first_claims ?s"
    by (rule take_turns_steps) (simp add: both_claim_length)
  moreover have "plNow ?s = 0" by code_simp
  then have "plane_step two_world ?s leader_gone"
    unfolding leader_gone_def by (intro plane_step.passes) (simp add: duration_units)
  ultimately show ?thesis by (intro reachable_steps [OF first_claims_reachable]) simp
qed

theorem failover_resumes_placement_witness:
  "\<exists>n k s'. s' = (running_turn two_world 1 (EngineStep sample_env {}) ^^ n)
         (running_turn two_world 1 (ElectorTick sample_env) leader_gone)
     \<and> elIsLeader (rpElector (plReplicas s' ! 1))
     \<and> engine_tick (\<lambda>x. x) None sample_env (locked_elsewhere 1 leader_gone)
         (plDb (running_turn two_world 1 (ElectorTick sample_env) leader_gone)) = (Inr k, plDb s')"
proof -
  have up: "rpUp (plReplicas leader_gone ! 1)" "is_idle (rpEngine (plReplicas leader_gone ! 1))"
    "list_all (\<lambda>n. alloc_scans (sum_alloc (joined_on (nID n) (plDb leader_gone)))) (db_nodes (plDb leader_gone))"
    by code_simp+
  have "case db_lease (plDb leader_gone) of None \<Rightarrow> False | Some l \<Rightarrow> lExpiresAt l \<le> plNow leader_gone" by code_simp
  then obtain l where l: "db_lease (plDb leader_gone) = Some l" "lExpiresAt l \<le> plNow leader_gone"
    by (auto split: option.splits)
  have "1 < length (plReplicas leader_gone)" by (simp add: leader_gone_def both_claim_length)
  from failover_resumes_placement [OF leader_gone_reachable this up(1) _ l healthy_sample up(3), of "{}"] up(2)
  show ?thesis by (auto simp: is_idle_def two_world_def simp del: running_turn.simps)
qed

section \<open>What goes wrong\<close>

text \<open>
  A heartbeat interval that is not positive gives the detector a ticker that panics: the process dies each time it
  starts, after its first attempt on the lease, which it may thus take and leave unused for a TTL.
\<close>

lemma bad_heartbeat_interval_dies:
  assumes "rcHeartbeatMS (wConfig W i) \<le> 0" and "i < length (plReplicas s)" and "\<not> rpUp (plReplicas s ! i)"
  shows "\<not> rpUp (plReplicas (replica_turn W i a s) ! i)"
    and "plDb (replica_turn W i (ProcessStart env) s)
      = snd (elector_tick env (plNow s) (New_Elector (rcElection (wConfig W i))) (plDb s))"
proof -
  have "\<not> ticker_ok (dcPollInterval (main_detector_config (rcHeartbeatMS (wConfig W i))))"
    using assms(1) by (simp add: ticker_ok_def main_detector_config_def DefaultConfig_def duration_units)
  then have start: "replica_start W i env s = (let s1 = elector_turn i env (replica_boot (plNow s) (wConfig W i)) s
      in s1\<lparr>plReplicas := (plReplicas s1)[i := replica_boot (plNow s) (wConfig W i)]\<rparr>)" for env
    by (simp add: replica_start_def)
  show "\<not> rpUp (plReplicas (replica_turn W i a s) ! i)"
    using assms(2,3) by (auto simp: replica_turn_def start Let_def elector_turn_def replica_boot_def
        split: turn.splits prod.splits)
  show "plDb (replica_turn W i (ProcessStart env) s)
      = snd (elector_tick env (plNow s) (New_Elector (rcElection (wConfig W i))) (plDb s))"
    using assms(3) by (simp add: replica_turn_def start Let_def elector_turn_def replica_boot_def split: prod.splits)
qed

text \<open>
  A follower's fanout does not move its position, so a replica that takes over publishes again what its
  predecessor has published since the replica itself started.
\<close>

lemma takeover_publishes_again:
  "map ceID (plPublished (take_turns two_world [(1, ElectorTick later_env), (1, FanoutTick later_env (\<lambda>_. False))]
     ((take_turns two_world [(0, ProcessStart sample_env), (0, FanoutStart sample_env), (1, ProcessStart sample_env),
         (1, FanoutStart sample_env), (0, ServeRegister sample_cenv (\<lambda>_. sample_env) node_request),
         (0, FanoutTick sample_env (\<lambda>_. False))]
       (plane_start two_world 2 0 Map.empty ([], 0)))\<lparr>plNow := 6 * Second\<rparr>))) = [2, 2, 3]"
  by code_simp

end
