(* ===== verification/Ctl_Client.thy ===== *)
theory Ctl_Client
  imports Dialer
begin

text \<open>
  The scheduler client of the command line, in \<^verbatim>\<open>src/cmd/arbiterctl/main.go\<close>: it starts at a seed address,
  follows redirects and goes back to the seed when the replica it was sent to does not answer. As for the
  workers' dialer, \<open>dial\<close> is \<^verbatim>\<open>grpc.NewClient\<close>, and the generated client of a connection is identified by
  the address, so \<open>inner\<close> is \<open>raAddr\<close>. \<open>net\<close> has the seven RPCs of the service.
\<close>

section \<open>The client\<close>

record redirectingSchedulerAPI =
  raSeed :: string
  raAddr :: string
  raConn :: bool

datatype ctl_error =
    DialFailed string string
  | FollowFailed string string Status
  | FallbackFailed string string Status
  | CallFailed Status
  | NoTasks string
  | JobFailed nat
  | TimedOut string nat
  | CtlError string

record 'w net =
  netSubmitJob :: "SubmitJobRequest \<Rightarrow> ('w, ProtoJob) rpc_call"
  netGetJob :: "string \<Rightarrow> ('w, ProtoJob) rpc_call"
  netGetTask :: "string \<Rightarrow> ('w, ProtoTask) rpc_call"
  netListJobs :: "('w, ProtoJob list) rpc_call"
  netListTasks :: "string \<Rightarrow> ('w, ProtoTask list) rpc_call"
  netListNodes :: "('w, ProtoNode list) rpc_call"
  netCancelJob :: "string \<Rightarrow> ('w, unit) rpc_call"

definition dialAPI :: "(string \<Rightarrow> string option) \<Rightarrow> string \<Rightarrow> ctl_error + redirectingSchedulerAPI" where
  "dialAPI dial addr =
     (case dial addr of
        Some e \<Rightarrow> Inl (DialFailed addr e)
      | None \<Rightarrow> Inr \<lparr>raSeed = addr, raAddr = addr, raConn = True\<rparr>)"

definition ctl_Close :: "redirectingSchedulerAPI \<Rightarrow> redirectingSchedulerAPI" where
  "ctl_Close c = (if \<not> raConn c then c else c\<lparr>raConn := False\<rparr>)"

definition redial ::
  "(string \<Rightarrow> string option) \<Rightarrow> string \<Rightarrow> redirectingSchedulerAPI \<Rightarrow> string option \<times> redirectingSchedulerAPI" where
  "redial dial addr c =
     (case dial addr of
        Some e \<Rightarrow> (Some e, c)
      | None \<Rightarrow> (None, c\<lparr>raAddr := addr, raConn := True\<rparr>))"

text \<open>What a failed attempt does: go on with another connection, or give up with an error.\<close>

definition redirect_move ::
  "(string \<Rightarrow> string option) \<Rightarrow> Status \<Rightarrow> redirectingSchedulerAPI
     \<Rightarrow> ctl_error option \<times> redirectingSchedulerAPI" where
  "redirect_move dial err c =
     (let fallback =
        (if stCode err = Unavailable \<and> raAddr c \<noteq> raSeed c then
           (case redial dial (raSeed c) c of
              (Some e, c') \<Rightarrow> (Some (FallbackFailed (raSeed c) e err), c')
            | (None, c') \<Rightarrow> (None, c'))
         else (Some (CallFailed err), c))
      in case ParseLeaderAddr (Some err) of
           None \<Rightarrow> fallback
         | Some leader \<Rightarrow>
             if leader \<noteq> raAddr c then
               (case redial dial leader c of
                  (Some e, c') \<Rightarrow> (Some (FollowFailed leader e err), c')
                | (None, c') \<Rightarrow> (None, c'))
             else fallback)"

fun redirect_loop ::
  "(string \<Rightarrow> string option) \<Rightarrow> ('w, 'a) rpc_call \<Rightarrow> nat \<Rightarrow> redirectingSchedulerAPI \<Rightarrow> 'w
     \<Rightarrow> (ctl_error + 'a) \<times> redirectingSchedulerAPI \<times> 'w" where
  "redirect_loop dial call 0 c w =
     (case call (raAddr c) w of
        (Inl err, w') \<Rightarrow> (Inl (CallFailed err), c, w')
      | (Inr x, w') \<Rightarrow> (Inr x, c, w'))"
| "redirect_loop dial call (Suc n) c w =
     (case call (raAddr c) w of
        (Inr x, w') \<Rightarrow> (Inr x, c, w')
      | (Inl err, w') \<Rightarrow>
          (case redirect_move dial err c of
             (Some e, c') \<Rightarrow> (Inl e, c', w')
           | (None, c') \<Rightarrow> redirect_loop dial call n c' w'))"

definition withRedirect ::
  "(string \<Rightarrow> string option) \<Rightarrow> ('w, 'a) rpc_call \<Rightarrow> redirectingSchedulerAPI \<Rightarrow> 'w
     \<Rightarrow> (ctl_error + 'a) \<times> redirectingSchedulerAPI \<times> 'w" where
  "withRedirect dial call c w = redirect_loop dial call 6 c w"

section \<open>The methods\<close>

definition ctl_SubmitJob :: "(string \<Rightarrow> string option) \<Rightarrow> 'w net \<Rightarrow> SubmitJobRequest \<Rightarrow> redirectingSchedulerAPI \<Rightarrow> 'w
     \<Rightarrow> (ctl_error + ProtoJob) \<times> redirectingSchedulerAPI \<times> 'w" where
  "ctl_SubmitJob dial net req = withRedirect dial (netSubmitJob net req)"

definition ctl_GetJob :: "(string \<Rightarrow> string option) \<Rightarrow> 'w net \<Rightarrow> string \<Rightarrow> redirectingSchedulerAPI \<Rightarrow> 'w
     \<Rightarrow> (ctl_error + ProtoJob) \<times> redirectingSchedulerAPI \<times> 'w" where
  "ctl_GetJob dial net jobId = withRedirect dial (netGetJob net jobId)"

definition ctl_GetTask :: "(string \<Rightarrow> string option) \<Rightarrow> 'w net \<Rightarrow> string \<Rightarrow> redirectingSchedulerAPI \<Rightarrow> 'w
     \<Rightarrow> (ctl_error + ProtoTask) \<times> redirectingSchedulerAPI \<times> 'w" where
  "ctl_GetTask dial net taskId = withRedirect dial (netGetTask net taskId)"

definition ctl_ListJobs :: "(string \<Rightarrow> string option) \<Rightarrow> 'w net \<Rightarrow> redirectingSchedulerAPI \<Rightarrow> 'w
     \<Rightarrow> (ctl_error + ProtoJob list) \<times> redirectingSchedulerAPI \<times> 'w" where
  "ctl_ListJobs dial net = withRedirect dial (netListJobs net)"

definition ctl_ListTasks :: "(string \<Rightarrow> string option) \<Rightarrow> 'w net \<Rightarrow> string \<Rightarrow> redirectingSchedulerAPI \<Rightarrow> 'w
     \<Rightarrow> (ctl_error + ProtoTask list) \<times> redirectingSchedulerAPI \<times> 'w" where
  "ctl_ListTasks dial net jobId = withRedirect dial (netListTasks net jobId)"

definition ctl_ListNodes :: "(string \<Rightarrow> string option) \<Rightarrow> 'w net \<Rightarrow> redirectingSchedulerAPI \<Rightarrow> 'w
     \<Rightarrow> (ctl_error + ProtoNode list) \<times> redirectingSchedulerAPI \<times> 'w" where
  "ctl_ListNodes dial net = withRedirect dial (netListNodes net)"

definition ctl_CancelJob :: "(string \<Rightarrow> string option) \<Rightarrow> 'w net \<Rightarrow> string \<Rightarrow> redirectingSchedulerAPI \<Rightarrow> 'w
     \<Rightarrow> (ctl_error + unit) \<times> redirectingSchedulerAPI \<times> 'w" where
  "ctl_CancelJob dial net jobId = withRedirect dial (netCancelJob net jobId)"

section \<open>Reaching the leader\<close>

text \<open>What holds of every successful call holds of the answer, whichever replica gave it.\<close>

lemma redirect_result:
  assumes "\<And>a w x w'. call a w = (Inr x, w') \<Longrightarrow> Q x w'"
  shows "redirect_loop dial call n c w = (Inr x, c', w') \<Longrightarrow> Q x w'"
  by (induction n arbitrary: c w) (auto split: prod.splits sum.splits option.splits dest: assms)

text \<open>What every call keeps of the world is kept by the attempts together.\<close>

lemma redirect_keeps:
  assumes "\<And>a w r w'. call a w = (r, w') \<Longrightarrow> R w w'" and "\<And>u v w. R u v \<Longrightarrow> R v w \<Longrightarrow> R u w"
  shows "redirect_loop dial call n c w = (r, c', w') \<Longrightarrow> R w w'"
proof (induction n arbitrary: c w)
  case 0
  then show ?case by (auto split: prod.splits sum.splits dest: assms(1))
next
  case (Suc n)
  then show ?case
    by (auto split: prod.splits sum.splits option.splits dest: assms(1) intro: assms(2) [OF assms(1)])
qed

text \<open>
  Attempts needed from an address when the leader is at \<open>L\<close>: none further at \<open>L\<close>, one from a live
  replica, two from a dead one that is not the seed.
\<close>

definition hops :: "string \<Rightarrow> (string \<Rightarrow> bool) \<Rightarrow> redirectingSchedulerAPI \<Rightarrow> nat" where
  "hops L live c = (if raAddr c = L then 0 else if live (raAddr c) then 1 else 2)"

lemma move_redirect:
  "ParseLeaderAddr (Some err) = Some l \<Longrightarrow> raAddr c \<noteq> l \<Longrightarrow>
   redirect_move dial_all err c = (None, c\<lparr>raAddr := l, raConn := True\<rparr>)"
  by (auto simp: redirect_move_def redial_def)

lemma move_final:
  "ParseLeaderAddr (Some err) = None \<Longrightarrow> stCode err \<noteq> Unavailable \<Longrightarrow>
   redirect_move dial err c = (Some (CallFailed err), c)"
  by (simp add: redirect_move_def)

lemma failed_attempt_moves:
  assumes "led_call L live call" and "live (raSeed c)" and "raAddr c \<noteq> L"
  obtains err c' where "call (raAddr c) w = (Inl err, w)" "redirect_move dial_all err c = (None, c')"
    "hops L live c' < hops L live c" "raSeed c' = raSeed c"
proof (cases "live (raAddr c)")
  case True
  with assms have "call (raAddr c) w = (Inl (Status FailedPrecondition (FormatNotLeaderError L)), w)" "plain_addr L"
    by (auto simp: led_call_def)
  with True assms(3) move_redirect [OF ParseLeaderAddr_redirect, of L c] show thesis
    by (intro that [of _ "c\<lparr>raAddr := L, raConn := True\<rparr>"]) (simp_all add: hops_def)
next
  case False
  with assms obtain m where m: "call (raAddr c) w = (Inl (Status Unavailable m), w)"
    unfolding led_call_def by blast
  from False assms(2) have "raAddr c \<noteq> raSeed c" by auto
  with m False assms(2,3) show thesis
    by (intro that [of _ "c\<lparr>raAddr := raSeed c, raConn := True\<rparr>"])
       (auto simp: redirect_move_def Let_def other_not_redirect redial_def hops_def)
qed

lemma redirect_reaches:
  assumes "led_call L live call" and "call L w = (res, w')"
  shows "live (raSeed c) \<or> raAddr c = L \<Longrightarrow> hops L live c \<le> n \<Longrightarrow>
    \<exists>c'. redirect_loop dial_all call n c w = (case res of Inl st \<Rightarrow> Inl (CallFailed st) | Inr x \<Rightarrow> Inr x, c', w')
       \<and> raAddr c' = L \<and> raSeed c' = raSeed c"
proof (induction n arbitrary: c)
  case 0
  then show ?case using assms(2) by (auto simp: hops_def split: sum.splits if_splits)
next
  case (Suc n)
  show ?case
  proof (cases "raAddr c = L")
    case True
    have "redirect_move dial_all st c = (Some (CallFailed st), c)" if "res = Inl st" for st
      using assms that by (intro move_final) (auto simp: led_call_def)
    with True assms(2) show ?thesis by (cases res) auto
  next
    case False
    with Suc.prems have "live (raSeed c)" by blast
    then obtain err c' where "call (raAddr c) w = (Inl err, w)" "redirect_move dial_all err c = (None, c')"
      "hops L live c' < hops L live c" "raSeed c' = raSeed c"
      using failed_attempt_moves [OF assms(1) _ False] by metis
    with Suc.IH [of c'] Suc.prems \<open>live (raSeed c)\<close> show ?thesis by auto
  qed
qed

context routed_rpc
begin

text \<open>A live seed, or a connection to the leader, is enough.\<close>

lemma ctl_reaches_leader:
  assumes "led_by L srvs live" and "live (raSeed c) \<or> raAddr c = L" and "handler (srvs L) req w = (res, w')"
  shows "\<exists>c'. withRedirect dial_all (cluster_call handler srvs live req) c w
      = (case res of Inl st \<Rightarrow> Inl (CallFailed st) | Inr x \<Rightarrow> Inr x, c', w')
    \<and> raAddr c' = L \<and> raSeed c' = raSeed c"
proof -
  have "cluster_call handler srvs live req L w = (res, w')"
    using assms by (simp add: cluster_call_def led_by_def)
  from redirect_reaches [OF led [OF assms(1)] this assms(2)] show ?thesis
    by (simp add: withRedirect_def hops_def)
qed

end

text \<open>
  C24: the command line reaches the leader. From any live replica as its address (also after the replica it was
  sent to has gone away), a submission is handled by the leader exactly once, and the command gets the
  leader's answer.
\<close>

theorem ctl_submit_reaches_leader:
  assumes "led_by L srvs live" and "live (raSeed c) \<or> raAddr c = L"
    and "netSubmitJob net = cluster_call rpc_SubmitJob srvs live"
    and "rpc_SubmitJob (srvs L) req w = (res, w')"
  shows "\<exists>c'. ctl_SubmitJob dial_all net req c w
      = (case res of Inl st \<Rightarrow> Inl (CallFailed st) | Inr x \<Rightarrow> Inr x, c', w')
    \<and> raAddr c' = L \<and> raSeed c' = raSeed c"
  unfolding ctl_SubmitJob_def assms(3) by (rule routed_submit.ctl_reaches_leader [OF assms(1,2,4)])

definition quiet_net :: "'w net" where
  "quiet_net = \<lparr>netSubmitJob = (\<lambda>_ _ w. (Inl (Status Unavailable []), w)), netGetJob = (\<lambda>_ _ w. (Inl (Status Unavailable []), w)),
     netGetTask = (\<lambda>_ _ w. (Inl (Status Unavailable []), w)), netListJobs = (\<lambda>_ w. (Inl (Status Unavailable []), w)),
     netListTasks = (\<lambda>_ _ w. (Inl (Status Unavailable []), w)), netListNodes = (\<lambda>_ w. (Inl (Status Unavailable []), w)),
     netCancelJob = (\<lambda>_ _ w. (Inl (Status Unavailable []), w))\<rparr>"

text \<open>The seed is a follower; the replica the client was sent to before is down.\<close>

theorem ctl_submit_reaches_leader_witness:
  "\<exists>j c' d'. ctl_SubmitJob dial_all
       (quiet_net\<lparr>netSubmitJob := cluster_call rpc_SubmitJob three_replicas (\<lambda>a. a \<noteq> ''s1:7000'')\<rparr>) small_submit
       \<lparr>raSeed = ''s2:7000'', raAddr = ''s1:7000'', raConn = True\<rparr> (\<lambda>_. None, sample_db)
     = (Inr j, c', \<lambda>_. None, d') \<and> raAddr c' = ''s3:7000''"
proof -
  have "three_replicas ''s3:7000'' = sample_srv None" by (simp add: three_replicas_def)
  with small_submit_accepted obtain j d' where
    "rpc_SubmitJob (three_replicas ''s3:7000'') small_submit (\<lambda>_. None, sample_db) = (Inr j, \<lambda>_. None, d')" by auto
  from ctl_submit_reaches_leader [OF three_replicas_led _ _ this,
      of "\<lparr>raSeed = ''s2:7000'', raAddr = ''s1:7000'', raConn = True\<rparr>"
         "quiet_net\<lparr>netSubmitJob := cluster_call rpc_SubmitJob three_replicas (\<lambda>a. a \<noteq> ''s1:7000'')\<rparr>"]
  show ?thesis by auto
qed

end
