(* ===== verification/Arbiterctl.thy ===== *)
theory Arbiterctl
  imports Ctl_Client Http_Api Net_Addr
begin

text \<open>
  The commands of \<^verbatim>\<open>src/cmd/arbiterctl/main.go\<close>. A command takes its parsed flags and arguments and gives
  what it prints, or an error, with the world afterwards; a table is its rows of cells, the first the
  header (the column widths are left to \<^verbatim>\<open>tabwriter\<close>), and writing to the terminal does not fail; the words a
  command puts before the error of a call are left out.
  \<open>clock\<close> and \<open>pause\<close> are \<^verbatim>\<open>time.Now\<close> and \<^verbatim>\<open>time.Sleep\<close> on the world. The theorems: waiting for a job ends
  by its timeout, and its verdict is what the database says.
\<close>

section \<open>Flags and arguments\<close>

definition ctl_shortID :: "string \<Rightarrow> string" where
  "ctl_shortID i = (if 8 < length i then take 8 i else i)"

fun parse_pairs :: "string list \<Rightarrow> strmap \<Rightarrow> ctl_error + strmap" where
  "parse_pairs [] out = Inr out"
| "parse_pairs (p # ps) out =
     (case Cut CHR ''='' p of
        (key, val, ok) \<Rightarrow>
          if \<not> ok \<or> key = [] then Inl (CtlError (''invalid key=value '' @ quoted p))
          else parse_pairs ps (mput key val out))"

definition parseKeyValues :: "string list \<Rightarrow> ctl_error + strmap" where
  "parseKeyValues pairs = parse_pairs pairs []"

record submitFlags =
  sfImage :: string
  sfCommand :: "string list"
  sfReplicas :: int
  sfCpuMC :: int
  sfMemMB :: int
  sfPolicy :: string
  sfConstraints :: "string list"
  sfWait :: bool
  sfWaitFor :: duration

definition default_submitFlags :: submitFlags where
  "default_submitFlags =
     \<lparr>sfImage = ''arbiter-workload:latest'', sfCommand = [], sfReplicas = 1, sfCpuMC = 100, sfMemMB = 64,
      sfPolicy = ''bin_pack'', sfConstraints = [], sfWait = False, sfWaitFor = 2 * Minute\<rparr>"

definition submit_request :: "submitFlags \<Rightarrow> string \<Rightarrow> strmap \<Rightarrow> SubmitJobRequest" where
  "submit_request f name constraintMap =
     \<lparr>sjName = name, sjImage = sfImage f, sjCommand = sfCommand f,
      sjRequest = Some \<lparr>nrCpuMillicores = sfCpuMC f, nrMemoryMb = sfMemMB f\<rparr>,
      sjReplicas = sfReplicas f, sjRetryLimit = 0, sjSchedulingPolicy = sfPolicy f,
      sjConstraints = constraintMap\<rparr>"

definition deriveHTTPBase :: "string \<Rightarrow> string" where
  "deriveHTTPBase grpcAddr =
     (let host = (case SplitHostPort grpcAddr of Some (h, p) \<Rightarrow> h | None \<Rightarrow> grpcAddr);
          host = (if host = [] \<or> host = ''0.0.0.0'' then ''localhost'' else host);
          httpPort = (case SplitHostPort grpcAddr of
                        Some (h, p) \<Rightarrow> if p = ''7001'' then ''8086'' else if p = ''7002'' then ''8087'' else ''8080''
                      | None \<Rightarrow> ''8080'')
      in ''http://'' @ JoinHostPort host httpPort)"

section \<open>Waiting for a job\<close>

text \<open>Succeeded, failed and still in flight.\<close>

fun tally :: "ProtoTask list \<Rightarrow> nat \<times> nat \<times> nat" where
  "tally [] = (0, 0, 0)"
| "tally (t # ts) =
     (case tally ts of
        (succeeded, failed, pending) \<Rightarrow>
          if ptStatus t = ''succeeded'' then (succeeded + 1, failed, pending)
          else if ptStatus t = ''failed'' \<or> ptStatus t = ''cancelled'' then (succeeded, failed + 1, pending)
          else (succeeded, failed, pending + 1))"

definition progress_line :: "string \<Rightarrow> nat \<times> nat \<times> nat \<Rightarrow> string" where
  "progress_line jobID = (\<lambda>(succeeded, failed, pending).
     ''job '' @ ctl_shortID jobID @ '': succeeded='' @ itoa (int succeeded) @ '' failed='' @ itoa (int failed)
       @ '' inflight='' @ itoa (int pending))"

text \<open>\<open>None\<close> is never returning; the lines printed so far are \<open>out\<close>.\<close>

partial_function (option) wait_loop ::
  "('w \<Rightarrow> time) \<Rightarrow> ('w \<Rightarrow> 'w)
     \<Rightarrow> (redirectingSchedulerAPI \<Rightarrow> 'w \<Rightarrow> (ctl_error + ProtoTask list) \<times> redirectingSchedulerAPI \<times> 'w)
     \<Rightarrow> string \<Rightarrow> time \<Rightarrow> string list \<Rightarrow> redirectingSchedulerAPI \<Rightarrow> 'w
     \<Rightarrow> ((ctl_error + unit) \<times> string list \<times> redirectingSchedulerAPI \<times> 'w) option" where
  "wait_loop clock pause listTasks jobID deadline out c w =
     (case listTasks c w of
        (Inl e, c', w') \<Rightarrow> Some (Inl e, out, c', w')
      | (Inr tasks, c', w') \<Rightarrow>
          if tasks = [] then Some (Inl (NoTasks jobID), out, c', w')
          else
            (case tally tasks of
               (succeeded, failed, pending) \<Rightarrow>
                 let out' = out @ [progress_line jobID (succeeded, failed, pending)] in
                 if pending = 0 then
                   if 0 < failed then Some (Inl (JobFailed failed), out', c', w')
                   else Some (Inr (), out' @ [''all tasks succeeded''], c', w')
                 else if deadline < clock w' then Some (Inl (TimedOut jobID pending), out', c', w')
                 else wait_loop clock pause listTasks jobID deadline out' c' (pause w')))"

definition waitForJob ::
  "('w \<Rightarrow> time) \<Rightarrow> ('w \<Rightarrow> 'w) \<Rightarrow> (string \<Rightarrow> string option) \<Rightarrow> 'w net \<Rightarrow> string \<Rightarrow> duration
     \<Rightarrow> redirectingSchedulerAPI \<Rightarrow> 'w \<Rightarrow> ((ctl_error + unit) \<times> string list \<times> redirectingSchedulerAPI \<times> 'w) option" where
  "waitForJob clock pause dial net jobID timeout c w =
     wait_loop clock pause (ctl_ListTasks dial net jobID) jobID (clock w + timeout) [] c w"

section \<open>The commands\<close>

text \<open>Dial, run, close.\<close>

definition with_api ::
  "(string \<Rightarrow> string option) \<Rightarrow> string
     \<Rightarrow> (redirectingSchedulerAPI \<Rightarrow> 'w \<Rightarrow> (ctl_error + 'a) \<times> redirectingSchedulerAPI \<times> 'w)
     \<Rightarrow> 'w \<Rightarrow> (ctl_error + 'a) \<times> 'w" where
  "with_api dial addr body w =
     (case dialAPI dial addr of
        Inl e \<Rightarrow> (Inl e, w)
      | Inr c \<Rightarrow> (case body c w of (r, c', w') \<Rightarrow> (r, w')))"

definition submitted_line :: "ProtoJob \<Rightarrow> string" where
  "submitted_line job =
     ''submitted job '' @ pjName job @ '' ('' @ pjId job @ '') replicas='' @ itoa (pjReplicas job) @ '' image=''
       @ pjImage job @ '' policy='' @ pjSchedulingPolicy job"

definition submit_cmd ::
  "('w \<Rightarrow> time) \<Rightarrow> ('w \<Rightarrow> 'w) \<Rightarrow> (string \<Rightarrow> string option) \<Rightarrow> 'w net \<Rightarrow> string \<Rightarrow> submitFlags \<Rightarrow> string \<Rightarrow> 'w
     \<Rightarrow> ((ctl_error + unit) \<times> string list \<times> 'w) option" where
  "submit_cmd clock pause dial net addr f name w =
     (case dialAPI dial addr of
        Inl e \<Rightarrow> Some (Inl e, [], w)
      | Inr c \<Rightarrow>
          (case parseKeyValues (sfConstraints f) of
             Inl e \<Rightarrow> Some (Inl e, [], w)
           | Inr constraintMap \<Rightarrow>
               (case ctl_SubmitJob dial net (submit_request f name constraintMap) c w of
                  (Inl e, c', w') \<Rightarrow> Some (Inl e, [], w')
                | (Inr job, c', w') \<Rightarrow>
                    if \<not> sfWait f then Some (Inr (), [submitted_line job], w')
                    else (case waitForJob clock pause dial net (pjId job) (sfWaitFor f) c' w' of
                            None \<Rightarrow> None
                          | Some (r, out, c'', w'') \<Rightarrow> Some (r, submitted_line job # out, w'')))))"

definition node_cells :: "ProtoNode \<Rightarrow> string list" where
  "node_cells n =
     [ctl_shortID (pnId n), pnHostname n, pnStatus n, itoa (pnEpoch n),
      itoa (nrCpuMillicores (pnAllocated n)) @ ''/'' @ itoa (nrCpuMillicores (pnCapacity n)),
      itoa (nrMemoryMb (pnAllocated n)) @ ''/'' @ itoa (nrMemoryMb (pnCapacity n))]"

definition get_nodes_cmd ::
  "(string \<Rightarrow> string option) \<Rightarrow> 'w net \<Rightarrow> string \<Rightarrow> 'w \<Rightarrow> (ctl_error + string list list) \<times> 'w" where
  "get_nodes_cmd dial net addr =
     with_api dial addr (\<lambda>c w.
       case ctl_ListNodes dial net c w of
         (Inl e, c', w') \<Rightarrow> (Inl e, c', w')
       | (Inr nodes, c', w') \<Rightarrow>
           (Inr ([''ID'', ''HOSTNAME'', ''STATUS'', ''EPOCH'', ''CPU(alloc/cap)'', ''MEM(alloc/cap)'']
                  # map node_cells nodes), c', w'))"

definition job_cells :: "ProtoJob \<Rightarrow> string list" where
  "job_cells j =
     [ctl_shortID (pjId j), pjName j, itoa (pjReplicas j), pjImage j, itoa (nrCpuMillicores (pjRequest j)),
      itoa (nrMemoryMb (pjRequest j)), pjSchedulingPolicy j]"

definition get_jobs_cmd ::
  "(string \<Rightarrow> string option) \<Rightarrow> 'w net \<Rightarrow> string \<Rightarrow> 'w \<Rightarrow> (ctl_error + string list list) \<times> 'w" where
  "get_jobs_cmd dial net addr =
     with_api dial addr (\<lambda>c w.
       case ctl_ListJobs dial net c w of
         (Inl e, c', w') \<Rightarrow> (Inl e, c', w')
       | (Inr jobs, c', w') \<Rightarrow>
           (Inr ([''ID'', ''NAME'', ''REPLICAS'', ''IMAGE'', ''CPU'', ''MEM'', ''POLICY''] # map job_cells jobs), c', w'))"

definition task_cells :: "ProtoTask \<Rightarrow> string list" where
  "task_cells t =
     [ctl_shortID (ptId t), ctl_shortID (ptJobId t), ptStatus t, ctl_shortID (ptAssignedNodeId t), itoa (ptExitCode t),
      ptLastError t]"

definition get_tasks_cmd ::
  "(string \<Rightarrow> string option) \<Rightarrow> 'w net \<Rightarrow> string \<Rightarrow> string \<Rightarrow> 'w \<Rightarrow> (ctl_error + string list list) \<times> 'w" where
  "get_tasks_cmd dial net addr jobID =
     with_api dial addr (\<lambda>c w.
       case ctl_ListTasks dial net jobID c w of
         (Inl e, c', w') \<Rightarrow> (Inl e, c', w')
       | (Inr tasks, c', w') \<Rightarrow>
           (Inr ([''ID'', ''JOB'', ''STATUS'', ''NODE'', ''EXIT'', ''ERROR''] # map task_cells tasks), c', w'))"

definition describe_task_cmd ::
  "(string \<Rightarrow> string option) \<Rightarrow> 'w net \<Rightarrow> string \<Rightarrow> string \<Rightarrow> 'w \<Rightarrow> (ctl_error + string list list) \<times> 'w" where
  "describe_task_cmd dial net addr taskID =
     with_api dial addr (\<lambda>c w.
       case ctl_GetTask dial net taskID c w of
         (Inl e, c', w') \<Rightarrow> (Inl e, c', w')
       | (Inr task, c', w') \<Rightarrow>
           (Inr [[''ID:'', ptId task], [''JOB:'', ptJobId task], [''STATUS:'', ptStatus task],
                 [''NODE:'', ptAssignedNodeId task], [''RETRIES:'', itoa (ptRetriesUsed task)],
                 [''EXIT:'', itoa (ptExitCode task)], [''ERROR:'', ptLastError task]], c', w'))"

text \<open>
  The logs command asks over HTTP: \<open>get\<close> is \<^verbatim>\<open>http.Get\<close> with the body read, \<open>decode\<close> the JSON decoding of its
  \<open>logs\<close> and \<open>error\<close> members.
\<close>

definition TrimRight_slash :: "string \<Rightarrow> string" where
  "TrimRight_slash s = rev (dropWhile (\<lambda>c. c = CHR ''/'') (rev s))"

definition logs_url :: "string \<Rightarrow> string \<Rightarrow> string \<Rightarrow> int \<Rightarrow> string" where
  "logs_url httpAddr schedulerAddr taskID tailN =
     (let base = (if httpAddr = [] then deriveHTTPBase schedulerAddr else httpAddr)
      in TrimRight_slash base @ ''/api/v1/tasks/'' @ taskID @ ''/logs?tail='' @ itoa tailN)"

definition logs_cmd ::
  "(string \<Rightarrow> 'w \<Rightarrow> (string + int \<times> string) \<times> 'w) \<Rightarrow> (string \<Rightarrow> string + string \<times> string)
     \<Rightarrow> string \<Rightarrow> string \<Rightarrow> string \<Rightarrow> int \<Rightarrow> 'w \<Rightarrow> (ctl_error + string) \<times> 'w" where
  "logs_cmd get decode httpAddr schedulerAddr taskID tailN w =
     (case get (logs_url httpAddr schedulerAddr taskID tailN) w of
        (Inl e, w') \<Rightarrow> (Inl (CtlError (''fetch logs: '' @ e)), w')
      | (Inr (code, body), w') \<Rightarrow>
          if 300 \<le> code then (Inl (CtlError (''logs: '' @ TrimSpace body)), w')
          else (case decode body of
                  Inl e \<Rightarrow> (Inl (CtlError e), w')
                | Inr (logs, err) \<Rightarrow> if err \<noteq> [] then (Inl (CtlError err), w') else (Inr logs, w')))"

section \<open>The program\<close>

text \<open>
  The tree of commands with what cobra has parsed for each: its own flags and its argument. \<open>rootFlags\<close> are
  the persistent flags. The output is a list of lines, each a list of tab-separated cells.
\<close>

record rootFlags =
  rfSchedulerAddr :: string
  rfHttpAddr :: string

definition default_rootFlags :: "(string \<Rightarrow> string) \<Rightarrow> rootFlags" where
  "default_rootFlags getenv =
     \<lparr>rfSchedulerAddr = cmd_envOr getenv ''ARBITER_SCHEDULER_ADDR'' ''localhost:7000'',
      rfHttpAddr = cmd_envOr getenv ''ARBITER_HTTP_ADDR'' []\<rparr>"

definition table :: "(ctl_error + string list list) \<times> 'w \<Rightarrow> (ctl_error + unit) \<times> string list list \<times> 'w" where
  "table = (\<lambda>(r, w). case r of Inl e \<Rightarrow> (Inl e, [], w) | Inr rows \<Rightarrow> (Inr (), rows, w))"

datatype ctl_command =
    CmdVersion
  | CmdSubmit submitFlags string
  | CmdGetNodes
  | CmdGetJobs
  | CmdGetTasks string
  | CmdDescribeTask string
  | CmdLogs int string

text \<open>The defaults of \<^verbatim>\<open>internal/buildinfo\<close>; a build may override them.\<close>

record buildinfo =
  biVersion :: string
  biCommit :: string

definition default_buildinfo :: buildinfo where
  "default_buildinfo = \<lparr>biVersion = ''dev'', biCommit = ''none''\<rparr>"

definition version_line :: "buildinfo \<Rightarrow> string" where
  "version_line b = ''arbiterctl '' @ biVersion b @ '' (commit '' @ biCommit b @ '')''"

fun ctl_execute ::
  "('w \<Rightarrow> time) \<Rightarrow> ('w \<Rightarrow> 'w) \<Rightarrow> (string \<Rightarrow> string option) \<Rightarrow> 'w net
     \<Rightarrow> (string \<Rightarrow> 'w \<Rightarrow> (string + int \<times> string) \<times> 'w) \<Rightarrow> (string \<Rightarrow> string + string \<times> string) \<Rightarrow> buildinfo
     \<Rightarrow> rootFlags \<Rightarrow> ctl_command \<Rightarrow> 'w \<Rightarrow> ((ctl_error + unit) \<times> string list list \<times> 'w) option" where
  "ctl_execute clock pause dial net get decode b root CmdVersion w = Some (Inr (), [[version_line b]], w)"
| "ctl_execute clock pause dial net get decode b root (CmdSubmit f name) w =
     map_option (\<lambda>(r, out, w'). (r, map (\<lambda>l. [l]) out, w'))
       (submit_cmd clock pause dial net (rfSchedulerAddr root) f name w)"
| "ctl_execute clock pause dial net get decode b root CmdGetNodes w =
     Some (table (get_nodes_cmd dial net (rfSchedulerAddr root) w))"
| "ctl_execute clock pause dial net get decode b root CmdGetJobs w =
     Some (table (get_jobs_cmd dial net (rfSchedulerAddr root) w))"
| "ctl_execute clock pause dial net get decode b root (CmdGetTasks jobID) w =
     Some (table (get_tasks_cmd dial net (rfSchedulerAddr root) jobID w))"
| "ctl_execute clock pause dial net get decode b root (CmdDescribeTask taskID) w =
     Some (table (describe_task_cmd dial net (rfSchedulerAddr root) taskID w))"
| "ctl_execute clock pause dial net get decode b root (CmdLogs tailN taskID) w =
     (case logs_cmd get decode (rfHttpAddr root) (rfSchedulerAddr root) taskID tailN w of
        (Inl e, w') \<Rightarrow> Some (Inl e, [], w')
      | (Inr logs, w') \<Rightarrow> Some (Inr (), [[logs]], w'))"

text \<open>\<open>main\<close>: the exit status is 1 exactly when the command returns an error.\<close>

definition ctl_main ::
  "('w \<Rightarrow> time) \<Rightarrow> ('w \<Rightarrow> 'w) \<Rightarrow> (string \<Rightarrow> string option) \<Rightarrow> 'w net
     \<Rightarrow> (string \<Rightarrow> 'w \<Rightarrow> (string + int \<times> string) \<times> 'w) \<Rightarrow> (string \<Rightarrow> string + string \<times> string) \<Rightarrow> buildinfo
     \<Rightarrow> rootFlags \<Rightarrow> ctl_command \<Rightarrow> 'w \<Rightarrow> (int \<times> string list list \<times> 'w) option" where
  "ctl_main clock pause dial net get decode b root cmd w =
     map_option (\<lambda>(r, out, w'). (case r of Inl e \<Rightarrow> 1 | Inr _ \<Rightarrow> 0, out, w'))
       (ctl_execute clock pause dial net get decode b root cmd w)"

section \<open>Flags\<close>

text \<open>Constraints with plain keys are read as given; of a repeated key the last value counts.\<close>

lemma parse_pairs_ok:
  assumes "list_all (\<lambda>kv. fst kv \<noteq> [] \<and> CHR ''='' \<notin> set (fst kv)) kvs"
  shows "\<exists>m. parse_pairs (map (\<lambda>kv. fst kv @ ''='' @ snd kv) kvs) out = Inr m \<and> map_of m = map_of out ++ map_of (rev kvs)"
  using assms
proof (induction kvs arbitrary: out)
  case (Cons kv kvs)
  then obtain m where "parse_pairs (map (\<lambda>kv. fst kv @ ''='' @ snd kv) kvs) (mput (fst kv) (snd kv) out) = Inr m"
    "map_of m = map_of (mput (fst kv) (snd kv) out) ++ map_of (rev kvs)" by fastforce
  moreover have "map_of (mput (fst kv) (snd kv) out) ++ map_of (rev kvs) = map_of out ++ map_of (rev (kv # kvs))"
    by (auto simp: map_add_def fun_eq_iff split: option.splits)
  ultimately show ?case using Cons.prems by (simp add: Cut_append)
qed simp

text \<open>The HTTP address derived from the address of a replica keeps its host.\<close>

lemma deriveHTTPBase_host:
  assumes "no_bracket host" and "no_bracket port" and "CHR '':'' \<notin> set port" and "host \<notin> {[], ''0.0.0.0''}"
  shows "\<exists>hp \<in> {''8080'', ''8086'', ''8087''}. deriveHTTPBase (JoinHostPort host port) = ''http://'' @ JoinHostPort host hp"
  using assms split_join [OF assms(1-3)] by (auto simp: deriveHTTPBase_def Let_def)

section \<open>Waiting ends\<close>

text \<open>
  The clock of the world: a sleep of half a second takes at least that long and no call turns the clock
  back.
\<close>

definition time_passes :: "('w \<Rightarrow> time) \<Rightarrow> ('w \<Rightarrow> 'w) \<Rightarrow> ('w, 'a) rpc_call \<Rightarrow> bool" where
  "time_passes clock pause call \<longleftrightarrow> (\<forall>w. clock w + 500 * Millisecond \<le> clock (pause w))
     \<and> (\<forall>a w. clock w \<le> clock (snd (call a w)))"

lemma list_tasks_time:
  assumes "time_passes clock pause (netListTasks net jobID)"
    and "ctl_ListTasks dial net jobID c w = (r, c', w')"
  shows "clock w \<le> clock w'"
proof -
  have "clock u \<le> clock u'" if "netListTasks net jobID a u = (r, u')" for a u r u'
    using assms(1) that unfolding time_passes_def by (metis snd_conv)
  then show ?thesis
    using redirect_keeps [of "netListTasks net jobID" "\<lambda>u v. clock u \<le> clock v" dial 6 c w r c' w'] assms(2)
    by (fastforce simp: ctl_ListTasks_def withRedirect_def)
qed

lemma wait_loop_ends:
  assumes "time_passes clock pause (netListTasks net jobID)"
  shows "deadline < clock w + int n * (500 * Millisecond) \<Longrightarrow>
    \<exists>r out' c' w'. wait_loop clock pause (ctl_ListTasks dial net jobID) jobID deadline out c w = Some (r, out', c', w')
      \<and> length out' \<le> length out + n + 2"
proof (induction n arbitrary: out c w)
  case 0
  obtain r c' w' where l: "ctl_ListTasks dial net jobID c w = (r, c', w')" by (metis prod_cases3)
  from list_tasks_time [OF assms l] 0 have "deadline < clock w'" by simp
  with l show ?case by (subst wait_loop.simps) (auto simp: Let_def split: sum.split prod.split)
next
  case (Suc n)
  obtain r c' w' where l: "ctl_ListTasks dial net jobID c w = (r, c', w')" by (metis prod_cases3)
  have "clock w \<le> clock w'" by (rule list_tasks_time [OF assms l])
  moreover have "clock w' + 500 * Millisecond \<le> clock (pause w')" using assms by (simp add: time_passes_def)
  ultimately have later: "deadline < clock (pause w') + int n * (500 * Millisecond)"
    using Suc.prems by (simp add: algebra_simps)
  show ?case
  proof (cases r)
    case (Inl e)
    with l show ?thesis by (subst wait_loop.simps) simp
  next
    case (Inr tasks)
    obtain s f p where t: "tally tasks = (s, f, p)" by (metis prod_cases3)
    obtain r' out' c'' w'' where
      "wait_loop clock pause (ctl_ListTasks dial net jobID) jobID deadline (out @ [progress_line jobID (s, f, p)]) c' (pause w')
         = Some (r', out', c'', w'')" "length out' \<le> length out + 1 + n + 2"
      using Suc.IH [OF later, of "out @ [progress_line jobID (s, f, p)]" c'] by auto
    with l Inr t show ?thesis by (subst wait_loop.simps) (simp add: Let_def)
  qed
qed

text \<open>
  C22: Waiting ends. \<open>waitForJob\<close> returns, whatever the cluster does, and polls at most every half second until
  its timeout: it prints no more than a line for each poll and a last one.
\<close>

theorem waitForJob_returns:
  assumes "time_passes clock pause (netListTasks net jobID)" and "0 \<le> timeout"
  shows "\<exists>r out c' w'. waitForJob clock pause dial net jobID timeout c w = Some (r, out, c', w')
    \<and> int (length out) \<le> timeout div (500 * Millisecond) + 3"
proof -
  let ?h = "500 * Millisecond" and ?n = "nat (timeout div (500 * Millisecond)) + 1"
  have h: "0 < ?h" by (simp add: Millisecond_def)
  have n: "int ?n = timeout div ?h + 1" using assms(2) h by (simp add: pos_imp_zdiv_nonneg_iff)
  have "timeout < (timeout div ?h + 1) * ?h"
    using pos_mod_bound [OF h, of timeout] div_mult_mod_eq [of timeout ?h] by (simp add: algebra_simps)
  then have "clock w + timeout < clock w + int ?n * ?h" unfolding n by simp
  from wait_loop_ends [OF assms(1) this, of dial "[]" c] obtain r out c' w' where
    "waitForJob clock pause dial net jobID timeout c w = Some (r, out, c', w')" "length out \<le> ?n + 2"
    by (auto simp: waitForJob_def)
  moreover from this(2) n have "int (length out) \<le> timeout div ?h + 3" by linarith
  ultimately show ?thesis by blast
qed

section \<open>The verdict\<close>

text \<open>A cluster in which any live replica answers reads from the database of the world.\<close>

definition read_call :: "(db \<Rightarrow> Status + 'a) \<Rightarrow> ('w \<Rightarrow> db) \<Rightarrow> (string \<Rightarrow> bool) \<Rightarrow> ('w, 'a) rpc_call" where
  "read_call handler dbof live a w =
     (if live a then (handler (dbof w), w) else (Inl (Status Unavailable ''connection refused''), w))"

definition job_tasks :: "string \<Rightarrow> db \<Rightarrow> Task list" where
  "job_tasks jobID d = filter (\<lambda>t. tJobID t = jobID) (db_tasks d)"

definition task_failed :: "Task \<Rightarrow> bool" where
  "task_failed t \<longleftrightarrow> tStatus t = TaskStatusFailed \<or> tStatus t = TaskStatusCancelled"

definition task_in_flight :: "Task \<Rightarrow> bool" where
  "task_in_flight t \<longleftrightarrow> tStatus t \<noteq> TaskStatusSucceeded \<and> \<not> task_failed t"

text \<open>What an outcome of waiting says about the job in the database.\<close>

fun verdict_ok :: "string \<Rightarrow> time \<Rightarrow> time \<Rightarrow> db \<Rightarrow> ctl_error + unit \<Rightarrow> bool" where
  "verdict_ok jobID deadline now d (Inr u) \<longleftrightarrow>
     job_tasks jobID d \<noteq> [] \<and> (\<forall>t \<in> set (job_tasks jobID d). tStatus t = TaskStatusSucceeded)"
| "verdict_ok jobID deadline now d (Inl (JobFailed n)) \<longleftrightarrow>
     0 < n \<and> n = length (filter task_failed (job_tasks jobID d))
     \<and> (\<forall>t \<in> set (job_tasks jobID d). \<not> task_in_flight t)"
| "verdict_ok jobID deadline now d (Inl (TimedOut i n)) \<longleftrightarrow>
     i = jobID \<and> deadline < now \<and> 0 < n \<and> n = length (filter task_in_flight (job_tasks jobID d))"
| "verdict_ok jobID deadline now d (Inl (NoTasks i)) \<longleftrightarrow> i = jobID \<and> job_tasks jobID d = []"
| "verdict_ok jobID deadline now d (Inl _) \<longleftrightarrow> True"

lemma tally_tasks:
  "tally (map toProtoTask ts) = (s, f, p) \<Longrightarrow>
   s = length (filter (\<lambda>t. tStatus t = TaskStatusSucceeded) ts) \<and> f = length (filter task_failed ts)
   \<and> p = length (filter task_in_flight ts)"
proof (induction ts arbitrary: s f p)
  case (Cons t ts)
  obtain s' f' p' where t: "tally (map toProtoTask ts) = (s', f', p')" by (metis prod_cases3)
  have st: "ptStatus (toProtoTask t) = TaskStatus_text (tStatus t)" by (simp add: toProtoTask_def)
  from Cons.IH [OF t] Cons.prems t show ?case
    by (cases "tStatus t") (auto simp: st task_failed_def task_in_flight_def)
qed simp

lemma ctl_ListTasks_reads:
  assumes "netListTasks net jobID = read_call (rpc_ListTasks env jobID) dbof live" and "jobID \<noteq> []"
    and "ctl_ListTasks dial net jobID c w = (Inr tasks, c', w')"
  shows "tasks = map toProtoTask (sort_key tCreatedAt (job_tasks jobID (dbof w')))"
proof -
  let ?Q = "\<lambda>tasks w'. tasks = map toProtoTask (sort_key tCreatedAt (job_tasks jobID (dbof w')))"
  have "?Q x u'" if "netListTasks net jobID a u = (Inr x, u')" for a u x u'
    using that assms(2) unfolding assms(1)
    by (auto simp: read_call_def rpc_ListTasks_def ListTasks_def pool_query_def job_tasks_def
        split: if_splits sum.splits)
  then have "redirect_loop dial (netListTasks net jobID) 6 c w = (Inr tasks, c', w') \<Longrightarrow> ?Q tasks w'"
    by (rule redirect_result [of "netListTasks net jobID" ?Q])
  with assms(3) show ?thesis unfolding ctl_ListTasks_def withRedirect_def by blast
qed

lemma round_verdict:
  assumes "tasks = map toProtoTask (sort_key tCreatedAt (job_tasks jobID d))" and "tally tasks = (s, f, p)"
    and "tasks \<noteq> []"
  shows "p = 0 \<Longrightarrow> 0 < f \<Longrightarrow> verdict_ok jobID deadline now d (Inl (JobFailed f))"
    and "p = 0 \<Longrightarrow> f = 0 \<Longrightarrow> verdict_ok jobID deadline now d (Inr ())"
    and "0 < p \<Longrightarrow> deadline < now \<Longrightarrow> verdict_ok jobID deadline now d (Inl (TimedOut jobID p))"
proof -
  let ?js = "job_tasks jobID d"
  from tally_tasks [of "sort_key tCreatedAt ?js" s f p] assms(1,2)
  have c: "f = length (filter task_failed ?js)" "p = length (filter task_in_flight ?js)" by (simp_all add: filter_sort)
  have ne: "?js \<noteq> []" using assms(1,3) by auto
  show "p = 0 \<Longrightarrow> 0 < f \<Longrightarrow> verdict_ok jobID deadline now d (Inl (JobFailed f))"
    using c by (auto simp: filter_empty_conv)
  show "p = 0 \<Longrightarrow> f = 0 \<Longrightarrow> verdict_ok jobID deadline now d (Inr ())"
    using c ne by (auto simp: filter_empty_conv task_in_flight_def)
  show "0 < p \<Longrightarrow> deadline < now \<Longrightarrow> verdict_ok jobID deadline now d (Inl (TimedOut jobID p))"
    using c by simp
qed

text \<open>Failed calls have errors of their own.\<close>

lemma ctl_ListTasks_error:
  assumes "ctl_ListTasks dial net jobID c w = (Inl e, c', w')"
  shows "verdict_ok jobID' deadline now d (Inl e)"
proof -
  have move: "redirect_move dial err c = (Some e, c') \<Longrightarrow> verdict_ok jobID' deadline now d (Inl e)" for err c e c'
    by (auto simp: redirect_move_def Let_def redial_def split: option.splits if_splits)
  have "redirect_loop dial call n c w = (Inl e, c', w') \<Longrightarrow> verdict_ok jobID' deadline now d (Inl e)" for call n c w
    by (induction n arbitrary: c w) (auto split: prod.splits sum.splits option.splits dest: move)
  with assms show ?thesis by (simp add: ctl_ListTasks_def withRedirect_def)
qed

lemma wait_loop_verdict:
  assumes reads: "\<And>c w tasks c' w'. lt c w = (Inr tasks, c', w') \<Longrightarrow>
      tasks = map toProtoTask (sort_key tCreatedAt (job_tasks jobID (dbof w')))"
    and errors: "\<And>c w e c' w' now d. lt c w = (Inl e, c', w') \<Longrightarrow> verdict_ok jobID deadline now d (Inl e)"
    and "wait_loop clock pause lt jobID deadline out c w = Some y"
  shows "case y of (r, out', c', w') \<Rightarrow> verdict_ok jobID deadline (clock w') (dbof w') r"
proof -
  let ?ok = "\<lambda>y. case y of (r, out', c', w') \<Rightarrow> verdict_ok jobID deadline (clock w') (dbof w') r"
  let ?P = "\<lambda>clk p l j dl out c w y. clk = clock \<and> l = lt \<and> j = jobID \<and> dl = deadline \<longrightarrow> ?ok y"
  have "?P clock pause lt jobID deadline out c w y"
  proof (rule wait_loop.raw_induct [where P = ?P, OF _ assms(3)], goal_cases)
    case (1 loop clk p l j dl out c w y)
    show ?case
    proof
      assume eq: "clk = clock \<and> l = lt \<and> j = jobID \<and> dl = deadline"
      obtain res c' w' where l: "lt c w = (res, c', w')" by (metis prod_cases3)
      show "?ok y"
      proof (cases res)
        case (Inl e)
        with 1(2) eq l errors [of c w e c' w'] show ?thesis by auto
      next
        case (Inr tasks)
        obtain s f n where t: "tally tasks = (s, f, n)" by (metis prod_cases3)
        note r = reads [OF l [unfolded Inr]]
        show ?thesis
        proof (cases "tasks = []")
          case True
          with r have "job_tasks jobID (dbof w') = []" by (metis length_0_conv length_map length_sort)
          with True 1(2) eq l Inr show ?thesis by auto
        next
          case False
          note v = round_verdict [OF r t False]
          from 1(2) eq l Inr t False show ?thesis
            by (auto simp: Let_def v simp del: verdict_ok.simps split: if_splits dest: 1(1))
        qed
      qed
    qed
  qed
  then show ?thesis by blast
qed

lemma wait_verdict:
  assumes "netListTasks net jobID = read_call (rpc_ListTasks env jobID) dbof live" and "jobID \<noteq> []"
    and "waitForJob clock pause dial net jobID timeout c w = Some (r, out, c', w')"
  shows "verdict_ok jobID (clock w + timeout) (clock w') (dbof w') r"
  using wait_loop_verdict [OF ctl_ListTasks_reads [OF assms(1,2)] ctl_ListTasks_error
      assms(3) [unfolded waitForJob_def]] by simp

text \<open>
  C23: The verdict is right. When any live replica answers reads, and \<open>waitForJob\<close> returns, its outcome is true of
  the database at that moment: success means that the job has tasks and all of them succeeded; failure
  gives the number of failed tasks and none is in flight; a timeout comes after the deadline only and
  gives the number still in flight; "no tasks" means there are none.
\<close>

theorem waitForJob_verdict:
  assumes "netListTasks net jobID = read_call (rpc_ListTasks env jobID) dbof live" and "jobID \<noteq> []"
    and "waitForJob clock pause dial net jobID timeout c w = Some (r, out, c', w')"
  shows "verdict_ok jobID (clock w + timeout) (clock w') (dbof w') r"
  by (rule wait_verdict [OF assms])

text \<open>
  The exit status of \<^verbatim>\<open>arbiterctl submit --wait\<close> can be relied on: when the submitted job has a (non-empty) id
  and any live replica answers reads, status 0 means that the job's tasks have all succeeded.
\<close>

lemma submit_wait_status:
  assumes "\<And>jobID. netListTasks net jobID = read_call (rpc_ListTasks env jobID) dbof live"
    and "\<And>q a u j u'. netSubmitJob net q a u = (Inr j, u') \<Longrightarrow> pjId j \<noteq> []" and "sfWait f"
    and "ctl_main clock pause dial net get decode b root (CmdSubmit f name) w = Some (0, out, w')"
  shows "\<exists>jobID. job_tasks jobID (dbof w') \<noteq> []
    \<and> (\<forall>t \<in> set (job_tasks jobID (dbof w')). tStatus t = TaskStatusSucceeded)"
proof -
  from assms(4) obtain r lines where r: "submit_cmd clock pause dial net (rfSchedulerAddr root) f name w = Some (r, lines, w')"
    "(case r of Inl e \<Rightarrow> 1 | Inr _ \<Rightarrow> 0) = (0 :: int)"
    by (auto simp: ctl_main_def)
  then have "submit_cmd clock pause dial net (rfSchedulerAddr root) f name w = Some (Inr (), lines, w')" by (cases r) auto
  with assms(3) obtain c q job c1 w1 out' c2 where
    sub: "ctl_SubmitJob dial net q c w = (Inr job, c1, w1)"
    and wait: "waitForJob clock pause dial net (pjId job) (sfWaitFor f) c1 w1 = Some (Inr (), out', c2, w')"
    unfolding submit_cmd_def by (auto split: sum.splits prod.splits if_splits option.splits)
  have "pjId job \<noteq> []"
    using redirect_result [of "netSubmitJob net q" "\<lambda>j u. pjId j \<noteq> []" dial 6 c w job c1 w1] assms(2) sub
    by (fastforce simp: ctl_SubmitJob_def withRedirect_def)
  from wait_verdict [OF assms(1) this wait] show ?thesis by auto
qed

text \<open>A world of a database and a clock, in which nothing happens while the command sleeps.\<close>

definition calm_net :: "(db \<times> time) net" where
  "calm_net = quiet_net\<lparr>netListTasks := (\<lambda>j. read_call (rpc_ListTasks sample_env j) fst (\<lambda>_. True))\<rparr>"

definition calm_pause :: "db \<times> time \<Rightarrow> db \<times> time" where
  "calm_pause = (\<lambda>(d, t). (d, t + 500 * Millisecond))"

definition calm_client :: redirectingSchedulerAPI where
  "calm_client = \<lparr>raSeed = ''s1:7000'', raAddr = ''s1:7000'', raConn = True\<rparr>"

theorem waitForJob_returns_witness:
  "\<exists>r out c' w'. waitForJob snd calm_pause dial_all calm_net ''j1'' (2 * Second) calm_client (sample_db, 0)
     = Some (r, out, c', w') \<and> length out \<le> 7"
proof -
  have "time_passes snd calm_pause (netListTasks calm_net ''j1'')"
    by (auto simp: time_passes_def calm_pause_def calm_net_def read_call_def split: prod.splits)
  from waitForJob_returns [OF this, of "2 * Second" dial_all calm_client "(sample_db, 0)"]
  show ?thesis by (auto simp: Second_def Millisecond_def)
qed

definition done_db :: db where
  "done_db = sample_db\<lparr>db_tasks := [(task_row ''t3'')\<lparr>tStatus := TaskStatusSucceeded\<rparr>]\<rparr>"

lemma done_db_wait:
  "\<exists>out. waitForJob snd calm_pause dial_all calm_net ''j1'' (2 * Second) calm_client (done_db, 0)
     = Some (Inr (), out, calm_client, done_db, 0)"
proof -
  have "ctl_ListTasks dial_all calm_net ''j1'' calm_client (done_db, 0)
      = (Inr [toProtoTask ((task_row ''t3'')\<lparr>tStatus := TaskStatusSucceeded\<rparr>)], calm_client, done_db, 0)"
    by (simp add: ctl_ListTasks_def withRedirect_def eval_nat_numeral calm_net_def read_call_def calm_client_def
        rpc_ListTasks_def ListTasks_def pool_query_def done_db_def task_row_def)
  then show ?thesis
    unfolding waitForJob_def by (subst wait_loop.simps) (simp add: toProtoTask_def Let_def)
qed

theorem waitForJob_verdict_witness:
  "(\<exists>out c'. waitForJob snd calm_pause dial_all calm_net ''j1'' (2 * Second) calm_client (done_db, 0)
      = Some (Inr (), out, c', done_db, 0))
   \<and> job_tasks ''j1'' done_db \<noteq> [] \<and> list_all (\<lambda>t. tStatus t = TaskStatusSucceeded) (job_tasks ''j1'' done_db)"
proof -
  obtain out where w: "waitForJob snd calm_pause dial_all calm_net ''j1'' (2 * Second) calm_client (done_db, 0)
      = Some (Inr (), out, calm_client, done_db, 0)" using done_db_wait by blast
  have "netListTasks calm_net ''j1'' = read_call (rpc_ListTasks sample_env ''j1'') fst (\<lambda>_. True)"
    by (simp add: calm_net_def)
  from waitForJob_verdict [OF this _ w] have "verdict_ok ''j1'' (2 * Second) 0 done_db (Inr ())" by simp
  with w show ?thesis by (auto simp: list_all_iff)
qed

section \<open>The logs request\<close>

text \<open>
  The URL of the logs command, as the server parses it, is served by the logs of that task with that many
  lines.
\<close>

lemma logs_url_form:
  "logs_url httpAddr schedulerAddr taskID n
     = TrimRight_slash (if httpAddr = [] then deriveHTTPBase schedulerAddr else httpAddr)
         @ Join CHR ''/'' [[], ''api'', ''v1'', ''tasks'', taskID, ''logs''] @ ''?tail='' @ itoa n"
  by (simp add: logs_url_def)

lemma logs_request_served:
  assumes "taskID \<noteq> []" and "CHR ''/'' \<notin> set taskID" and "0 < n" and "in_i64 n" and "apDocker api = Some eng"
  shows "http_handle api base
      \<lparr>hqMethod = ''GET'', hqPath = Join CHR ''/'' [[], ''api'', ''v1'', ''tasks'', taskID, ''logs''],
       hqQuery = [(''tail'', itoa n)], hqBody = None\<rparr> (k, d)
    = (case TaskLogs eng taskID n k of
         (Inl (DockerError e), k') \<Rightarrow> (writeJSON 500 (ErrorJSON e), k', d)
       | (Inr None, k') \<Rightarrow>
           (writeJSON 404 (ErrorJSON ''no container found for task (may have exited and been auto-removed)''), k', d)
       | (Inr (Some logs), k') \<Rightarrow> (writeJSON 200 (LogsJSON logs), k', d))"
proof -
  have "Split CHR ''/'' (Join CHR ''/'' [[], ''api'', ''v1'', ''tasks'', taskID, ''logs''])
      = [[], ''api'', ''v1'', ''tasks'', taskID, ''logs'']"
    by (rule Split_Join) (use assms(2) in auto)
  then have r: "route_of ''GET'' (Join CHR ''/'' [[], ''api'', ''v1'', ''tasks'', taskID, ''logs'']) = RTaskLogs taskID"
    using assms(1) by (simp add: route_of_def Let_def)
  have "itoa n \<noteq> []" using assms(3) by (auto simp: itoa_def)
  then have q: "query_number [(''tail'', itoa n)] ''tail'' 200 = n"
    using assms(3,4) by (simp add: query_number_def mget_def ParseInt_itoa)
  show ?thesis
    using assms(5) by (simp add: http_handle_def r handleTaskLogs_def q del: Join.simps
        split: prod.split sum.split option.split docker_error.split)
qed

end
