(* ===== verification/Instrumentation.thy ===== *)
theory Instrumentation
  imports Metrics Election Autoscaler Grpc_Api
begin

text \<open>
  The call sites of the metrics in the loops and handlers of a scheduler replica: the elector, the engine, the failure detector,
  the task reports and the autoscaler. Each \<open>metered_\<close> definition is the operation of its component together with
  what it does to the replica's registry. The locale \<open>metered\<close> says that the metrics are only written: the
  operation does what it does without them. The theorems compare the counters with the audit trail.
  Histograms hold durations in nanoseconds (the code observes seconds).
\<close>

section \<open>Elections\<close>

text \<open>The switch at the end of \<^verbatim>\<open>Elector.tick\<close>.\<close>

definition elector_switch :: "bool \<Rightarrow> bool \<Rightarrow> Registry \<Rightarrow> Registry" where
  "elector_switch acquired wasLeader m =
     (if acquired \<and> \<not> wasLeader
      then m\<lparr>mLeaderElectionsTotal := mLeaderElectionsTotal m + 1, mIsLeader := 1\<rparr>
      else if \<not> acquired \<and> wasLeader then m\<lparr>mIsLeader := 0\<rparr>
      else m)"

definition metered_elector_tick ::
  "dbenv \<Rightarrow> time \<Rightarrow> Elector \<Rightarrow> db \<Rightarrow> Registry \<Rightarrow> (Elector \<times> db) \<times> Registry" where
  "metered_elector_tick env clk e d m =
     (case TryAcquireOrRenewLease env clk (cfgIdentity (elCfg e)) (cfgAdvertiseAddr (elCfg e))
             (cfgLeaseTTL (elCfg e)) d of
        (Inl err, d') \<Rightarrow> ((e, d'), m)
      | (Inr result, d') \<Rightarrow>
          ((e\<lparr>elIsLeader := aAcquired result, elEpoch := lEpoch (aLease result),
              elLeaderAddr := (if aAcquired result then cfgAdvertiseAddr (elCfg e)
                               else lLeaderAddr (aLease result))\<rparr>, d'),
           elector_switch (aAcquired result) (elIsLeader e) m))"

section \<open>Placements\<close>

text \<open>\<open>now\<close> is \<^verbatim>\<open>time.Now\<close> when the task has been placed.\<close>

definition observe_placement :: "time \<Rightarrow> TaskWithJob \<Rightarrow> Registry \<Rightarrow> Registry" where
  "observe_placement now w m =
     (let m = ObserveTaskStatus (TaskStatus_text TaskStatusScheduled) m
      in m\<lparr>mSchedulingLatency := mSchedulingLatency m @ [Since now (tCreatedAt (wTask w))]\<rparr>)"

fun metered_place_tasks ::
  "rounding \<Rightarrow> dbenv \<Rightarrow> (string \<Rightarrow> time) \<Rightarrow> Node list \<Rightarrow> alloc_map \<Rightarrow> TaskWithJob list \<Rightarrow> db \<Rightarrow> Registry
   \<Rightarrow> (store_error + (nat \<times> db)) \<times> Registry" where
  "metered_place_tasks rnd env now nodes pendingAlloc [] d m = (Inr (0, d), m)"
| "metered_place_tasks rnd env now nodes pendingAlloc (w # ws) d m =
     (case Place rnd nodes pendingAlloc w (Some DefaultFilters)
             (Some (ScorerForPolicy (wSchedulingPolicy w))) of
        None \<Rightarrow> metered_place_tasks rnd env now nodes pendingAlloc ws d m
      | Some node \<Rightarrow>
          (case ScheduleTask env (tID (wTask w)) (nID node) (nEpoch node) d of
             Inl e \<Rightarrow> (Inl e, m)
           | Inr d1 \<Rightarrow>
               (case metered_place_tasks rnd env now nodes
                       (pendingAlloc(nID node \<mapsto> add_alloc (alloc_at pendingAlloc (nID node)) w))
                       ws d1 (observe_placement (now (tID (wTask w))) w m) of
                  (Inl e, m') \<Rightarrow> (Inl e, m')
                | (Inr (placed, d2), m') \<Rightarrow> (Inr (Suc placed, d2), m'))))"

definition metered_engine_tick ::
  "rounding \<Rightarrow> LeaderGate option \<Rightarrow> dbenv \<Rightarrow> (string \<Rightarrow> time) \<Rightarrow> string set \<Rightarrow> db \<Rightarrow> Registry
   \<Rightarrow> ((store_error + nat) \<times> db) \<times> Registry" where
  "metered_engine_tick rnd leader env now locked d m =
     (if \<not> gate_open leader then ((Inr 0, d), m)
      else case ClaimPendingTasksForScheduling env locked defaultClaimLimit d of
        Inl e \<Rightarrow> ((Inl e, d), m)
      | Inr tasks \<Rightarrow>
          if tasks = [] then ((Inr 0, d), m)
          else case ListActiveNodes env d of
            Inl e \<Rightarrow> ((Inl e, d), m)
          | Inr nodes \<Rightarrow>
              (case GetNodeAllocations env d of
                 Inl e \<Rightarrow> ((Inl e, d), m)
               | Inr allocs \<Rightarrow>
                   (case metered_place_tasks rnd env now nodes allocs tasks d m of
                      (Inl e, m') \<Rightarrow> ((Inl e, d), m')
                    | (Inr (placed, d'), m') \<Rightarrow>
                        if db_fault env ''scheduler: commit'' then ((Inl (StoreError ''scheduler: commit''), d), m')
                        else ((Inr placed, d'), m'))))"

section \<open>Heartbeat misses\<close>

definition observe_miss :: "Registry \<Rightarrow> Registry" where
  "observe_miss m = m\<lparr>mHeartbeatMissesTotal := mHeartbeatMissesTotal m + 1\<rparr>"

definition metered_evaluate ::
  "'r redis \<Rightarrow> cacheenv \<Rightarrow> time \<Rightarrow> DetectorConfig \<Rightarrow> bool \<Rightarrow> dbenv \<Rightarrow> 'r \<Rightarrow> Node \<Rightarrow> db \<Rightarrow> Registry
   \<Rightarrow> (string list option \<times> db) \<times> Registry" where
  "metered_evaluate R cenv clk cfg docker env r n d m =
     (case GetLastSeen R cenv (nID n) r of
        Inl e \<Rightarrow> ((None, d), m)
      | Inr lastSeen \<Rightarrow>
          (let age = age_of clk lastSeen in
           if dcDeadAfter cfg \<le> age
           then (case MarkNodeDead env (nID n) d of
                   (Inl e, d') \<Rightarrow> ((None, d'), m)
                 | (Inr result, d') \<Rightarrow>
                     ((if docker \<and> mOrphanedTaskIDs result \<noteq> [] then Some (mOrphanedTaskIDs result)
                       else None, d'),
                      let m = observe_miss m
                      in if lastSeen \<noteq> None then m\<lparr>mFailoverSeconds := mFailoverSeconds m @ [age]\<rparr> else m))
           else if dcNotReadyAfter cfg \<le> age
           then (if nStatus n \<noteq> NodeStatusReady then ((None, d), m)
                 else (case UpdateNodeStatus env (nID n) NodeStatusNotReady EventTypeNodeNotReady
                              ''missed heartbeats; downgraded to not_ready'' d of
                         (Inl e, d') \<Rightarrow> ((None, d'), m)
                       | (Inr _, d') \<Rightarrow> ((None, d'), observe_miss m)))
           else ((None, d), m)))"

fun metered_evaluate_all ::
  "'r redis \<Rightarrow> cacheenv \<Rightarrow> time \<Rightarrow> DetectorConfig \<Rightarrow> bool \<Rightarrow> (string \<Rightarrow> dbenv) \<Rightarrow> 'r \<Rightarrow> Node list \<Rightarrow> db \<Rightarrow> Registry
   \<Rightarrow> (string list list \<times> db) \<times> Registry" where
  "metered_evaluate_all R cenv clk cfg docker env r [] d m = (([], d), m)"
| "metered_evaluate_all R cenv clk cfg docker env r (n # ns) d m =
     (let ((reap, d1), m1) = metered_evaluate R cenv clk cfg docker (env (nID n)) r n d m;
          ((reaps, d2), m2) = metered_evaluate_all R cenv clk cfg docker env r ns d1 m1
      in (((case reap of None \<Rightarrow> reaps | Some ids \<Rightarrow> ids # reaps), d2), m2))"

definition metered_detector_tick ::
  "'r redis \<Rightarrow> cacheenv \<Rightarrow> time \<Rightarrow> DetectorConfig \<Rightarrow> bool \<Rightarrow> LeaderGate option \<Rightarrow> (string \<Rightarrow> dbenv) \<Rightarrow> dbenv
   \<Rightarrow> 'r \<Rightarrow> db \<Rightarrow> Registry \<Rightarrow> (string list list \<times> db) \<times> Registry" where
  "metered_detector_tick R cenv clk cfg docker leader env env0 r d m =
     (if \<not> gate_open leader then (([], d), m)
      else case ListActiveNodes env0 d of
             Inl e \<Rightarrow> (([], d), m)
           | Inr nodes \<Rightarrow> metered_evaluate_all R cenv clk cfg docker env r nodes d m)"

section \<open>Reports\<close>

definition metered_applyTaskStatusUpdate ::
  "dbenv \<Rightarrow> TaskStatusUpdate \<Rightarrow> db \<Rightarrow> Registry \<Rightarrow> (Status option \<times> db) \<times> Registry" where
  "metered_applyTaskStatusUpdate env req d m =
     (case applyTaskStatusUpdate env req d of
        (Some st, d') \<Rightarrow> ((Some st, d'), m)
      | (None, d') \<Rightarrow> ((None, d'), ObserveTaskStatus (tsStatus req) m))"

section \<open>Scaling\<close>

definition metered_scaleUp ::
  "'k engine \<Rightarrow> dbenv \<Rightarrow> Runner \<Rightarrow> 'k \<Rightarrow> db \<Rightarrow> Registry \<Rightarrow> (scale_error option \<times> Runner \<times> 'k \<times> db) \<times> Registry" where
  "metered_scaleUp eng env r k d m =
     (case scaleUp eng env r k d of
        (Some e, rest) \<Rightarrow> ((Some e, rest), m)
      | (None, rest) \<Rightarrow> ((None, rest), m\<lparr>mScaleUpTotal := mScaleUpTotal m + 1\<rparr>))"

definition metered_scaleDown ::
  "'k engine \<Rightarrow> dbenv \<Rightarrow> Node \<Rightarrow> 'k \<Rightarrow> db \<Rightarrow> Registry \<Rightarrow> (scale_error option \<times> 'k \<times> db) \<times> Registry" where
  "metered_scaleDown eng env node k d m =
     (case scaleDown eng env node k d of
        (Some e, rest) \<Rightarrow> ((Some e, rest), m)
      | (None, rest) \<Rightarrow> ((None, rest), m\<lparr>mScaleDownTotal := mScaleDownTotal m + 1\<rparr>))"

fun metered_reclaim_loop ::
  "'k engine \<Rightarrow> dbenv \<Rightarrow> time \<Rightarrow> alloc_map \<Rightarrow> Node list \<Rightarrow> Runner \<Rightarrow> 'k \<Rightarrow> db \<Rightarrow> Registry
   \<Rightarrow> (scale_error option \<times> Runner \<times> 'k \<times> db) \<times> Registry" where
  "metered_reclaim_loop eng env now allocs [] r k d m = ((None, r, k, d), m)"
| "metered_reclaim_loop eng env now allocs (n # ns) r k d m =
     (if nStatus n \<noteq> NodeStatusReady \<and> nStatus n \<noteq> NodeStatusCordoned
      then metered_reclaim_loop eng env now allocs ns (r\<lparr>auIdleSince := (auIdleSince r)(nID n := None)\<rparr>) k d m
      else if \<not> (aCPUMillicores (alloc_at allocs (nID n)) = 0 \<and> aMemoryMB (alloc_at allocs (nID n)) = 0)
      then metered_reclaim_loop eng env now allocs ns (r\<lparr>auIdleSince := (auIdleSince r)(nID n := None)\<rparr>) k d m
      else
        (let since = (case auIdleSince r (nID n) of None \<Rightarrow> now | Some t \<Rightarrow> t);
             r = r\<lparr>auIdleSince := (auIdleSince r)(nID n \<mapsto> since)\<rparr>
         in if \<not> canScale now r then metered_reclaim_loop eng env now allocs ns r k d m
            else if acIdleWindow (auCfg r) \<le> Since now since
            then (case metered_scaleDown eng env n k d m of
                    ((Some e, k', d'), m') \<Rightarrow> ((Some e, r, k', d'), m')
                  | ((None, k', d'), m') \<Rightarrow>
                      ((None, r\<lparr>auIdleSince := (auIdleSince r)(nID n := None), auLastScaleAction := Some now\<rparr>,
                        k', d'), m'))
            else metered_reclaim_loop eng env now allocs ns r k d m))"

definition observe_workers :: "Node list \<Rightarrow> Registry \<Rightarrow> Registry" where
  "observe_workers autoscaledNodes m =
     m\<lparr>mAutoscaledWorkers := int (length (filter (\<lambda>n. nStatus n \<noteq> NodeStatusDead) autoscaledNodes))\<rparr>"

definition metered_autoscaler_tick ::
  "(string \<Rightarrow> string) \<Rightarrow> string option \<Rightarrow> 'k engine \<Rightarrow> dbenv \<Rightarrow> time \<Rightarrow> Runner \<Rightarrow> 'k \<Rightarrow> db \<Rightarrow> Registry
   \<Rightarrow> (scale_error option \<times> Runner \<times> 'k \<times> db) \<times> Registry" where
  "metered_autoscaler_tick getenv hostname eng env now r k d m =
     (case ensureNetwork getenv hostname eng r k of
        (Inl e, k) \<Rightarrow> ((Some (FromDocker e), r, k, d), m)
      | (Inr r, k) \<Rightarrow>
          (case CountTasksByStatus env d of
             Inl e \<Rightarrow> ((Some (FromStore e), r, k, d), m)
           | Inr counts \<Rightarrow>
               (case ListNodes env d of
                  Inl e \<Rightarrow> ((Some (FromStore e), r, k, d), m)
                | Inr nodes \<Rightarrow>
                    (case GetNodeAllocations env d of
                       Inl e \<Rightarrow> ((Some (FromStore e), r, k, d), m)
                     | Inr allocs \<Rightarrow>
                         (let m = observe_workers (filterAutoscaled nodes) m;
                              r = note_pending now
                                    (case counts TaskStatusPending of None \<Rightarrow> 0 | Some c \<Rightarrow> c) r in
                          if \<not> sustained now r
                          then metered_reclaim_loop eng env now allocs (filterAutoscaled nodes) r k d m
                          else
                            (case ListAutoscaledWorkers eng k of
                               (Inl e, k) \<Rightarrow> ((Some (FromDocker e), r, k, d), m)
                             | (Inr running, k) \<Rightarrow>
                                 if int (length running) < acMaxAutoscaledWorkers (auCfg r)
                                 then (case metered_scaleUp eng env r k d m of
                                         ((Some e, r, k, d), m) \<Rightarrow> ((Some e, r, k, d), m)
                                       | ((None, r, k, d), m) \<Rightarrow>
                                           ((None, r\<lparr>auLastScaleAction := Some now, auPendingSince := None\<rparr>, k, d), m))
                                 else metered_reclaim_loop eng env now allocs (filterAutoscaled nodes) r k d m))))))"

definition metered_autoscaler_turn ::
  "(string \<Rightarrow> string) \<Rightarrow> string option \<Rightarrow> 'k engine \<Rightarrow> dbenv \<Rightarrow> time \<Rightarrow> LeaderGate option \<Rightarrow> Runner \<times> 'k \<times> db \<Rightarrow> Registry
   \<Rightarrow> (Runner \<times> 'k \<times> db) \<times> Registry" where
  "metered_autoscaler_turn getenv hostname eng env now leader = (\<lambda>(r, k, d) m.
     if \<not> acEnabled (auCfg r) then ((r, k, d), m)
     else if \<not> gate_open leader then ((r\<lparr>auPendingSince := None, auIdleSince := Map.empty\<rparr>, k, d), m)
     else (case metered_autoscaler_tick getenv hostname eng env now r k d m of ((err, s), m') \<Rightarrow> (s, m')))"

section \<open>Metrics are only written\<close>

text \<open>An operation \<open>mop\<close> on a state and the registry does to the state what \<open>op\<close> does.\<close>

locale metered =
  fixes op :: "'e \<Rightarrow> 's \<Rightarrow> 's" and mop :: "'e \<Rightarrow> 's \<Rightarrow> Registry \<Rightarrow> 's \<times> Registry"
  assumes erases: "fst (mop e s m) = op e s"
begin

text \<open>Nor does any sequence of operations depend on the registry.\<close>

lemma run_erases: "fst (fold (\<lambda>e (s, m). mop e s m) es (s, m)) = fold op es s"
proof (induction es arbitrary: s m)
  case (Cons e es)
  obtain s1 m1 where s1: "mop e s m = (s1, m1)" by fastforce
  then have "s1 = op e s" using erases [of e s m] by simp
  with s1 Cons.IH show ?case by simp
qed simp

end

lemma elector_erased: "fst (metered_elector_tick env clk e d m) = elector_tick env clk e d"
  by (simp add: metered_elector_tick_def elector_tick_def split: prod.split sum.split)

lemma place_tasks_erased:
  "fst (metered_place_tasks rnd env now nodes allocs ws d m) = place_tasks rnd env nodes allocs ws d"
proof (induction ws arbitrary: allocs d m)
  case (Cons w ws)
  have IH: "\<exists>m'. metered_place_tasks rnd env now nodes allocs ws d m = (place_tasks rnd env nodes allocs ws d, m')"
    for allocs d m using Cons.IH [of allocs d m] by (metis prod.collapse)
  show ?case
  proof (cases "Place rnd nodes allocs w (Some DefaultFilters) (Some (ScorerForPolicy (wSchedulingPolicy w)))")
    case None
    with Cons.IH show ?thesis by simp
  next
    case (Some node)
    let ?allocs = "allocs(nID node \<mapsto> add_alloc (alloc_at allocs (nID node)) w)"
    have "fst (case metered_place_tasks rnd env now nodes ?allocs ws d1 (observe_placement (now (tID (wTask w))) w m) of
          (Inl e, m') \<Rightarrow> (Inl e, m') | (Inr (placed, d2), m') \<Rightarrow> (Inr (Suc placed, d2), m'))
        = (case place_tasks rnd env nodes ?allocs ws d1 of Inl e \<Rightarrow> Inl e | Inr (placed, d2) \<Rightarrow> Inr (Suc placed, d2))" for d1
      using IH [of ?allocs d1 "observe_placement (now (tID (wTask w))) w m"] by (auto split: sum.split prod.split)
    with Some show ?thesis by (simp split: sum.split)
  qed
qed simp

lemma engine_erased: "fst (metered_engine_tick rnd g env now locked d m) = engine_tick rnd g env locked d"
proof -
  have "fst (case metered_place_tasks rnd env now nodes allocs ws d m of
      (Inl e, m') \<Rightarrow> ((Inl e, d), m')
    | (Inr (placed, d'), m') \<Rightarrow>
        if db_fault env ''scheduler: commit'' then ((Inl (StoreError ''scheduler: commit''), d), m')
        else ((Inr placed, d'), m')) = place_batch rnd env nodes allocs ws d" for nodes allocs ws
    using place_tasks_erased [of rnd env now nodes allocs ws d m]
    by (auto simp: place_batch_def split: sum.split prod.split)
  then show ?thesis by (simp add: metered_engine_tick_def engine_tick_def split: sum.split)
qed

lemma evaluate_erased:
  "fst (metered_evaluate R cenv clk cfg docker env r n d m) = evaluate R cenv clk cfg docker env r n d"
  by (simp add: metered_evaluate_def evaluate_def Let_def split: sum.split prod.split)

lemma evaluate_all_erased:
  "fst (metered_evaluate_all R cenv clk cfg docker env r ns d m) = evaluate_all R cenv clk cfg docker env r ns d"
proof (induction ns arbitrary: d m)
  case (Cons n ns)
  obtain reap d1 m1 where e: "metered_evaluate R cenv clk cfg docker (env (nID n)) r n d m = ((reap, d1), m1)"
    by (metis surj_pair)
  then have "evaluate R cenv clk cfg docker (env (nID n)) r n d = (reap, d1)"
    using evaluate_erased [of R cenv clk cfg docker "env (nID n)" r n d m] by simp
  moreover obtain m2 where "metered_evaluate_all R cenv clk cfg docker env r ns d1 m1
      = (evaluate_all R cenv clk cfg docker env r ns d1, m2)" using Cons.IH [of d1 m1] by (metis prod.collapse)
  ultimately show ?case using e by (simp add: Let_def split: prod.split)
qed simp

lemma detector_erased:
  "fst (metered_detector_tick R cenv clk cfg docker g env env0 r d m) = detector_tick R cenv clk cfg docker g env env0 r d"
  by (simp add: metered_detector_tick_def detector_tick_def evaluate_all_erased split: sum.split)

lemma report_erased: "fst (metered_applyTaskStatusUpdate env req d m) = applyTaskStatusUpdate env req d"
  by (simp add: metered_applyTaskStatusUpdate_def split: prod.split option.split)

lemma metered_scaling:
  "metered_scaleUp eng env r k d m = (scaleUp eng env r k d,
     if fst (scaleUp eng env r k d) = None then m\<lparr>mScaleUpTotal := mScaleUpTotal m + 1\<rparr> else m)"
  "metered_scaleDown eng env n k d m = (scaleDown eng env n k d,
     if fst (scaleDown eng env n k d) = None then m\<lparr>mScaleDownTotal := mScaleDownTotal m + 1\<rparr> else m)"
  by (simp_all add: metered_scaleUp_def metered_scaleDown_def split: prod.split option.split)

lemma reclaim_erased:
  "fst (metered_reclaim_loop eng env now allocs ns r k d m) = reclaim_loop eng env now allocs ns r k d"
proof (induction ns arbitrary: r m)
  case (Cons n ns)
  then show ?case by (simp add: Let_def metered_scaling split: prod.split option.split)
qed simp

lemma autoscaler_tick_erased:
  "fst (metered_autoscaler_tick getenv hostname eng env now r k d m) = autoscaler_tick getenv hostname eng env now r k d"
  by (simp add: metered_autoscaler_tick_def autoscaler_tick_def reclaim_erased metered_scaling Let_def
      split: prod.split sum.split option.split)

lemma autoscaler_erased:
  "fst (metered_autoscaler_turn getenv hostname eng env now g s m) = autoscaler_turn getenv hostname eng env now g s"
  using autoscaler_tick_erased [of getenv hostname eng env now]
  by (cases s) (auto simp: metered_autoscaler_turn_def autoscaler_turn_def split: prod.split, metis fst_conv snd_conv)

text \<open>An elector at its replica meets whatever database the other replicas leave it.\<close>

definition elector_sees :: "dbenv \<times> time \<times> db \<Rightarrow> Elector \<Rightarrow> Elector" where
  "elector_sees = (\<lambda>(env, clk, d) e. fst (elector_tick env clk e d))"

definition metered_elector_sees :: "dbenv \<times> time \<times> db \<Rightarrow> Elector \<Rightarrow> Registry \<Rightarrow> Elector \<times> Registry" where
  "metered_elector_sees = (\<lambda>(env, clk, d) e m.
     case metered_elector_tick env clk e d m of ((e', d'), m') \<Rightarrow> (e', m'))"

interpretation electors: metered elector_sees metered_elector_sees
proof (unfold_locales, goal_cases)
  case (1 t e m)
  obtain env clk d where t: "t = (env, clk, d)" by (metis prod_cases3)
  show ?case
    by (simp add: t elector_sees_def metered_elector_sees_def elector_erased [of env clk e d m, symmetric] split: prod.split)
qed

interpretation ticks: metered "\<lambda>(rnd, g, env, now, locked) d. snd (engine_tick rnd g env locked d)"
  "\<lambda>(rnd, g, env, now, locked) d m. case metered_engine_tick rnd g env now locked d m of ((res, d'), m') \<Rightarrow> (d', m')"
proof (unfold_locales, goal_cases)
  case (1 t d m)
  obtain rnd g env now locked where t: "t = (rnd, g, env, now, locked)" by (metis prod_cases5)
  show ?case by (simp add: t engine_erased [of rnd g env now locked d m, symmetric] split: prod.split)
qed

interpretation sweeps: metered
  "\<lambda>(R, cenv, clk, cfg, docker, g, env, env0, r) d. snd (detector_tick R cenv clk cfg docker g env env0 r d)"
  "\<lambda>(R, cenv, clk, cfg, docker, g, env, env0, r) d m.
     case metered_detector_tick R cenv clk cfg docker g env env0 r d m of ((reaps, d'), m') \<Rightarrow> (d', m')"
proof (unfold_locales, goal_cases)
  case (1 t d m)
  obtain R cenv clk cfg docker g env env0 r where t: "t = (R, cenv, clk, cfg, docker, g, env, env0, r)"
    by (metis surj_pair)
  show ?case by (simp add: t detector_erased [of R cenv clk cfg docker g env env0 r d m, symmetric] split: prod.split)
qed

interpretation scalings: metered
  "\<lambda>(getenv, hostname, eng, env, now, g) s. autoscaler_turn getenv hostname eng env now g s"
  "\<lambda>(getenv, hostname, eng, env, now, g) s m. metered_autoscaler_turn getenv hostname eng env now g s m"
  by unfold_locales (auto simp: autoscaler_erased)

text \<open>
  Metrics do not interfere. The elector, the engine, the failure detector, the autoscaler and the handling of a
  task report do exactly what they do without metrics, whatever the registry holds.
\<close>

theorem metrics_do_not_interfere:
  "fst (metered_elector_tick env clk e d m) = elector_tick env clk e d
   \<and> fst (metered_engine_tick rnd g env now locked d m) = engine_tick rnd g env locked d
   \<and> fst (metered_detector_tick R cenv clk cfg docker g envs env r d m) = detector_tick R cenv clk cfg docker g envs env r d
   \<and> fst (metered_autoscaler_turn getenv hostname eng env clk g (au, k, d) m)
       = autoscaler_turn getenv hostname eng env clk g (au, k, d)
   \<and> fst (metered_applyTaskStatusUpdate env req d m) = applyTaskStatusUpdate env req d"
  by (intro conjI elector_erased engine_erased detector_erased autoscaler_erased report_erased)

section \<open>Leadership\<close>

lemma elector_sees_metrics:
  assumes "mIsLeader m = of_bool (elIsLeader e)" and "metered_elector_sees t e m = (e', m')"
  shows "mIsLeader m' = of_bool (elIsLeader e')"
    and "mLeaderElectionsTotal m' = mLeaderElectionsTotal m + of_bool (\<not> elIsLeader e \<and> elIsLeader e')"
  using assms
  by (auto simp: metered_elector_sees_def metered_elector_tick_def elector_switch_def split: prod.splits sum.splits if_splits)

text \<open>
  C29: The leadership metrics are exact. After any number of ticks of an elector, whatever databases it meets, the gauge tells whether it
  believes it leads, and the counter is the number of ticks at which it became the leader.
\<close>

theorem leadership_metrics_exact:
  "let lead = (\<lambda>i. elIsLeader (fold elector_sees (take i ts) (New_Elector cfg)));
       m = snd (fold (\<lambda>t (e, m). metered_elector_sees t e m) ts (New_Elector cfg, metrics_New))
   in mIsLeader m = (if lead (length ts) then 1 else 0)
      \<and> mLeaderElectionsTotal m = int (card {i. i < length ts \<and> \<not> lead i \<and> lead (Suc i)})"
proof -
  define lead where "lead ts i = elIsLeader (fold elector_sees (take i ts) (New_Elector cfg))" for ts i
  define run where "run ts = fold (\<lambda>t (e, m). metered_elector_sees t e m) ts (New_Elector cfg, metrics_New)" for ts
  have e: "fst (run ts) = fold elector_sees ts (New_Elector cfg)" for ts
    unfolding run_def by (rule electors.run_erases)
  have "mIsLeader (snd (run ts)) = of_bool (elIsLeader (fst (run ts)))
      \<and> mLeaderElectionsTotal (snd (run ts)) = int (card {i. i < length ts \<and> \<not> lead ts i \<and> lead ts (Suc i)})"
  proof (induction ts rule: rev_induct)
    case Nil
    then show ?case by (simp add: run_def metrics_New_def New_Elector_def Let_def)
  next
    case (snoc t ts)
    obtain e1 m1 where r1: "run ts = (e1, m1)" by fastforce
    obtain e2 m2 where r2: "run (ts @ [t]) = (e2, m2)" by fastforce
    then have "metered_elector_sees t e1 m1 = (e2, m2)" using r1 by (simp add: run_def)
    note step = elector_sees_metrics [OF _ this]
    have old: "lead (ts @ [t]) i = lead ts i" if "i \<le> length ts" for i using that by (simp add: lead_def)
    have ends: "lead ts (length ts) = elIsLeader e1" "lead (ts @ [t]) (Suc (length ts)) = elIsLeader e2"
      using e [of ts] e [of "ts @ [t]"] r1 r2 by (simp_all add: lead_def)
    have "{i. i < length (ts @ [t]) \<and> \<not> lead (ts @ [t]) i \<and> lead (ts @ [t]) (Suc i)}
        = {i. i < length ts \<and> \<not> lead ts i \<and> lead ts (Suc i)}
          \<union> (if \<not> elIsLeader e1 \<and> elIsLeader e2 then {length ts} else {})"
      using old ends by (auto simp: less_Suc_eq Suc_le_eq)
    then have "card {i. i < length (ts @ [t]) \<and> \<not> lead (ts @ [t]) i \<and> lead (ts @ [t]) (Suc i)}
        = card {i. i < length ts \<and> \<not> lead ts i \<and> lead ts (Suc i)} + of_bool (\<not> elIsLeader e1 \<and> elIsLeader e2)"
      by simp
    with snoc.IH step r1 r2 show ?case by simp
  qed
  then show ?thesis using e [of ts] by (simp add: run_def lead_def Let_def)
qed

section \<open>Counters and the audit trail\<close>

definition event_count :: "EventType \<Rightarrow> db \<Rightarrow> int" where
  "event_count evt d = int (length (filter (\<lambda>e. eEventType e = evt) (db_events d)))"

lemma insertEvent_count:
  "insertEvent env w ety eid evt msg d = Inr d' \<Longrightarrow> event_count x d' = event_count x d + of_bool (x = evt)"
  by (auto simp: insertEvent_Inr event_count_def)

lemma UpdateNodeStatus_count:
  assumes "UpdateNodeStatus env nid st evt msg d = (Inr n, d')"
  shows "event_count x d' = event_count x d + of_bool (x = evt)"
proof -
  from assms obtain w ety eid where "insertEvent env w ety eid evt msg
      (d\<lparr>db_nodes := update_where (\<lambda>n. nID n = nid) (\<lambda>n. n\<lparr>nStatus := st\<rparr>) (db_nodes d)\<rparr>) = Inr d'"
    unfolding UpdateNodeStatus_def by (auto simp: in_tx_Inr Let_def split: sum.splits option.splits if_splits)
  from insertEvent_count [OF this, of x] show ?thesis by (simp add: event_count_def)
qed

lemma requeue_loop_count:
  "requeue_loop env nid ids d = Inr d' \<Longrightarrow> x \<notin> {EventTypeTaskOrphaned, EventTypeTaskRequeued} \<Longrightarrow>
     event_count x d' = event_count x d"
proof (induction ids arbitrary: d)
  case (Cons i ids)
  from Cons.prems(1) obtain d1 d3 where
    a: "insertEvent env ''task orphaned event'' EntityTypeTask i EventTypeTaskOrphaned
          (''orphaned: assigned node '' @ nid @ '' marked dead'') d = Inr d1"
    and b: "insertEvent env ''task requeued event'' EntityTypeTask i EventTypeTaskRequeued
          ''requeued as pending for reassignment''
          (d1\<lparr>db_tasks := update_where (\<lambda>t. tID t = i) requeue_orphan (db_tasks d1)\<rparr>) = Inr d3"
    and c: "requeue_loop env nid ids d3 = Inr d'"
    by (auto simp: Let_def split: sum.splits if_splits)
  from Cons.IH [OF c] Cons.prems(2) insertEvent_count [OF a, of x] insertEvent_count [OF b, of x]
  show ?case by (simp add: event_count_def)
qed simp

lemma MarkNodeDead_count:
  assumes "MarkNodeDead env nid d = (Inr r, d')" and "x \<notin> {EventTypeTaskOrphaned, EventTypeTaskRequeued}"
  shows "event_count x d' = event_count x d + of_bool (x = EventTypeNodeDead)"
proof -
  from assms(1) obtain w ety eid msg d2 ids where
    a: "insertEvent env w ety eid EventTypeNodeDead msg
          (d\<lparr>db_nodes := update_where (\<lambda>n. nID n = nid) bump_dead (db_nodes d)\<rparr>) = Inr d2"
    and b: "orphanAndRequeueTasksTx env nid d2 = Inr (ids, d')"
    unfolding MarkNodeDead_def by (auto simp: in_tx_Inr Let_def split: sum.splits option.splits if_splits)
  from b assms(2) have "event_count x d' = event_count x d2"
    by (auto simp: orphanAndRequeueTasksTx_def Let_def requeue_loop_count split: if_splits sum.splits)
  with insertEvent_count [OF a, of x] show ?thesis by (simp add: event_count_def)
qed

lemma ScheduleTask_count:
  "ScheduleTask env i nid ep d = Inr d' \<Longrightarrow> event_count x d' = event_count x d + of_bool (x = EventTypeTaskScheduled)"
  by (auto simp: ScheduleTask_def Let_def event_count_def dest!: insertEvent_count [where x = x] split: if_splits)

text \<open>Downgrades of a node in the trail.\<close>

definition downgrades :: "db \<Rightarrow> int" where
  "downgrades d = event_count EventTypeNodeDead d + event_count EventTypeNodeNotReady d"

lemma evaluate_counted:
  "metered_evaluate R cenv clk cfg docker env r n d m = ((reap, d'), m') \<Longrightarrow>
     mHeartbeatMissesTotal m' - mHeartbeatMissesTotal m = downgrades d' - downgrades d"
  by (auto simp: metered_evaluate_def observe_miss_def downgrades_def Let_def MarkNodeDead_count UpdateNodeStatus_count
      split: sum.splits if_splits prod.splits dest: MarkNodeDead_error UpdateNodeStatus_error)

lemma evaluate_all_counted:
  "metered_evaluate_all R cenv clk cfg docker env r ns d m = ((reaps, d'), m') \<Longrightarrow>
     mHeartbeatMissesTotal m' - mHeartbeatMissesTotal m = downgrades d' - downgrades d"
proof (induction ns arbitrary: d m reaps)
  case (Cons n ns)
  obtain reap d1 m1 where e: "metered_evaluate R cenv clk cfg docker (env (nID n)) r n d m = ((reap, d1), m1)"
    by (metis surj_pair)
  with Cons.prems obtain reaps' where "metered_evaluate_all R cenv clk cfg docker env r ns d1 m1 = ((reaps', d'), m')"
    by (auto simp: Let_def split: prod.splits)
  from Cons.IH [OF this] evaluate_counted [OF e] show ?case by simp
qed simp

lemma observed_scheduled:
  "count_at (mTasksTotal (observe_placement now w m)) ''scheduled'' = count_at (mTasksTotal m) ''scheduled'' + 1"
  "length (mSchedulingLatency (observe_placement now w m)) = length (mSchedulingLatency m) + 1"
  by (simp_all add: observe_placement_def ObserveTaskStatus_def count_at_def Let_def)

lemma place_tasks_counted:
  "metered_place_tasks rnd env now nodes allocs ws d m = (Inr (k, d'), m') \<Longrightarrow>
     count_at (mTasksTotal m') ''scheduled'' = count_at (mTasksTotal m) ''scheduled'' + int k
     \<and> event_count EventTypeTaskScheduled d' = event_count EventTypeTaskScheduled d + int k
     \<and> length (mSchedulingLatency m') = length (mSchedulingLatency m) + k"
proof (induction ws arbitrary: allocs d m k)
  case (Cons w ws)
  show ?case
  proof (cases "Place rnd nodes allocs w (Some DefaultFilters) (Some (ScorerForPolicy (wSchedulingPolicy w)))")
    case None
    with Cons.prems have "metered_place_tasks rnd env now nodes allocs ws d m = (Inr (k, d'), m')" by simp
    then show ?thesis by (rule Cons.IH)
  next
    case (Some node)
    let ?allocs = "allocs(nID node \<mapsto> add_alloc (alloc_at allocs (nID node)) w)"
    from Some Cons.prems obtain d1 j where d1: "ScheduleTask env (tID (wTask w)) (nID node) (nEpoch node) d = Inr d1"
      and j: "metered_place_tasks rnd env now nodes ?allocs ws d1 (observe_placement (now (tID (wTask w))) w m)
          = (Inr (j, d'), m')" "k = Suc j"
      by (auto split: sum.splits prod.splits)
    from Cons.IH [OF j(1)] ScheduleTask_count [OF d1, of EventTypeTaskScheduled] observed_scheduled j(2)
    show ?thesis by simp
  qed
qed simp

text \<open>
  C28: The counters agree with the audit trail. A sweep of the failure detector, whatever fails in it, raises the counter of
  missed heartbeats by exactly the number of nodes it records as dead or not ready in the trail. A tick of
  the engine that succeeds with \<open>k\<close> placements raises the counter of scheduled tasks by \<open>k\<close>, adds \<open>k\<close>
  latencies and records \<open>k\<close> placements in the trail.
\<close>

theorem counters_match_trail:
  "(\<forall>reaps d' m'. metered_detector_tick R cenv clk cfg docker g envs env r d m = ((reaps, d'), m') \<longrightarrow>
      mHeartbeatMissesTotal m' - mHeartbeatMissesTotal m = downgrades d' - downgrades d)
   \<and> (\<forall>k d' m'. metered_engine_tick rnd g env now locked d m = ((Inr k, d'), m') \<longrightarrow>
      count_at (mTasksTotal m') ''scheduled'' = count_at (mTasksTotal m) ''scheduled'' + int k
      \<and> event_count EventTypeTaskScheduled d' = event_count EventTypeTaskScheduled d + int k
      \<and> length (mSchedulingLatency m') = length (mSchedulingLatency m) + k)"
proof (intro conjI allI impI, goal_cases)
  case (1 reaps d' m')
  then show ?case by (auto simp: metered_detector_tick_def evaluate_all_counted split: if_splits sum.splits)
qed (auto simp: metered_engine_tick_def place_tasks_counted split: if_splits sum.splits prod.splits)

theorem counters_match_trail_witness:
  "\<exists>d' m'. metered_engine_tick (\<lambda>x. x) None sample_env (\<lambda>_. 10 * Second) {} sample_db metrics_New = ((Inr 1, d'), m')
    \<and> count_at (mTasksTotal m') ''scheduled'' = 1 \<and> event_count EventTypeTaskScheduled d' = 1
    \<and> length (mSchedulingLatency m') = 1"
proof -
  let ?r = "metered_engine_tick (\<lambda>x. x) None sample_env (\<lambda>_. 10 * Second) {} sample_db metrics_New"
  have "fst (fst ?r) = Inr 1" by code_simp
  then obtain d' m' where r: "?r = ((Inr 1, d'), m')" by (metis prod.collapse)
  from counters_match_trail [THEN conjunct2, rule_format, OF r] have "count_at (mTasksTotal m') ''scheduled'' = count_at (mTasksTotal metrics_New) ''scheduled'' + int 1
      \<and> event_count EventTypeTaskScheduled d' = event_count EventTypeTaskScheduled sample_db + int 1
      \<and> length (mSchedulingLatency m') = length (mSchedulingLatency metrics_New) + 1" .
  with r show ?thesis by (simp add: metrics_New_def count_at_def event_count_def)
qed

text \<open>
  A tick that fails is rolled back, but what it has counted stays: with a commit that fails, a task that is still
  pending has been counted as scheduled, and will be again.
\<close>

lemma rolled_back_placements_counted:
  "case metered_engine_tick (\<lambda>x. x) None (sample_env\<lparr>db_fault := (\<lambda>s. s = ''scheduler: commit'')\<rparr>) (\<lambda>_. 10 * Second) {}
      sample_db metrics_New of (res, m') \<Rightarrow>
      res = (Inl (StoreError ''scheduler: commit''), sample_db) \<and> count_at (mTasksTotal m') ''scheduled'' = 1"
  by code_simp

text \<open>
  The counter of tasks by status counts accepted reports rather than tasks entering the status: a repeated report
  of a finished task changes nothing and is counted, and a failure that requeues the task is counted as failed
  although the row goes back to pending.
\<close>

definition t1_done :: TaskStatusUpdate where
  "t1_done = \<lparr>tsTaskId = ''t1'', tsStatus = ''succeeded'', tsExitCode = 0, tsError = [], tsNodeId = ''n1'', tsEpoch = 3\<rparr>"

lemma reports_counted_not_tasks:
  "(case metered_applyTaskStatusUpdate sample_env t1_done (snd (applyTaskStatusUpdate sample_env t1_done sample_db)) metrics_New of
      (res, m) \<Rightarrow> res = (None, snd (applyTaskStatusUpdate sample_env t1_done sample_db))
        \<and> count_at (mTasksTotal m) ''succeeded'' = 1)
   \<and> (case metered_applyTaskStatusUpdate sample_env (t1_done\<lparr>tsStatus := ''failed''\<rparr>) sample_db metrics_New of
      ((st, d), m) \<Rightarrow> map tStatus (db_tasks d) = [TaskStatusPending, TaskStatusScheduled, TaskStatusPending]
        \<and> count_at (mTasksTotal m) ''failed'' = 1)"
  by (rule conjI) code_simp+

end
