(* ===== verification/Json_Map.thy ===== *)
theory Json_Map
  imports Arbiter_Prelude "HOL-Library.Monad_Syntax"
begin

text \<open>
  What \<^verbatim>\<open>src/internal/store\<close> uses of \<^verbatim>\<open>encoding/json\<close>: labels and constraints, Go values of type
  \<^verbatim>\<open>map[string]string\<close>, go to \<^verbatim>\<open>JSONB\<close> columns through \<^verbatim>\<open>json.Marshal\<close> and come back through
  \<^verbatim>\<open>json.Unmarshal\<close>. A string is its bytes; bytes above 127 are passed through, as for valid UTF-8. The main
  lemma: what is marshalled is read back as the same map, also when a printer puts spaces after the colons and
  commas, as PostgreSQL does.
\<close>

section \<open>Marshal\<close>

definition hexdigit :: "nat \<Rightarrow> char" where
  "hexdigit n = ''0123456789abcdef'' ! n"

definition u_escaped :: "char \<Rightarrow> bool" where
  "u_escaped c \<longleftrightarrow> of_char c < (32 :: nat) \<or> c \<in> {CHR ''<'', CHR ''>'', CHR ''&''}"

definition escape_char :: "char \<Rightarrow> string" where
  "escape_char c =
     (if c = CHR 0x22 then [CHR 0x5C, CHR 0x22]
      else if c = CHR 0x5C then [CHR 0x5C, CHR 0x5C]
      else if c = CHR 0x08 then [CHR 0x5C, CHR ''b'']
      else if c = CHR 0x0C then [CHR 0x5C, CHR ''f'']
      else if c = CHR 0x0A then [CHR 0x5C, CHR ''n'']
      else if c = CHR 0x0D then [CHR 0x5C, CHR ''r'']
      else if c = CHR 0x09 then [CHR 0x5C, CHR ''t'']
      else if u_escaped c
      then [CHR 0x5C, CHR ''u'', CHR ''0'', CHR ''0'', hexdigit (of_char c div 16), hexdigit (of_char c mod 16)]
      else [c])"

definition string_lit :: "string \<Rightarrow> string" where
  "string_lit s = CHR 0x22 # concat (map escape_char s) @ [CHR 0x22]"

text \<open>\<open>sp\<close> is the space a printer puts after a colon or a comma; \<^verbatim>\<open>json.Marshal\<close> puts none.\<close>

definition member_text :: "string \<Rightarrow> string \<times> string \<Rightarrow> string" where
  "member_text sp m = string_lit (fst m) @ CHR '':'' # sp @ string_lit (snd m)"

fun members_text :: "string \<Rightarrow> (string \<times> string) list \<Rightarrow> string" where
  "members_text sp [] = []"
| "members_text sp [m] = member_text sp m"
| "members_text sp (m # n # ms) = member_text sp m @ CHR '','' # sp @ members_text sp (n # ms)"

definition object_text :: "string \<Rightarrow> (string \<times> string) list \<Rightarrow> string" where
  "object_text sp ms = CHR 0x7B # members_text sp ms @ [CHR 0x7D]"

text \<open>A nil map is \<^verbatim>\<open>null\<close>; the keys of any other are sorted.\<close>

fun MarshalMap :: "strmap option \<Rightarrow> string" where
  "MarshalMap None = ''null''"
| "MarshalMap (Some m) = object_text [] (sort_key fst m)"

section \<open>Unmarshal\<close>

definition json_space :: "char \<Rightarrow> bool" where
  "json_space c \<longleftrightarrow> c \<in> {CHR 0x20, CHR 0x09, CHR 0x0A, CHR 0x0D}"

definition skip_ws :: "string \<Rightarrow> string" where
  "skip_ws s = dropWhile json_space s"

fun expect :: "char \<Rightarrow> string \<Rightarrow> string option" where
  "expect c [] = None"
| "expect c (x # s) = (if x = c then Some s else None)"

definition hexval :: "char \<Rightarrow> nat option" where
  "hexval c =
     (let n = of_char c :: nat in
      if 48 \<le> n \<and> n \<le> 57 then Some (n - 48)
      else if 97 \<le> n \<and> n \<le> 102 then Some (n - 87)
      else if 65 \<le> n \<and> n \<le> 70 then Some (n - 55)
      else None)"

fun hex4 :: "string \<Rightarrow> (nat \<times> string) option" where
  "hex4 (a # b # c # d # s) =
     do { w \<leftarrow> hexval a; x \<leftarrow> hexval b; y \<leftarrow> hexval c; z \<leftarrow> hexval d;
          Some (w * 4096 + x * 256 + y * 16 + z, s) }"
| "hex4 _ = None"

text \<open>The UTF-8 encoding of a code point.\<close>

definition utf8 :: "nat \<Rightarrow> string" where
  "utf8 r =
     (if r < 128 then [char_of r]
      else if r < 2048 then [char_of (192 + r div 64), char_of (128 + r mod 64)]
      else if r < 65536 then [char_of (224 + r div 4096), char_of (128 + r div 64 mod 64), char_of (128 + r mod 64)]
      else [char_of (240 + r div 262144), char_of (128 + r div 4096 mod 64), char_of (128 + r div 64 mod 64),
            char_of (128 + r mod 64)])"

text \<open>
  The rune of a \<^verbatim>\<open>\u\<close> escape, with what follows it: a pair of surrogates is one rune, a lone one becomes the
  replacement character.
\<close>

definition escaped_rune :: "string \<Rightarrow> (nat \<times> string) option" where
  "escaped_rune s =
     (case hex4 s of
        None \<Rightarrow> None
      | Some (r, s1) \<Rightarrow>
          if 0xD800 \<le> r \<and> r < 0xE000
          then (case do { s2 \<leftarrow> expect (CHR 0x5C) s1; s3 \<leftarrow> expect (CHR ''u'') s2; hex4 s3 } of
                  Some (r2, s4) \<Rightarrow>
                    if r < 0xDC00 \<and> 0xDC00 \<le> r2 \<and> r2 < 0xE000
                    then Some ((r - 0xD800) * 1024 + (r2 - 0xDC00) + 0x10000, s4)
                    else Some (0xFFFD, s1)
                | None \<Rightarrow> Some (0xFFFD, s1))
          else Some (r, s1))"

fun simple_escape :: "char \<Rightarrow> char option" where
  "simple_escape e =
     map_of [(CHR 0x22, CHR 0x22), (CHR 0x5C, CHR 0x5C), (CHR ''/'', CHR ''/''), (CHR ''b'', CHR 0x08),
             (CHR ''f'', CHR 0x0C), (CHR ''n'', CHR 0x0A), (CHR ''r'', CHR 0x0D), (CHR ''t'', CHR 0x09)] e"

lemma hex4_length: "hex4 s = Some (r, s') \<Longrightarrow> length s' < length s"
  by (cases s rule: hex4.cases) (auto split: bind_splits)

lemma expect_Some: "expect c s = Some s' \<longleftrightarrow> s = c # s'"
  by (cases s) auto

lemma escaped_rune_length: "escaped_rune s = Some (r, s') \<Longrightarrow> length s' < length s"
  by (auto simp: escaped_rune_def expect_Some split: option.splits if_splits bind_splits dest!: hex4_length)

text \<open>The rest of a string literal after its opening quote: its content and what follows the closing quote.\<close>

function parse_chars :: "string \<Rightarrow> (string \<times> string) option" where
  "parse_chars [] = None"
| "parse_chars (c # s) =
     (if c = CHR 0x22 then Some ([], s)
      else if c = CHR 0x5C then
        (case s of
           [] \<Rightarrow> None
         | e # s1 \<Rightarrow>
             if e = CHR ''u''
             then (case escaped_rune s1 of
                     None \<Rightarrow> None
                   | Some (r, s2) \<Rightarrow> map_option (\<lambda>(x, rest). (utf8 r @ x, rest)) (parse_chars s2))
             else (case simple_escape e of
                     None \<Rightarrow> None
                   | Some d \<Rightarrow> map_option (\<lambda>(x, rest). (d # x, rest)) (parse_chars s1)))
      else if of_char c < (32 :: nat) then None
      else map_option (\<lambda>(x, rest). (c # x, rest)) (parse_chars s))"
  by pat_completeness auto
termination by (relation "measure length") (auto dest: escaped_rune_length)

definition parse_lit :: "string \<Rightarrow> (string \<times> string) option" where
  "parse_lit s = expect (CHR 0x22) s \<bind> parse_chars"

text \<open>A member's value: a string, or \<^verbatim>\<open>null\<close>, which leaves the zero value. Any other JSON value is a type error.\<close>

definition parse_value :: "string \<Rightarrow> (string \<times> string) option" where
  "parse_value s = (if HasPrefix s ''null'' then Some ([], drop 4 s) else parse_lit s)"

definition parse_member :: "string \<Rightarrow> ((string \<times> string) \<times> string) option" where
  "parse_member s =
     do { (k, s1) \<leftarrow> parse_lit (skip_ws s); s2 \<leftarrow> expect (CHR '':'') (skip_ws s1);
          (v, s3) \<leftarrow> parse_value (skip_ws s2); Some ((k, v), skip_ws s3) }"

lemma parse_chars_length: "parse_chars s = Some (x, rest) \<Longrightarrow> length rest < length s"
proof (induction s arbitrary: x rest rule: parse_chars.induct)
  case (2 c s)
  then show ?case
    by (fastforce split: if_splits list.splits option.splits dest: escaped_rune_length)
qed simp

lemma skip_ws_length: "length (skip_ws s) \<le> length s"
  by (simp add: skip_ws_def length_dropWhile_le)

lemma parse_member_length: "parse_member s = Some (m, rest) \<Longrightarrow> length rest < length s"
proof -
  assume "parse_member s = Some (m, rest)"
  then obtain k s1 s2 v s3 where a: "parse_lit (skip_ws s) = Some (k, s1)" "expect (CHR '':'') (skip_ws s1) = Some s2"
    "parse_value (skip_ws s2) = Some (v, s3)" "rest = skip_ws s3"
    by (auto simp: parse_member_def split: bind_splits prod.splits)
  from a(1) have "length s1 < length s"
    using skip_ws_length [of s] by (auto simp: parse_lit_def expect_Some split: bind_splits dest!: parse_chars_length)
  moreover from a(2) have "length s2 < length s1"
    using skip_ws_length [of s1] by (auto simp: expect_Some)
  moreover from a(3) have "length s3 \<le> length s2"
    using skip_ws_length [of s2]
    by (auto simp: parse_value_def parse_lit_def expect_Some split: bind_splits if_splits dest!: parse_chars_length)
  ultimately show ?thesis using a(4) skip_ws_length [of s3] by simp
qed

text \<open>The members up to the closing brace; a later member with the same key replaces an earlier one.\<close>

function parse_members :: "string \<Rightarrow> strmap \<Rightarrow> (strmap \<times> string) option" where
  "parse_members s acc =
     (case parse_member s of
        None \<Rightarrow> None
      | Some ((k, v), s1) \<Rightarrow>
          (case s1 of
             [] \<Rightarrow> None
           | c # s2 \<Rightarrow>
               if c = CHR 0x7D then Some (mput k v acc, s2)
               else if c = CHR '','' then parse_members s2 (mput k v acc)
               else None))"
  by pat_completeness auto
termination by (relation "measure (\<lambda>(s, acc). length s)") (auto dest!: parse_member_length)

declare parse_members.simps [simp del]

definition parse_object :: "string \<Rightarrow> (strmap \<times> string) option" where
  "parse_object s =
     (case expect (CHR 0x7D) (skip_ws s) of
        Some rest \<Rightarrow> Some ([], rest)
      | None \<Rightarrow> parse_members s [])"

text \<open>\<open>None\<close> is an error; \<open>Some None\<close> leaves the map nil.\<close>

definition UnmarshalMap :: "string \<Rightarrow> strmap option option" where
  "UnmarshalMap raw =
     (let s = skip_ws raw in
      if HasPrefix s ''null'' then (if skip_ws (drop 4 s) = [] then Some None else None)
      else case expect (CHR 0x7B) s \<bind> parse_object of
             None \<Rightarrow> None
           | Some (m, rest) \<Rightarrow> if skip_ws rest = [] then Some (Some m) else None)"

section \<open>What is marshalled is read back\<close>

lemma hexval_hexdigit: "n < 16 \<Longrightarrow> hexval (hexdigit n) = Some n"
proof -
  have "list_all (\<lambda>n. hexval (hexdigit n) = Some n) [0..<16]" by code_simp
  then show "n < 16 \<Longrightarrow> hexval (hexdigit n) = Some n" by (simp add: list_all_iff)
qed

lemma escaped_rune_ascii:
  assumes "of_char c < (128 :: nat)"
  shows "escaped_rune (CHR ''0'' # CHR ''0'' # hexdigit (of_char c div 16) # hexdigit (of_char c mod 16) # r)
    = Some (of_char c, r)"
proof -
  have "hexval (CHR ''0'') = Some 0" by code_simp
  moreover have "of_char c div 16 * 16 + of_char c mod 16 = (of_char c :: nat)" by simp
  ultimately show ?thesis
    using assms by (simp add: escaped_rune_def hexval_hexdigit)
qed

lemma u_escaped_ascii: "u_escaped c \<Longrightarrow> of_char c < (128 :: nat)"
  by (auto simp: u_escaped_def)

lemma parse_escaped:
  "parse_chars (escape_char c @ r) = map_option (\<lambda>(x, rest). (c # x, rest)) (parse_chars r)"
proof -
  consider (simple) "c \<in> {CHR 0x22, CHR 0x5C, CHR 0x08, CHR 0x0C, CHR 0x0A, CHR 0x0D, CHR 0x09}"
    | (u) "c \<notin> {CHR 0x22, CHR 0x5C, CHR 0x08, CHR 0x0C, CHR 0x0A, CHR 0x0D, CHR 0x09}" "u_escaped c"
    | (plain) "c \<notin> {CHR 0x22, CHR 0x5C, CHR 0x08, CHR 0x0C, CHR 0x0A, CHR 0x0D, CHR 0x09}" "\<not> u_escaped c"
    by blast
  then show ?thesis
  proof cases
    case simple
    then show ?thesis by (auto simp: escape_char_def)
  next
    case u
    note small = u_escaped_ascii [OF u(2)]
    from u have "escape_char c = [CHR 0x5C, CHR ''u'', CHR ''0'', CHR ''0'', hexdigit (of_char c div 16),
        hexdigit (of_char c mod 16)]" by (simp add: escape_char_def)
    moreover have "utf8 (of_char c) = [c]" using small by (simp add: utf8_def)
    ultimately show ?thesis using escaped_rune_ascii [OF small, of r] by simp
  next
    case plain
    then have "escape_char c = [c]" "\<not> of_char c < (32 :: nat)"
      by (simp_all add: escape_char_def u_escaped_def)
    with plain show ?thesis by simp
  qed
qed

lemma parse_lit_string: "parse_lit (string_lit s @ r) = Some (s, r)"
proof -
  have "parse_chars (concat (map escape_char s) @ CHR 0x22 # r) = Some (s, r)"
    by (induction s) (simp_all add: parse_escaped)
  then show ?thesis by (simp add: parse_lit_def string_lit_def)
qed

definition blank :: "string \<Rightarrow> bool" where
  "blank sp \<longleftrightarrow> list_all json_space sp"

lemma skip_blank: "blank sp \<Longrightarrow> skip_ws (sp @ r) = skip_ws r"
  by (induction sp) (simp_all add: blank_def skip_ws_def)

lemma skip_ws_lit [simp]: "skip_ws (string_lit s @ r) = string_lit s @ r"
  by (simp add: skip_ws_def string_lit_def json_space_def)

lemma skip_ws_punct [simp]:
  "skip_ws (CHR '':'' # r) = CHR '':'' # r" "skip_ws (CHR '','' # r) = CHR '','' # r"
  "skip_ws (CHR 0x7D # r) = CHR 0x7D # r" "skip_ws (CHR 0x7B # r) = CHR 0x7B # r" "skip_ws [] = []"
  by (simp_all add: skip_ws_def json_space_def)

lemma parse_member_text:
  assumes "blank sp" and "blank sp'" and "skip_ws r = r"
  shows "parse_member (sp' @ member_text sp (k, v) @ r) = Some ((k, v), r)"
proof -
  have "\<not> HasPrefix (string_lit v @ r) ''null''" by (simp add: HasPrefix_def string_lit_def)
  then have "parse_value (string_lit v @ r) = Some (v, r)"
    by (simp add: parse_value_def parse_lit_string)
  with assms show ?thesis
    by (simp add: parse_member_def member_text_def skip_blank parse_lit_string)
qed

lemma parse_members_text:
  assumes "blank sp"
  shows "blank sp' \<Longrightarrow> ms \<noteq> [] \<Longrightarrow> parse_members (sp' @ members_text sp ms @ CHR 0x7D # r) acc
     = Some (fold (\<lambda>(k, v). mput k v) ms acc, r)"
proof (induction ms arbitrary: acc sp')
  case (Cons m ms)
  obtain k v where m: "m = (k, v)" by (cases m)
  show ?case
  proof (cases ms)
    case Nil
    then show ?thesis
      using parse_member_text [OF assms Cons.prems(1), of "CHR 0x7D # r"]
      by (simp add: m parse_members.simps)
  next
    case ms: (Cons m' ms')
    let ?rest = "sp @ members_text sp ms @ CHR 0x7D # r"
    have "sp' @ members_text sp (m # ms) @ CHR 0x7D # r = sp' @ member_text sp (k, v) @ CHR '','' # ?rest"
      by (simp add: ms m)
    moreover have "parse_members ?rest (mput k v acc) = Some (fold (\<lambda>(k, v). mput k v) ms (mput k v acc), r)"
      using ms assms by (intro Cons.IH) auto
    ultimately show ?thesis
      using parse_member_text [OF assms Cons.prems(1), of "CHR '','' # ?rest"]
      by (simp add: m parse_members.simps [of "sp' @ _"])
  qed
qed simp

lemma unmarshal_object:
  assumes "blank sp"
  shows "UnmarshalMap (object_text sp ms) = Some (Some (fold (\<lambda>(k, v). mput k v) ms []))"
proof -
  let ?body = "members_text sp ms @ [CHR 0x7D]"
  have "parse_object ?body = Some (fold (\<lambda>(k, v). mput k v) ms [], [])"
  proof (cases "ms = []")
    case True
    then show ?thesis by (simp add: parse_object_def)
  next
    case False
    then obtain m ms' where ms: "ms = m # ms'" by (cases ms) auto
    obtain w where "?body = CHR 0x22 # w" using ms by (cases ms') (auto simp: member_text_def string_lit_def)
    then have "expect (CHR 0x7D) (skip_ws ?body) = None" by (simp add: skip_ws_def json_space_def)
    with parse_members_text [OF assms _ False, of "[]" "[]" "[]"] show ?thesis
      by (simp add: parse_object_def blank_def)
  qed
  then show ?thesis by (simp add: object_text_def UnmarshalMap_def HasPrefix_def)
qed

text \<open>The map as the reader builds it: the same lookups, in an order of its own.\<close>

definition read_order :: "strmap \<Rightarrow> strmap" where
  "read_order m = fold (\<lambda>(k, v). mput k v) (sort_key fst m) []"

lemma map_of_fold_mput: "map_of (fold (\<lambda>(k, v). mput k v) ms acc) = map_of acc ++ map_of (rev ms)"
  by (induction ms arbitrary: acc) (auto simp: map_add_def fun_eq_iff split: option.splits)

lemma map_of_read:
  assumes "distinct (map fst m)" and "distinct (map fst ms)" and "set ms = set m"
  shows "map_of (fold (\<lambda>(k, v). mput k v) ms []) = map_of m"
proof -
  have "distinct (map fst (rev ms))" using assms(2) by (simp add: rev_map [symmetric])
  then have "map_of (rev ms) = map_of m" using assms(1,3) by (intro map_of_inject_set [THEN iffD2]) auto
  then show ?thesis by (simp add: map_of_fold_mput)
qed

lemma distinct_sort_fst: "distinct (map fst m) \<Longrightarrow> distinct (map fst (sort_key f m))"
  by (simp add: distinct_map inj_on_def)

lemma map_of_read_order: "distinct (map fst m) \<Longrightarrow> map_of (read_order m) = map_of m"
  unfolding read_order_def by (rule map_of_read) (simp_all add: distinct_sort_fst)

lemma unmarshal_marshal: "UnmarshalMap (MarshalMap x) = Some (map_option read_order x)"
proof (cases x)
  case None
  have "UnmarshalMap ''null'' = Some None" by code_simp
  with None show ?thesis by simp
next
  case (Some m)
  then show ?thesis by (simp add: unmarshal_object blank_def read_order_def)
qed

lemma distinct_mput: "distinct (map fst m) \<Longrightarrow> distinct (map fst (mput k v m))"
  by (induction m) (auto simp: mput_def)

lemma parse_members_distinct: "parse_members s acc = Some (m, rest) \<Longrightarrow> distinct (map fst acc) \<Longrightarrow> distinct (map fst m)"
proof (induction s acc rule: parse_members.induct)
  case (1 s acc)
  from 1(2) obtain k v c s2 where s: "parse_member s = Some ((k, v), c # s2)"
    "c = CHR 0x7D \<and> m = mput k v acc \<or> c \<noteq> CHR 0x7D \<and> c = CHR '','' \<and> parse_members s2 (mput k v acc) = Some (m, rest)"
    by (auto simp: parse_members.simps [of s] split: option.splits list.splits if_splits)
  with 1(1) [OF s(1)] 1(3) show ?case by (auto simp: distinct_mput)
qed

text \<open>A map that was read has no key twice.\<close>

lemma unmarshal_distinct: "UnmarshalMap raw = Some (Some m) \<Longrightarrow> distinct (map fst m)"
  by (auto simp: UnmarshalMap_def Let_def parse_object_def split: if_splits option.splits bind_splits
      dest: parse_members_distinct)

end
