(* ===== verification/Store_Rows.thy ===== *)
theory Store_Rows
  imports Store_Inv Json_Map
begin

text \<open>
  The rows on their way out of PostgreSQL: the scan functions of \<^verbatim>\<open>src/internal/store\<close> and the loops of its list
  methods. The other theories keep a table as a list of records; here a row is the list of its columns as
  the driver hands them over, and the records are what the scan functions make of them. \<open>jsonb\<close> stands for what
  the database does to the text of a \<^verbatim>\<open>JSONB\<close> column between writing and reading (it drops spaces, orders keys):
  the object stays the same.

  The scans are partial: a NULL in a plain destination, an integer outside the width of the field, text that is
  no JSON object. The theorems: on the rows of a well-formed table they succeed and give the records back; a list
  method returns all rows or an error, never a part.
\<close>

section \<open>Columns\<close>

datatype col = CNull | CText string | CInt int | CTime time | CJson string | CArray "string list"

fun scan_string :: "col \<Rightarrow> string option" where
  "scan_string (CText s) = Some s"
| "scan_string _ = None"

fun scan_i64 :: "col \<Rightarrow> int option" where
  "scan_i64 (CInt n) = (if in_i64 n then Some n else None)"
| "scan_i64 _ = None"

fun scan_i32 :: "col \<Rightarrow> int option" where
  "scan_i32 (CInt n) = (if in_i32 n then Some n else None)"
| "scan_i32 _ = None"

fun scan_time :: "col \<Rightarrow> time option" where
  "scan_time (CTime t) = Some t"
| "scan_time _ = None"

text \<open>A byte slice and a string slice take NULL as nil; so does a pointer.\<close>

fun scan_bytes :: "col \<Rightarrow> string option" where
  "scan_bytes (CJson raw) = Some raw"
| "scan_bytes CNull = Some []"
| "scan_bytes _ = None"

fun scan_array :: "col \<Rightarrow> string list option" where
  "scan_array (CArray ss) = Some ss"
| "scan_array CNull = Some []"
| "scan_array _ = None"

fun scan_ptr :: "(col \<Rightarrow> 'a option) \<Rightarrow> col \<Rightarrow> 'a option option" where
  "scan_ptr f CNull = Some None"
| "scan_ptr f c = map_option Some (f c)"

text \<open>The statuses and the kinds of events are text in the code; the constraints of the tables leave no others.\<close>

definition of_text :: "('a \<Rightarrow> string) \<Rightarrow> 'a list \<Rightarrow> string \<Rightarrow> 'a option" where
  "of_text f xs s = find (\<lambda>x. f x = s) xs"

definition node_statuses :: "NodeStatus list" where
  "node_statuses = [NodeStatusUnknown, NodeStatusReady, NodeStatusNotReady, NodeStatusDead, NodeStatusCordoned]"

definition task_statuses :: "TaskStatus list" where
  "task_statuses = [TaskStatusPending, TaskStatusScheduled, TaskStatusRunning, TaskStatusSucceeded, TaskStatusFailed,
     TaskStatusOrphaned, TaskStatusCancelled]"

section \<open>Scans\<close>

datatype scan_error = ErrNoRows | ErrScan | ErrUnmarshal string

fun scanNode :: "col list \<Rightarrow> scan_error + Node" where
  "scanNode [cid, chost, caddr, ccpu, cmem, clabels, cstatus, cepoch, cbeat, ccreated] =
     (case do { i \<leftarrow> scan_string cid; h \<leftarrow> scan_string chost; a \<leftarrow> scan_string caddr;
                cpu \<leftarrow> scan_i64 ccpu; mem \<leftarrow> scan_i64 cmem; labelsRaw \<leftarrow> scan_bytes clabels;
                st \<leftarrow> scan_string cstatus \<bind> of_text NodeStatus_text node_statuses;
                ep \<leftarrow> scan_i64 cepoch; hb \<leftarrow> scan_ptr scan_time cbeat; cr \<leftarrow> scan_time ccreated;
                Some (\<lparr>nID = i, nHostname = h, nAddress = a, nCPUCapacityMillicores = cpu, nMemCapacityMB = mem,
                       nLabels = None, nStatus = st, nEpoch = ep, nLastHeartbeatAt = hb, nCreatedAt = cr\<rparr>,
                      labelsRaw) } of
        None \<Rightarrow> Inl ErrScan
      | Some (n, labelsRaw) \<Rightarrow>
          (case UnmarshalMap labelsRaw of
             None \<Rightarrow> Inl (ErrUnmarshal ''unmarshal labels'')
           | Some labels \<Rightarrow> Inr (n\<lparr>nLabels := labels\<rparr>)))"
| "scanNode _ = Inl ErrScan"

definition non_nil :: "strmap option \<Rightarrow> strmap" where
  "non_nil m = (case m of None \<Rightarrow> [] | Some x \<Rightarrow> x)"

fun scanJob :: "col list \<Rightarrow> scan_error + Job" where
  "scanJob [cid, cname, cimage, ccmd, ccpu, cmem, creps, cretry, cpolicy, ccons, ccreated] =
     (case do { i \<leftarrow> scan_string cid; nm \<leftarrow> scan_string cname; im \<leftarrow> scan_string cimage; cmd \<leftarrow> scan_array ccmd;
                cpu \<leftarrow> scan_i64 ccpu; mem \<leftarrow> scan_i64 cmem; rp \<leftarrow> scan_i32 creps; rl \<leftarrow> scan_i32 cretry;
                pol \<leftarrow> scan_string cpolicy; constraintsRaw \<leftarrow> scan_bytes ccons; cr \<leftarrow> scan_time ccreated;
                Some (\<lparr>jID = i, jName = nm, jImage = im, jCommand = cmd, jCPURequestMillicores = cpu,
                       jMemRequestMB = mem, jReplicas = rp, jRetryLimit = rl, jSchedulingPolicy = pol,
                       jConstraints = [], jCreatedAt = cr\<rparr>, constraintsRaw) } of
        None \<Rightarrow> Inl ErrScan
      | Some (j, constraintsRaw) \<Rightarrow>
          (case UnmarshalMap constraintsRaw of
             None \<Rightarrow> Inl (ErrUnmarshal ''unmarshal constraints'')
           | Some cons \<Rightarrow> Inr (j\<lparr>jConstraints := non_nil cons\<rparr>)))"
| "scanJob _ = Inl ErrScan"

fun task_columns :: "col list \<Rightarrow> Task option" where
  "task_columns [cid, cjob, cstatus, cnode, cepoch, cretries, cexit, cerr, ccreated, csched, cstart, cfin, cnext] =
     do { i \<leftarrow> scan_string cid; j \<leftarrow> scan_string cjob;
          st \<leftarrow> scan_string cstatus \<bind> of_text TaskStatus_text task_statuses;
          nd \<leftarrow> scan_ptr scan_string cnode; ep \<leftarrow> scan_ptr scan_i64 cepoch; ru \<leftarrow> scan_i32 cretries;
          ex \<leftarrow> scan_ptr scan_i32 cexit; er \<leftarrow> scan_ptr scan_string cerr; cr \<leftarrow> scan_time ccreated;
          sc \<leftarrow> scan_ptr scan_time csched; sa \<leftarrow> scan_ptr scan_time cstart; fi \<leftarrow> scan_ptr scan_time cfin;
          nx \<leftarrow> scan_ptr scan_time cnext;
          Some \<lparr>tID = i, tJobID = j, tStatus = st, tAssignedNodeID = nd, tAssignedEpoch = ep, tRetriesUsed = ru,
                tExitCode = ex, tLastError = er, tCreatedAt = cr, tScheduledAt = sc, tStartedAt = sa,
                tFinishedAt = fi, tNextRetryAt = nx\<rparr> }"
| "task_columns _ = None"

definition scanTask :: "col list \<Rightarrow> scan_error + Task" where
  "scanTask row = (case task_columns row of None \<Rightarrow> Inl ErrScan | Some t \<Rightarrow> Inr t)"

fun job_columns :: "col list \<Rightarrow> (Task \<Rightarrow> TaskWithJob \<times> string) option" where
  "job_columns [cimage, ccmd, ccpu, cmem, cretry, cpolicy, ccons] =
     do { im \<leftarrow> scan_string cimage; cmd \<leftarrow> scan_array ccmd; cpu \<leftarrow> scan_i64 ccpu; mem \<leftarrow> scan_i64 cmem;
          rl \<leftarrow> scan_i32 cretry; pol \<leftarrow> scan_string cpolicy; constraintsRaw \<leftarrow> scan_bytes ccons;
          Some (\<lambda>t. (\<lparr>wTask = t, wImage = im, wCommand = cmd, wCPURequestMillicores = cpu, wMemRequestMB = mem,
                      wRetryLimit = rl, wSchedulingPolicy = pol, wConstraints = []\<rparr>, constraintsRaw)) }"
| "job_columns _ = None"

definition scanTaskWithJob :: "col list \<Rightarrow> scan_error + TaskWithJob" where
  "scanTaskWithJob row =
     (case do { t \<leftarrow> task_columns (take 13 row); f \<leftarrow> job_columns (drop 13 row); Some (f t) } of
        None \<Rightarrow> Inl ErrScan
      | Some (w, constraintsRaw) \<Rightarrow>
          (case UnmarshalMap constraintsRaw of
             None \<Rightarrow> Inl (ErrUnmarshal ''unmarshal constraints'')
           | Some cons \<Rightarrow> Inr (w\<lparr>wConstraints := non_nil cons\<rparr>)))"

text \<open>An event's text columns are kept as text: they have no constraint.\<close>

record event_row =
  evID :: int
  evEntityType :: string
  evEntityID :: string
  evEventType :: string
  evMessage :: string
  evCreatedAt :: time

fun scanEvent :: "col list \<Rightarrow> scan_error + event_row" where
  "scanEvent [cid, cety, ceid, cevt, cmsg, ccreated] =
     (case do { i \<leftarrow> scan_i64 cid; ety \<leftarrow> scan_string cety; eid \<leftarrow> scan_string ceid; evt \<leftarrow> scan_string cevt;
                message \<leftarrow> scan_ptr scan_string cmsg; cr \<leftarrow> scan_time ccreated;
                Some \<lparr>evID = i, evEntityType = ety, evEntityID = eid, evEventType = evt,
                      evMessage = (case message of None \<Rightarrow> [] | Some m \<Rightarrow> m), evCreatedAt = cr\<rparr> } of
        None \<Rightarrow> Inl ErrScan
      | Some e \<Rightarrow> Inr e)"
| "scanEvent _ = Inl ErrScan"

fun scanLease :: "col list \<Rightarrow> scan_error + LeaderLease" where
  "scanLease [cid, caddr, cepoch, cacq, cexp] =
     (case do { i \<leftarrow> scan_string cid; a \<leftarrow> scan_string caddr; ep \<leftarrow> scan_i64 cepoch; ac \<leftarrow> scan_time cacq;
                ex \<leftarrow> scan_time cexp;
                Some \<lparr>lLeaderID = i, lLeaderAddr = a, lEpoch = ep, lAcquiredAt = ac, lExpiresAt = ex\<rparr> } of
        None \<Rightarrow> Inl ErrScan
      | Some l \<Rightarrow> Inr l)"
| "scanLease _ = Inl ErrScan"

section \<open>Queries\<close>

text \<open>
  What the driver returns for a query: an error of the query itself, or rows and whether the
  connection broke after them (\<^verbatim>\<open>rows.Err\<close>). \<open>q\<close> and \<open>s\<close> are the texts the method wraps errors in.
\<close>

type_synonym result_set = "(col list list \<times> bool) option"

fun scan_rows :: "(col list \<Rightarrow> scan_error + 'a) \<Rightarrow> string \<Rightarrow> col list list \<Rightarrow> store_error + 'a list" where
  "scan_rows scan s [] = Inr []"
| "scan_rows scan s (row # rows) =
     (case scan row of
        Inl e \<Rightarrow> Inl (StoreError s)
      | Inr x \<Rightarrow> (case scan_rows scan s rows of Inl e \<Rightarrow> Inl e | Inr xs \<Rightarrow> Inr (x # xs)))"

definition list_query ::
  "(col list \<Rightarrow> scan_error + 'a) \<Rightarrow> string \<Rightarrow> string \<Rightarrow> result_set \<Rightarrow> store_error + 'a list" where
  "list_query scan q s rs =
     (case rs of
        None \<Rightarrow> Inl (StoreError q)
      | Some (rows, broken) \<Rightarrow>
          (case scan_rows scan s rows of
             Inl e \<Rightarrow> Inl e
           | Inr xs \<Rightarrow> if broken then Inl (StoreError q) else Inr xs))"

text \<open>\<^verbatim>\<open>QueryRow\<close>: the first row, or \<^verbatim>\<open>pgx.ErrNoRows\<close>.\<close>

definition get_query ::
  "(col list \<Rightarrow> scan_error + 'a) \<Rightarrow> string \<Rightarrow> store_error \<Rightarrow> result_set \<Rightarrow> store_error + 'a" where
  "get_query scan q none rs =
     (case rs of
        None \<Rightarrow> Inl (StoreError q)
      | Some ([], broken) \<Rightarrow> if broken then Inl (StoreError q) else Inl none
      | Some (row # rows, broken) \<Rightarrow> (case scan row of Inl e \<Rightarrow> Inl (StoreError q) | Inr x \<Rightarrow> Inr x))"

section \<open>The rows of the tables\<close>

text \<open>The columns the queries select, for a row that holds the given values.\<close>

definition ptr :: "('a \<Rightarrow> col) \<Rightarrow> 'a option \<Rightarrow> col" where
  "ptr f x = (case x of None \<Rightarrow> CNull | Some y \<Rightarrow> f y)"

definition node_row :: "(string \<Rightarrow> string) \<Rightarrow> Node \<Rightarrow> col list" where
  "node_row jsonb n =
     [CText (nID n), CText (nHostname n), CText (nAddress n), CInt (nCPUCapacityMillicores n), CInt (nMemCapacityMB n),
      CJson (jsonb (MarshalMap (nLabels n))), CText (NodeStatus_text (nStatus n)), CInt (nEpoch n),
      ptr CTime (nLastHeartbeatAt n), CTime (nCreatedAt n)]"

definition job_row :: "(string \<Rightarrow> string) \<Rightarrow> Job \<Rightarrow> col list" where
  "job_row jsonb j =
     [CText (jID j), CText (jName j), CText (jImage j), CArray (jCommand j), CInt (jCPURequestMillicores j),
      CInt (jMemRequestMB j), CInt (jReplicas j), CInt (jRetryLimit j), CText (jSchedulingPolicy j),
      CJson (jsonb (MarshalMap (Some (jConstraints j)))), CTime (jCreatedAt j)]"

definition task_cols :: "Task \<Rightarrow> col list" where
  "task_cols t =
     [CText (tID t), CText (tJobID t), CText (TaskStatus_text (tStatus t)), ptr CText (tAssignedNodeID t),
      ptr CInt (tAssignedEpoch t), CInt (tRetriesUsed t), ptr CInt (tExitCode t), ptr CText (tLastError t),
      CTime (tCreatedAt t), ptr CTime (tScheduledAt t), ptr CTime (tStartedAt t), ptr CTime (tFinishedAt t),
      ptr CTime (tNextRetryAt t)]"

definition task_job_row :: "(string \<Rightarrow> string) \<Rightarrow> TaskWithJob \<Rightarrow> col list" where
  "task_job_row jsonb w = task_cols (wTask w) @
     [CText (wImage w), CArray (wCommand w), CInt (wCPURequestMillicores w), CInt (wMemRequestMB w),
      CInt (wRetryLimit w), CText (wSchedulingPolicy w), CJson (jsonb (MarshalMap (Some (wConstraints w))))]"

text \<open>The same map, in whatever order it is listed.\<close>

fun same_map :: "strmap option \<Rightarrow> strmap option \<Rightarrow> bool" where
  "same_map None None = True"
| "same_map (Some m) (Some m') = (map_of m = map_of m')"
| "same_map _ _ = False"

text \<open>The interface of a \<^verbatim>\<open>JSONB\<close> column: text that is an object of strings comes back as text for the same object.\<close>

definition jsonb_keeps :: "(string \<Rightarrow> string) \<Rightarrow> bool" where
  "jsonb_keeps jsonb \<longleftrightarrow> (\<forall>raw x. UnmarshalMap raw = Some x \<longrightarrow> (\<exists>x'. UnmarshalMap (jsonb raw) = Some x' \<and> same_map x x'))"

definition map_ok :: "strmap \<Rightarrow> bool" where
  "map_ok m \<longleftrightarrow> distinct (map fst m)"

locale jsonb_column =
  fixes jsonb :: "string \<Rightarrow> string"
  assumes keeps: "jsonb_keeps jsonb"
begin

lemma column_read:
  assumes "pred_option map_ok x"
  obtains x' where "UnmarshalMap (jsonb (MarshalMap x)) = Some x'" "same_map x x'"
proof -
  from unmarshal_marshal [of x] obtain x' where x': "UnmarshalMap (jsonb (MarshalMap x)) = Some x'" "same_map (map_option read_order x) x'"
    using keeps unfolding jsonb_keeps_def by blast
  moreover have "same_map x x'"
    using x'(2) assms by (cases x; cases x') (auto simp: map_ok_def map_of_read_order)
  ultimately show thesis by (intro that)
qed

end

lemma of_text_node [simp]: "of_text NodeStatus_text node_statuses (NodeStatus_text st) = Some st"
  by (cases st) (simp_all add: of_text_def node_statuses_def)

lemma of_text_task [simp]: "of_text TaskStatus_text task_statuses (TaskStatus_text st) = Some st"
  by (cases st) (simp_all add: of_text_def task_statuses_def)

lemma scan_ptr_text [simp]: "scan_ptr scan_string (ptr CText x) = Some x"
  by (cases x) (simp_all add: ptr_def)

lemma scan_ptr_time [simp]: "scan_ptr scan_time (ptr CTime x) = Some x"
  by (cases x) (simp_all add: ptr_def)

lemma scan_ptr_i64: "pred_option in_i64 x \<Longrightarrow> scan_ptr scan_i64 (ptr CInt x) = Some x"
  by (cases x) (simp_all add: ptr_def)

lemma scan_ptr_i32: "pred_option in_i32 x \<Longrightarrow> scan_ptr scan_i32 (ptr CInt x) = Some x"
  by (cases x) (simp_all add: ptr_def)

text \<open>The widths of the integer columns.\<close>

definition node_widths :: "Node \<Rightarrow> bool" where
  "node_widths n \<longleftrightarrow> in_i64 (nCPUCapacityMillicores n) \<and> in_i64 (nMemCapacityMB n) \<and> in_i64 (nEpoch n)"

definition job_widths :: "Job \<Rightarrow> bool" where
  "job_widths j \<longleftrightarrow> in_i64 (jCPURequestMillicores j) \<and> in_i64 (jMemRequestMB j) \<and> in_i32 (jReplicas j)
     \<and> in_i32 (jRetryLimit j)"

definition task_widths :: "Task \<Rightarrow> bool" where
  "task_widths t \<longleftrightarrow> pred_option in_i64 (tAssignedEpoch t) \<and> in_i32 (tRetriesUsed t) \<and> pred_option in_i32 (tExitCode t)"

lemma task_columns_cols: "task_widths t \<Longrightarrow> task_columns (task_cols t) = Some t"
  by (simp add: task_cols_def task_widths_def scan_ptr_i64 scan_ptr_i32)

lemma length_task_cols [simp]: "length (task_cols t) = 13"
  by (simp add: task_cols_def)

context jsonb_column
begin

lemma node_read:
  assumes "node_widths n" and "pred_option map_ok (nLabels n)"
  shows "\<exists>labels. scanNode (node_row jsonb n) = Inr (n\<lparr>nLabels := labels\<rparr>) \<and> same_map (nLabels n) labels"
proof -
  obtain x where "UnmarshalMap (jsonb (MarshalMap (nLabels n))) = Some x" "same_map (nLabels n) x"
    by (rule column_read [OF assms(2)])
  with assms(1) show ?thesis by (intro exI [of _ x]) (cases n, simp add: node_row_def node_widths_def)
qed

lemma constraints_read:
  assumes "map_ok m"
  obtains m' where "UnmarshalMap (jsonb (MarshalMap (Some m))) = Some (Some m')" "map_of m = map_of m'"
proof -
  obtain x where x: "UnmarshalMap (jsonb (MarshalMap (Some m))) = Some x" "same_map (Some m) x"
    using assms by (auto intro: column_read [of "Some m"])
  then show thesis by (cases x) (auto intro: that)
qed

lemma job_read:
  assumes "job_widths j" and "map_ok (jConstraints j)"
  shows "\<exists>cons. scanJob (job_row jsonb j) = Inr (j\<lparr>jConstraints := cons\<rparr>) \<and> map_of cons = map_of (jConstraints j)"
proof -
  obtain m where "UnmarshalMap (jsonb (MarshalMap (Some (jConstraints j)))) = Some (Some m)"
    "map_of (jConstraints j) = map_of m" by (rule constraints_read [OF assms(2)])
  with assms(1) show ?thesis
    by (intro exI [of _ m]) (cases j, simp add: job_row_def job_widths_def non_nil_def del: MarshalMap.simps)
qed

lemma task_job_read:
  assumes "task_widths (wTask w)" and "in_i64 (wCPURequestMillicores w)" and "in_i64 (wMemRequestMB w)"
    and "in_i32 (wRetryLimit w)" and "map_ok (wConstraints w)"
  shows "\<exists>cons. scanTaskWithJob (task_job_row jsonb w) = Inr (w\<lparr>wConstraints := cons\<rparr>)
    \<and> map_of cons = map_of (wConstraints w)"
proof -
  obtain m where "UnmarshalMap (jsonb (MarshalMap (Some (wConstraints w)))) = Some (Some m)"
    "map_of (wConstraints w) = map_of m" by (rule constraints_read [OF assms(5)])
  with assms show ?thesis
    by (intro exI [of _ m])
       (cases w, simp add: scanTaskWithJob_def task_job_row_def task_columns_cols non_nil_def del: MarshalMap.simps)
qed

end

text \<open>
  What PostgreSQL prints for a \<^verbatim>\<open>JSONB\<close> object: a space after each colon and comma, keys by length and then by
  their bytes.
\<close>

definition pg_jsonb :: "string \<Rightarrow> string" where
  "pg_jsonb raw =
     (case UnmarshalMap raw of
        None \<Rightarrow> raw
      | Some None \<Rightarrow> ''null''
      | Some (Some m) \<Rightarrow> object_text '' '' (sort_key (\<lambda>p. length (fst p)) (sort_key fst m)))"

interpretation pg_json: jsonb_column pg_jsonb
proof
  have "UnmarshalMap ''null'' = Some None" by code_simp
  moreover have "blank '' ''" by (simp add: blank_def json_space_def)
  moreover have "distinct (map fst m) \<Longrightarrow>
      map_of (fold (\<lambda>(k, v). mput k v) (sort_key (\<lambda>p. length (fst p)) (sort_key fst m)) []) = map_of m" for m :: strmap
    by (rule map_of_read) (simp_all add: distinct_sort_fst)
  ultimately show "jsonb_keeps pg_jsonb"
    unfolding jsonb_keeps_def pg_jsonb_def
    by (auto simp: unmarshal_object split: option.splits dest!: unmarshal_distinct)
qed

section \<open>List methods\<close>

lemma scan_rows_all:
  "(\<And>x. x \<in> set xs \<Longrightarrow> \<exists>y. scan (row x) = Inr y \<and> P x y) \<Longrightarrow>
     \<exists>ys. scan_rows scan s (map row xs) = Inr ys \<and> list_all2 P xs ys"
proof (induction xs)
  case (Cons x xs)
  then obtain y ys where "scan (row x) = Inr y" "P x y" "scan_rows scan s (map row xs) = Inr ys" "list_all2 P xs ys"
    by (metis list.set_intros)
  then show ?case by simp
qed simp

text \<open>All rows or an error: no list method returns a part of what was selected.\<close>

lemma scan_rows_complete: "scan_rows scan s rows = Inr xs \<Longrightarrow> list_all2 (\<lambda>row x. scan row = Inr x) rows xs"
  by (induction rows arbitrary: xs) (auto split: sum.splits)

lemma list_query_read:
  assumes "\<And>x. x \<in> set xs \<Longrightarrow> \<exists>y. scan (row x) = Inr y \<and> P x y"
  shows "\<exists>ys. list_query scan q s (Some (map row xs, False)) = Inr ys \<and> list_all2 P xs ys"
  using scan_rows_all [of xs scan row P s, OF assms] by (auto simp: list_query_def)

text \<open>The methods of the other theories are these queries on the rows of the table.\<close>

definition rows_of :: "dbenv \<Rightarrow> string \<Rightarrow> ('a \<Rightarrow> col list) \<Rightarrow> 'a list \<Rightarrow> result_set" where
  "rows_of env q row xs = (if db_fault env q then None else Some (map row xs, False))"

lemma list_query_exact:
  assumes "\<And>x. x \<in> set xs \<Longrightarrow> scan (row x) = Inr x"
  shows "list_query scan q s (rows_of env q row xs) = pool_query env q (\<lambda>_. xs) d"
proof (cases "db_fault env q")
  case False
  have "\<exists>ys. list_query scan q s (Some (map row xs, False)) = Inr ys \<and> list_all2 (=) xs ys"
    by (rule list_query_read) (use assms in auto)
  with False show ?thesis by (auto simp: rows_of_def pool_query_def list.rel_eq)
qed (simp add: rows_of_def pool_query_def list_query_def)

lemma tasks_scanned:
  assumes "list_all task_widths (db_tasks d)"
  shows "ListTasks env jobID d = list_query scanTask ''store: list tasks'' ''store: scan task row''
      (rows_of env ''store: list tasks'' task_cols
         (sort_key tCreatedAt (if jobID = [] then db_tasks d else filter (\<lambda>t. tJobID t = jobID) (db_tasks d))))"
    and "GetTask env tid d = get_query scanTask ''store: get task'' ErrTaskNotFound
      (rows_of env ''store: get task'' task_cols (filter (\<lambda>t. tID t = tid) (db_tasks d)))"
proof -
  have scan: "scanTask (task_cols t) = Inr t" if "t \<in> set (db_tasks d)" for t
    using assms that by (simp add: list_all_iff scanTask_def task_columns_cols)
  show "ListTasks env jobID d = list_query scanTask ''store: list tasks'' ''store: scan task row''
      (rows_of env ''store: list tasks'' task_cols
         (sort_key tCreatedAt (if jobID = [] then db_tasks d else filter (\<lambda>t. tJobID t = jobID) (db_tasks d))))"
    using scan by (subst list_query_exact [where d = d]) (auto simp: ListTasks_def pool_query_def split: if_splits)
  have f: "find P xs = (case filter P xs of [] \<Rightarrow> None | x # _ \<Rightarrow> Some x)" for P and xs :: "Task list"
    by (induction xs) auto
  show "GetTask env tid d = get_query scanTask ''store: get task'' ErrTaskNotFound
      (rows_of env ''store: get task'' task_cols (filter (\<lambda>t. tID t = tid) (db_tasks d)))"
  proof (cases "filter (\<lambda>t. tID t = tid) (db_tasks d)")
    case (Cons t ts)
    then have "t \<in> set (filter (\<lambda>t. tID t = tid) (db_tasks d))" by simp
    then have "t \<in> set (db_tasks d)" by simp
    with Cons scan show ?thesis by (simp add: GetTask_def get_query_def rows_of_def pool_query_def f)
  qed (simp add: GetTask_def get_query_def rows_of_def pool_query_def f)
qed

section \<open>Properties\<close>

text \<open>
  C39: Rows are read back. Reading the rows of nodes, jobs, tasks and claimed tasks whose integers fit their columns
  gives the records that were written, field by field; labels and constraints come back as the same maps,
  whatever the database does to the text of its JSON.
\<close>

theorem rows_read_back:
  assumes "jsonb_keeps jsonb"
    and "list_all (\<lambda>n. node_widths n \<and> pred_option map_ok (nLabels n)) ns"
    and "list_all (\<lambda>j. job_widths j \<and> map_ok (jConstraints j)) js" and "list_all task_widths ts"
    and "list_all (\<lambda>w. task_widths (wTask w) \<and> in_i64 (wCPURequestMillicores w) \<and> in_i64 (wMemRequestMB w)
           \<and> in_i32 (wRetryLimit w) \<and> map_ok (wConstraints w)) ws"
  shows "(\<exists>ns'. list_query scanNode q s (Some (map (node_row jsonb) ns, False)) = Inr ns'
      \<and> list_all2 (\<lambda>n n'. \<exists>m. n' = n\<lparr>nLabels := m\<rparr> \<and> same_map (nLabels n) m) ns ns')
    \<and> (\<exists>js'. list_query scanJob q s (Some (map (job_row jsonb) js, False)) = Inr js'
      \<and> list_all2 (\<lambda>j j'. \<exists>m. j' = j\<lparr>jConstraints := m\<rparr> \<and> map_of m = map_of (jConstraints j)) js js')
    \<and> list_query scanTask q s (Some (map task_cols ts, False)) = Inr ts
    \<and> (\<exists>ws'. list_query scanTaskWithJob q s (Some (map (task_job_row jsonb) ws, False)) = Inr ws'
      \<and> list_all2 (\<lambda>w w'. \<exists>m. w' = w\<lparr>wConstraints := m\<rparr> \<and> map_of m = map_of (wConstraints w)) ws ws')"
proof (intro conjI)
  note col = jsonb_column.intro [OF assms(1)]
  show "\<exists>ns'. list_query scanNode q s (Some (map (node_row jsonb) ns, False)) = Inr ns'
      \<and> list_all2 (\<lambda>n n'. \<exists>m. n' = n\<lparr>nLabels := m\<rparr> \<and> same_map (nLabels n) m) ns ns'"
    by (rule list_query_read) (use assms(2) jsonb_column.node_read [OF col] in \<open>simp add: list_all_iff; blast\<close>)
  show "\<exists>js'. list_query scanJob q s (Some (map (job_row jsonb) js, False)) = Inr js'
      \<and> list_all2 (\<lambda>j j'. \<exists>m. j' = j\<lparr>jConstraints := m\<rparr> \<and> map_of m = map_of (jConstraints j)) js js'"
    by (rule list_query_read) (use assms(3) jsonb_column.job_read [OF col] in \<open>simp add: list_all_iff; blast\<close>)
  show "\<exists>ws'. list_query scanTaskWithJob q s (Some (map (task_job_row jsonb) ws, False)) = Inr ws'
      \<and> list_all2 (\<lambda>w w'. \<exists>m. w' = w\<lparr>wConstraints := m\<rparr> \<and> map_of m = map_of (wConstraints w)) ws ws'"
    by (rule list_query_read) (use assms(5) jsonb_column.task_job_read [OF col] in \<open>simp add: list_all_iff; blast\<close>)
  have "\<exists>ts'. list_query scanTask q s (Some (map task_cols ts, False)) = Inr ts' \<and> list_all2 (=) ts ts'"
    by (rule list_query_read) (use assms(4) in \<open>auto simp: list_all_iff scanTask_def task_columns_cols\<close>)
  then show "list_query scanTask q s (Some (map task_cols ts, False)) = Inr ts" by (auto simp: list.rel_eq)
qed

definition labelled_node :: Node where
  "labelled_node = \<lparr>nID = ''n1'', nHostname = ''alpha'', nAddress = ''10.0.0.1:7000'', nCPUCapacityMillicores = 4000,
     nMemCapacityMB = 8192, nLabels = Some [(''zone'', ''a<b''), (''os'', ''linux'')], nStatus = NodeStatusReady,
     nEpoch = 3, nLastHeartbeatAt = None, nCreatedAt = 1\<rparr>"

theorem rows_read_back_witness:
  "\<exists>n'. list_query scanNode ''store: list nodes'' ''store: scan node row'' (Some ([node_row pg_jsonb labelled_node], False))
      = Inr [n'] \<and> same_map (nLabels labelled_node) (nLabels n') \<and> nHostname n' = ''alpha''"
proof -
  have "list_all (\<lambda>n. node_widths n \<and> pred_option map_ok (nLabels n)) [labelled_node]"
    by (simp add: labelled_node_def node_widths_def map_ok_def in_i64_def)
  from rows_read_back [OF pg_json.keeps this, of "[]" "[]" "[]" "''store: list nodes''" "''store: scan node row''"]
  show ?thesis by (auto simp: list_all2_Cons1 labelled_node_def)
qed


end
