(* ===== verification/Spec2Isabelle.thy ===== *)
theory Spec2Isabelle
  imports Scheduler_Tick Store_Props Election Failure_Detector Grpc_Props Event_Fanout Autoscaler
    Worker_Main Task_Lifecycle Plane_Props Arbiterctl Instrumentation Scheduler_Main Store_Rows
begin

text \<open>
  \<^bold>\<open>Arbiter, a distributed task scheduler.\<close> A few replicas of a scheduler process share a PostgreSQL database
  and a Redis server. One of them holds the leader lease; it places tasks on nodes, judges nodes by their
  heartbeats, publishes the audit trail and starts or reclaims simulated workers. Worker processes register,
  send heartbeats, get their assignments in the answers, run each task as a container and report how it ended.
  Clients submit jobs and look at the cluster over gRPC or HTTP, or with the command \<^verbatim>\<open>arbiterctl\<close>. Epochs fence
  off what is out of date: a node's epoch grows when it registers again or is declared dead, and reports and
  heartbeats under another epoch are refused; the lease has an epoch of its own.

  This development models the Go sources under \<^verbatim>\<open>src/\<close> and proves what makes the parts, and the parts together,
  correct. Every definition that models code is executable. Errors are values of sums or options, with one branch
  for every early return of the source; the state a function changes is passed and returned.

  \<^bold>\<open>The theories and what they model.\<close>

  \<^item> \<open>Arbiter_Prelude\<close>: durations, the width of \<^verbatim>\<open>int64\<close> and \<^verbatim>\<open>int32\<close>, the string functions the code uses, string
    maps as association lists, updates of tables. \<open>Net_Addr\<close>: \<^verbatim>\<open>net.SplitHostPort\<close> and \<^verbatim>\<open>JoinHostPort\<close>.
    \<open>Step_System\<close>: the locales of transition systems with an invariant and of simulations between two of them.
    \<open>Sample_Cluster\<close>: a small well-formed database for the witnesses.
  \<^item> \<open>Store_Base\<close>, \<open>Store_Nodes\<close>, \<open>Store_Tasks\<close>, \<open>Store_Reports\<close> (\<^verbatim>\<open>internal/store\<close>): the tables as lists of rows
    and every method of the store. \<open>in_tx\<close> is the transaction bracket: an error leaves the database as it was. A
    \<open>dbenv\<close> gives the clock, the UUIDs and, by the label of a statement, whether it fails. \<open>Store_Inv\<close> is the
    invariant \<open>db_inv\<close> (keys, column types and constraints, assignments, audit trail). \<open>Store_Contract\<close> has the
    locale \<open>store_method\<close>: a failing method changes nothing, a successful one keeps \<open>db_inv\<close>, never lowers a node's
    epoch and only appends to the trail; it is interpreted by every mutating method. \<open>Store_Props\<close> has the theorems
    on them; reports refine an abstract transition table. \<open>Json_Map\<close>, \<open>Store_Rows\<close>: the rows as the driver returns them,
    the scans, the JSON of labels and constraints, the list and get queries (locale \<open>jsonb_column\<close>: what a \<^verbatim>\<open>JSONB\<close> column
    promises). \<open>Store_Open\<close>: opening the pool, the migrations.
  \<^item> \<open>Scheduler\<close>, \<open>Scheduler_Tick\<close> (\<^verbatim>\<open>internal/scheduler\<close>): filters, scorers, \<open>Place\<close> and the scheduling tick. Go's
    \<^verbatim>\<open>float64\<close> enters through an arbitrary rounding function, so the results hold for any.
  \<^item> \<open>Leader_Gate\<close>: the interface through which every loop asks for leadership, and the locale \<open>gated_loop\<close>: a
    follower's tick changes nothing. It is interpreted by the engine, the detector, the fanout and the autoscaler.
  \<^item> \<open>Election\<close> (\<^verbatim>\<open>internal/store/lease.go\<close>, \<^verbatim>\<open>internal/election\<close>): the lease transaction, the elector, and the
    transition system of any number of replicas with their own clocks, which may restart at any time.
  \<^item> \<open>Cache\<close> (\<^verbatim>\<open>internal/cache\<close>) and \<open>Failure_Detector\<close> (\<^verbatim>\<open>internal/failuredetector\<close>): heartbeat timestamps and the
    sweep that judges nodes by them.
  \<^item> \<open>Grpc_Api\<close>, \<open>Grpc_Props\<close> (\<^verbatim>\<open>internal/grpcapi\<close>, \<^verbatim>\<open>internal/leaderclient\<close>): the RPC handlers and the redirect
    protocol. The locale \<open>leader_rpc\<close> is what a mutating handler promises on a follower.
  \<^item> \<open>Event_Feed\<close>, \<open>Event_Fanout\<close> (\<^verbatim>\<open>internal/eventfanout\<close>): the locale \<open>event_feed\<close> of readers that follow the
    audit trail by its ids, and the fanout as one of them. The polling stream of the HTTP API is the other.
  \<^item> \<open>Docker_Util\<close>, \<open>Autoscaler\<close> (\<^verbatim>\<open>internal/dockerutil\<close>, \<^verbatim>\<open>internal/autoscaler\<close>): container operations, log
    decoding, scaling up and down.
  \<^item> \<open>Executor\<close>, \<open>Dialer\<close>, \<open>Worker\<close>, \<open>Worker_Props\<close>, \<open>Worker_Main\<close> (\<^verbatim>\<open>internal/executor\<close>, \<^verbatim>\<open>cmd/worker\<close>): the life cycle of a task's
    container, also as a transition system of concurrent starts, exits and stops; the connection to the scheduler
    with its retries; the agent and its start. The locale \<open>routed_rpc\<close> extends \<open>leader_rpc\<close> by what makes retrying sound.
    \<open>Task_Lifecycle\<close>: the life of a task across scheduler and worker.
  \<^item> \<open>Http_Api\<close> (\<^verbatim>\<open>internal/httpapi\<close>): routing, the handlers, the event stream.
  \<^item> \<open>Ctl_Client\<close>, \<open>Arbiterctl\<close> (\<^verbatim>\<open>cmd/arbiterctl\<close>): the redirecting client and the commands.
  \<^item> \<open>Metrics\<close> (\<^verbatim>\<open>internal/metrics\<close>) and \<open>Scheduler_Main\<close> (\<^verbatim>\<open>cmd/scheduler\<close>, \<^verbatim>\<open>internal/health\<close>): the gauges, and the
    start of a replica. \<open>Instrumentation\<close>: the loops and handlers together with what they write to the metrics
    (locale \<open>metered\<close>: the metrics are only written).
  \<^item> \<open>Transactions\<close>, \<open>Cluster\<close>: the whole control plane as a transition system whose steps are store transactions, with
    a scheduling batch placed on node rows read at some earlier moment, as the engine does. The locale
    \<open>history_method\<close> extends \<open>store_method\<close> by what no method undoes. The locale \<open>transaction_relation\<close>: what every
    transaction keeps, every loop, RPC and HTTP request keeps.
  \<^item> \<open>Control_Plane\<close>: any number of replicas as processes, each with its goroutines (elector, engine, detector,
    reapers, fanout, autoscaler) and its servers, on one database, Redis and Docker. A replica takes its turns in any order with
    the others, and may die and start again between any two; the engine's tick is four turns, its open
    transaction holding the row locks of what it has claimed; a sweep of the detector is a turn per node.
    \<open>Plane_Refinement\<close>: this composition simulates the transactions of \<open>Cluster\<close> and the elections of \<open>Election\<close> (two
    interpretations of \<open>simulation\<close>). \<open>Plane_Props\<close>: what follows for the replicas together.
  \<^item> This theory, \<open>Spec2Isabelle\<close>: what no run undoes, and that every loop, RPC and HTTP request is a run.

  \<^bold>\<open>What is shown.\<close> Placement: the best eligible node is chosen, a tick never overcommits a node, keeps the
  invariant, claims first come first served and makes progress. Tasks: reports follow the transition table, are
  fenced by node and epoch, count their retries, and finished tasks stay as they are. Nodes: registration,
  detection by age, death with requeueing. Leadership: epochs of leaders are distinct, two leaders overlap only
  after a missed renewal, an expired lease is taken. Replicas together: whatever they interleave, the batches they claim
  are disjoint and no task is placed twice, followers write nothing, and after a leader is lost one tick of another's elector and
  one of its engine resume placement. Workers: a worker joins as a ready node; a scheduled task is launched once as its job says,
  runs, and its exit is recorded; a fenced worker rejoins; results are delivered exactly once under every interleaving. Clients: reports and
  submissions reach the leader, HTTP and gRPC agree, waiting for a job ends and tells the truth. Events: each is
  published or streamed once and in order. Autoscaling: within its maximum, idle nodes only. Metrics: the gauges are
  the counts, the counters agree with the audit trail. Storage: rows are read back as they were written, lists are complete
  or an error, connections are not leaked.

  \<^bold>\<open>Parameters.\<close> Code outside the repository is an argument, with its documented behaviour as named hypotheses:
  Redis (\<open>redis\<close>, \<open>redis_laws\<close>; instance \<open>map_redis\<close>), the Docker Engine (\<open>engine\<close>, \<open>engine_laws\<close>; instance
  \<open>list_engine\<close>), \<^verbatim>\<open>grpc.NewClient\<close> (\<open>dial\<close>), the RPC transport (\<open>call\<close>, \<open>net\<close>; instance \<open>cluster_call\<close>), the JSON
  codec of published events, the HTTP client of the logs command, the clock and the sleep of a waiting command
  (\<open>time_passes\<close>), the database driver and the migration library (\<open>driver\<close>, \<open>migrator\<close>), the text a \<^verbatim>\<open>JSONB\<close> column returns
  (\<open>jsonb_column\<close>; instance \<open>pg_jsonb\<close>). The witnesses use the instances.

  \<^bold>\<open>Bounds and fuel.\<close> Retry loops recurse on the code's own attempt limits (8, 15 and 6). Polling for a job is a
  \<^verbatim>\<open>partial_function\<close> that is proved to return. Log decoding terminates by the length of the stream. No definition
  has an artificial fuel.

  \<^bold>\<open>Simplifications.\<close> Instants are integers in nanoseconds, and a \<^verbatim>\<open>TIMESTAMPTZ\<close> is not rounded to microseconds.
  Ties of \<^verbatim>\<open>ORDER BY\<close> are resolved by insertion order. A store transaction is atomic, as its row locks make it; gaps in
  \<^verbatim>\<open>BIGSERIAL\<close> ids after a rollback and commits of unknown outcome are left out. Text that is not a UUID makes its
  statement fail. Node and lease epochs are unbounded, where the column is a \<^verbatim>\<open>BIGINT\<close>. Nil and empty are one for
  commands and constraints, but not for labels. \<^verbatim>\<open>TrimSpace\<close> knows ASCII only. The text a driver adds to a wrapped
  error is left out. JSON, URL and SSE encodings are kept structured, except the JSON of labels and constraints. An autoscaler tick reads its clock once; an
  RPC has one \<open>dbenv\<close> except for the updates bundled in a heartbeat. The lease is compared on each replica's own
  clock in \<open>Election\<close>, as in the code; the replicas of \<open>Control_Plane\<close> share one. There an RPC, an HTTP request and an autoscaler tick are
  one turn each, and the metrics are left out (\<open>Instrumentation\<close> shows that they change nothing). A worker's handlers run one at a time;
  the concurrency of the executor is \<open>exec_step\<close>.

  \<^bold>\<open>Not modelled.\<close> Generated gRPC code, logging, the parsing of flags and arguments by the flag and cobra libraries, the intervals of
  tickers (a turn may come at any time), signals, listeners and graceful shutdown, the exposition format of the metrics:
  library calls and process wiring. The SQL migrations are not Go; their constraints are in \<open>db_inv\<close>. The dashboard, the
  scripts and the deployment files, which are not Go.
\<close>

section \<open>Properties of the whole control plane\<close>

text \<open>
  C15: what no run undoes. In every run of the control plane, whatever transactions its replicas interleave
  and whichever of them fail, the database stays well-formed; a task stays a task of its job, never loses
  retries it has used, and never changes again once it has succeeded or failed; node epochs and the
  lease epoch never decrease; the audit trail is only appended to.
\<close>

theorem cluster_history:
  assumes "reachable_by cluster_init cluster_step s" and "cluster_step\<^sup>*\<^sup>* s s'"
    and "t \<in> set (db_tasks (clDb s))"
  shows "db_inv (clDb s')
    \<and> (\<exists>t' \<in> set (db_tasks (clDb s')). tID t' = tID t \<and> tJobID t' = tJobID t \<and> tRetriesUsed t \<le> tRetriesUsed t'
         \<and> (tStatus t \<in> {TaskStatusSucceeded, TaskStatusFailed} \<longrightarrow> t' = t))
    \<and> epochs_le (db_nodes (clDb s)) (db_nodes (clDb s'))
    \<and> (\<exists>evs. db_events (clDb s') = db_events (clDb s) @ evs)
    \<and> lease_later (db_lease (clDb s)) (db_lease (clDb s'))"
proof -
  have inv: "cluster_inv s" by (rule clusters.inv_reachable [OF assms(1)])
  have inv': "cluster_inv s'" by (rule clusters.inv_steps [OF assms(2) inv])
  note l = run_later [OF assms(2) inv]
  from l assms(3) obtain t' where "t' \<in> set (db_tasks (clDb s'))" "task_later t t'"
    by (auto simp: later_def tasks_later_def)
  with l inv' show ?thesis
    by (auto simp: later_def events_grow_def cluster_inv_def task_later_def intro!: bexI [of _ t'])
qed

definition empty_db :: db where
  "empty_db = \<lparr>db_nodes = [], db_jobs = [], db_tasks = [], db_events = [], db_event_seq = 1, db_lease = None\<rparr>"

definition submitted :: cluster where
  "submitted = \<lparr>clDb = snd (CreateJob sample_env small_job empty_db), clSnaps = []\<rparr>"

definition joined :: cluster where
  "joined = \<lparr>clDb = snd (RegisterNode sample_env alpha_again (clDb submitted)), clSnaps = []\<rparr>"

theorem cluster_history_witness:
  "\<exists>t t'. t \<in> set (db_tasks (clDb submitted)) \<and> t' \<in> set (db_tasks (clDb joined)) \<and> tID t' = tID t
     \<and> db_inv (clDb joined)"
proof -
  have "cluster_step \<lparr>clDb = empty_db, clSnaps = []\<rparr> submitted"
    using cluster_step.submits [of "\<lparr>clDb = empty_db, clSnaps = []\<rparr>" sample_env small_job] by (simp add: submitted_def)
  moreover have "cluster_init \<lparr>clDb = empty_db, clSnaps = []\<rparr>" by (simp add: cluster_init_def empty_db_def)
  ultimately have r: "reachable_by cluster_init cluster_step submitted" unfolding reachable_by_def by blast
  have "cluster_step submitted (submitted\<lparr>clDb := snd (RegisterNode sample_env alpha_again (clDb submitted))\<rparr>)"
    by (rule cluster_step.registers)
  then have st: "cluster_step\<^sup>*\<^sup>* submitted joined" by (simp add: submitted_def joined_def)
  have "db_tasks (clDb submitted) \<noteq> []" by code_simp
  then obtain t where "t \<in> set (db_tasks (clDb submitted))" by (cases "db_tasks (clDb submitted)") auto
  from cluster_history [OF r st this] this show ?thesis by blast
qed



end
